theory Spec2Isabelle
  imports Main "HOL-Library.Word"
begin

unbundle bit_operations_syntax

section \<open>Machine integers, bytes and the C library\<close>

text \<open>
  \<open>uint8_t\<close>, \<open>uint32_t\<close> and \<open>unsigned int\<close> are words, so that arithmetic on
  them wraps; \<open>long\<close> values (the file size bound and what \<open>ftell\<close> returns) are only
  compared, never computed with, and are integers.
\<close>

type_synonym byte = "8 word"
type_synonym uint32_t = "32 word"

text \<open>What \<open>operator<<\<close> prints for an \<open>unsigned int\<close>: its decimal digits.\<close>

definition digit_char :: "nat \<Rightarrow> char" where
  "digit_char d = ''0123456789'' ! d"

function decimal :: "nat \<Rightarrow> string" where
  "decimal n = (if n < 10 then [digit_char n] else decimal (n div 10) @ [digit_char (n mod 10)])"
  by pat_completeness auto
termination
  by (relation "measure id") auto

declare decimal.simps [simp del]

text \<open>
  An open \<open>std::FILE\<close> stream: the path it was opened on and the bytes written to it
  since \<open>fopen(path, "w")\<close>. The file system is the content of every file by name,
  as it reads after the last \<open>fflush\<close> or \<open>fclose\<close>, together with the journal of the
  calls that were made on it. \<open>fwrite\<close> is taken to succeed; whether \<open>fopen\<close>
  succeeds is decided by the environment and is an argument of the model.
  \<open>printf\<close> and \<open>fflush(stdout)\<close> are left out.
\<close>

record FILE =
  f_path :: string
  f_data :: "byte list"

datatype libc_call =
    Fopen string bool
  | Fflush string
  | Fclose string "byte list"
  | Remove string

record filesystem =
  disk :: "string \<Rightarrow> byte list option"
  journal :: "libc_call list"

definition std_fopen :: "bool \<Rightarrow> string \<Rightarrow> filesystem \<Rightarrow> FILE option \<times> filesystem" where
  "std_fopen ok path w =
     (if ok
      then (Some \<lparr>f_path = path, f_data = []\<rparr>,
            w\<lparr>disk := (disk w)(path \<mapsto> []), journal := journal w @ [Fopen path True]\<rparr>)
      else (None, w\<lparr>journal := journal w @ [Fopen path False]\<rparr>))"

definition std_fwrite :: "byte list \<Rightarrow> FILE \<Rightarrow> FILE" where
  "std_fwrite bytes file = file\<lparr>f_data := f_data file @ bytes\<rparr>"

definition std_ftell :: "FILE \<Rightarrow> int" where
  "std_ftell file = int (length (f_data file))"

definition std_fflush :: "FILE \<Rightarrow> filesystem \<Rightarrow> filesystem" where
  "std_fflush file w =
     w\<lparr>disk := (disk w)(f_path file \<mapsto> f_data file), journal := journal w @ [Fflush (f_path file)]\<rparr>"

definition std_fclose :: "FILE \<Rightarrow> filesystem \<Rightarrow> filesystem" where
  "std_fclose file w =
     w\<lparr>disk := (disk w)(f_path file \<mapsto> f_data file),
       journal := journal w @ [Fclose (f_path file) (f_data file)]\<rparr>"

definition std_remove :: "string \<Rightarrow> filesystem \<Rightarrow> filesystem" where
  "std_remove path w = w\<lparr>disk := (disk w)(path := None), journal := journal w @ [Remove path]\<rparr>"

text \<open>
  The undefined behaviour the code can run into: \<open>pop_back\<close> on an empty vector,
  \<open>front\<close> on an empty list, \<open>fclose\<close> of a null stream, a call through a null
  function pointer.
\<close>

datatype error =
    Pop_Back_On_Empty_Vector
  | Front_On_Empty_List
  | Fclose_Of_Null_Stream
  | Call_Through_Null_Pointer

section \<open>The record format\<close>

datatype i965_batchbuffer_logger_message_type_t =
    I965_BATCHBUFFER_LOGGER_MESSAGE_BLOCK_BEGIN
  | I965_BATCHBUFFER_LOGGER_MESSAGE_BLOCK_END
  | I965_BATCHBUFFER_LOGGER_MESSAGE_VALUE

text \<open>
  Modelled from the spec: \<open>struct i965_batchbuffer_logger_header\<close> and the numbering
  of \<open>enum i965_batchbuffer_logger_message_type_t\<close> are declared in
  \<open>i965_batchbuffer_logger_output.h\<close>, which is not among the sources. The spec gives the
  header as the event type (BlockBegin, BlockEnd, Value, numbered here in that order),
  the name length and the value length, the latter two \<open>uint32\<close>, in one fixed byte
  order; \<open>fwrite(&hdr, sizeof(hdr), 1, m_file)\<close> is taken to write three 32-bit fields,
  least significant byte first, without padding.
\<close>

definition type_code :: "i965_batchbuffer_logger_message_type_t \<Rightarrow> uint32_t" where
  "type_code tp =
     (case tp of
        I965_BATCHBUFFER_LOGGER_MESSAGE_BLOCK_BEGIN \<Rightarrow> 0
      | I965_BATCHBUFFER_LOGGER_MESSAGE_BLOCK_END \<Rightarrow> 1
      | I965_BATCHBUFFER_LOGGER_MESSAGE_VALUE \<Rightarrow> 2)"

definition le32 :: "uint32_t \<Rightarrow> byte list" where
  "le32 w = [ucast w, ucast (drop_bit 8 w), ucast (drop_bit 16 w), ucast (drop_bit 24 w)]"

definition header_bytes ::
  "i965_batchbuffer_logger_message_type_t \<Rightarrow> uint32_t \<Rightarrow> uint32_t \<Rightarrow> byte list" where
  "header_bytes tp name_length value_length = le32 (type_code tp) @ le32 name_length @ le32 value_length"

section \<open>Block and Session\<close>

text \<open>
  A pair of a pointer and a \<open>uint32_t\<close> length is modelled by the bytes found at the
  pointer and the length; the bytes the pair designates are the first \<open>length\<close> of them.
\<close>

record Block =
  m_name :: "byte list"
  m_value :: "byte list"

definition Block_set :: "byte list \<Rightarrow> uint32_t \<Rightarrow> byte list \<Rightarrow> uint32_t \<Rightarrow> Block" where
  "Block_set name name_length value value_length =
     \<lparr>m_name = take (unat name_length) name, m_value = take (unat value_length) value\<rparr>"

definition Block_name :: "Block \<Rightarrow> byte list" where
  "Block_name b = m_name b"

definition Block_value :: "Block \<Rightarrow> byte list" where
  "Block_value b = m_value b"

definition Block_name_length :: "Block \<Rightarrow> uint32_t" where
  "Block_name_length b = of_nat (length (m_name b))"

definition Block_value_length :: "Block \<Rightarrow> uint32_t" where
  "Block_value_length b = of_nat (length (m_value b))"

record Session =
  m_most_recent_ioctl_max :: uint32_t
  m_max_filesize :: int
  m_count :: uint32_t
  m_most_recent_ioctl_file_cnt :: uint32_t
  m_most_recent_ioctl_files :: "string list"
  m_block_stack :: "Block list"
  m_prefix :: string
  m_filename :: string
  m_file :: "FILE option"

definition write_to_file ::
  "Session \<Rightarrow> i965_batchbuffer_logger_message_type_t \<Rightarrow>
   byte list \<Rightarrow> uint32_t \<Rightarrow> byte list \<Rightarrow> uint32_t \<Rightarrow> Session" where
  "write_to_file p tp name name_length value value_length =
     (case m_file p of
        None \<Rightarrow> p
      | Some file \<Rightarrow>
          let f1 = std_fwrite (header_bytes tp name_length value_length) file;
              f2 = (if name_length > 0 then std_fwrite (take (unat name_length) name) f1 else f1);
              f3 = (if value_length > 0 then std_fwrite (take (unat value_length) value) f2 else f2)
          in p\<lparr>m_file := Some f3\<rparr>)"

definition write_fcn ::
  "Session \<Rightarrow> i965_batchbuffer_logger_message_type_t \<Rightarrow>
   byte list \<Rightarrow> uint32_t \<Rightarrow> byte list \<Rightarrow> uint32_t \<Rightarrow> error + Session" where
  "write_fcn p tp name name_length value value_length =
     (case tp of
        I965_BATCHBUFFER_LOGGER_MESSAGE_BLOCK_BEGIN \<Rightarrow>
          Inr (write_to_file
                 (p\<lparr>m_block_stack := m_block_stack p @ [Block_set name name_length value value_length]\<rparr>)
                 tp name name_length value value_length)
      | I965_BATCHBUFFER_LOGGER_MESSAGE_BLOCK_END \<Rightarrow>
          (if m_block_stack p = [] then Inl Pop_Back_On_Empty_Vector
           else Inr (write_to_file (p\<lparr>m_block_stack := butlast (m_block_stack p)\<rparr>)
                       tp name name_length value value_length))
      | I965_BATCHBUFFER_LOGGER_MESSAGE_VALUE \<Rightarrow>
          Inr (write_to_file p tp name name_length value value_length))"


text \<open>
  The \<open>while\<close> loop of \<open>close_file\<close>. It ends: each round either fails on the empty
  list or takes one name off it.
\<close>

function evict_oldest :: "Session \<Rightarrow> filesystem \<Rightarrow> error + Session \<times> filesystem" where
  "evict_oldest p w =
     (if m_most_recent_ioctl_file_cnt p \<ge> m_most_recent_ioctl_max p
      then (case m_most_recent_ioctl_files p of
              [] \<Rightarrow> Inl Front_On_Empty_List
            | file_to_delete # rest \<Rightarrow>
                evict_oldest
                  (p\<lparr>m_most_recent_ioctl_files := rest,
                     m_most_recent_ioctl_file_cnt := m_most_recent_ioctl_file_cnt p - 1\<rparr>)
                  (std_remove file_to_delete w))
      else Inr (p, w))"
  by pat_completeness auto
termination
  by (relation "measure (\<lambda>(p, w). length (m_most_recent_ioctl_files p))") auto

declare evict_oldest.simps [simp del]

definition close_file :: "Session \<Rightarrow> filesystem \<Rightarrow> error + Session \<times> filesystem" where
  "close_file p w =
     (case m_file p of
        None \<Rightarrow> Inr (p, w)
      | Some _ \<Rightarrow>
          let p1 = foldl (\<lambda>q iter. write_to_file q I965_BATCHBUFFER_LOGGER_MESSAGE_BLOCK_END [] 0 [] 0)
                     p (rev (m_block_stack p))
          in (case m_file p1 of
                None \<Rightarrow> Inl Fclose_Of_Null_Stream
              | Some file \<Rightarrow>
                  let w1 = std_fclose file w;
                      p2 = p1\<lparr>m_file := None\<rparr>
                  in if m_most_recent_ioctl_max p2 > 0
                     then (case evict_oldest p2 w1 of
                             Inl e \<Rightarrow> Inl e
                           | Inr (p3, w2) \<Rightarrow>
                               Inr (p3\<lparr>m_most_recent_ioctl_files :=
                                          m_most_recent_ioctl_files p3 @ [m_filename p3],
                                        m_most_recent_ioctl_file_cnt :=
                                          m_most_recent_ioctl_file_cnt p3 + 1,
                                        m_filename := []\<rparr>, w2))
                     else Inr (p2, w1)))"

definition start_new_file :: "bool \<Rightarrow> Session \<Rightarrow> filesystem \<Rightarrow> error + Session \<times> filesystem" where
  "start_new_file fopen_ok p w =
     (case close_file p w of
        Inl e \<Rightarrow> Inl e
      | Inr (p1, w1) \<Rightarrow>
          let filename = m_prefix p1 @ ''.'' @ decimal (unat (m_count p1));
              p2 = p1\<lparr>m_count := m_count p1 + 1, m_filename := filename\<rparr>;
              opened = std_fopen fopen_ok filename w1;
              p3 = p2\<lparr>m_file := fst opened\<rparr>
          in Inr (foldl (\<lambda>q iter. write_to_file q I965_BATCHBUFFER_LOGGER_MESSAGE_BLOCK_BEGIN
                                    (Block_name iter) (Block_name_length iter)
                                    (Block_value iter) (Block_value_length iter))
                    p3 (m_block_stack p3),
                  snd opened))"

text \<open>
  The constructor. \<open>filename_prefix\<close> is what \<open>read_from_environment\<close> returns for
  \<open>I965_BLACKBOX_FILENAME\<close>; \<open>count\<close> is the constructor's static counter, passed
  in and returned.
\<close>

definition Session_ctor ::
  "uint32_t \<Rightarrow> int \<Rightarrow> string \<Rightarrow> bool \<Rightarrow> uint32_t \<Rightarrow> filesystem \<Rightarrow>
   error + Session \<times> uint32_t \<times> filesystem" where
  "Session_ctor most_recent_ioctl_max max_filesize filename_prefix fopen_ok count w =
     (let count1 = (if most_recent_ioctl_max = 0 then count + 1 else count);
          p = \<lparr>m_most_recent_ioctl_max = most_recent_ioctl_max,
               m_max_filesize = max_filesize,
               m_count = 0,
               m_most_recent_ioctl_file_cnt = 0,
               m_most_recent_ioctl_files = [],
               m_block_stack = [],
               m_prefix = (if most_recent_ioctl_max = 0
                           then filename_prefix @ ''-'' @ decimal (unat count1)
                           else filename_prefix),
               m_filename = [],
               m_file = None\<rparr>
      in case start_new_file fopen_ok p w of
           Inl e \<Rightarrow> Inl e
         | Inr (p1, w1) \<Rightarrow> Inr (p1, count1, w1))"

text \<open>\<open>close_fcn\<close> deletes the session; the destructor closes the file.\<close>

definition Session_dtor :: "Session \<Rightarrow> filesystem \<Rightarrow> error + filesystem" where
  "Session_dtor p w = (case close_file p w of Inl e \<Rightarrow> Inl e | Inr (p1, w1) \<Rightarrow> Inr w1)"

definition close_fcn :: "Session \<Rightarrow> filesystem \<Rightarrow> error + filesystem" where
  "close_fcn p w = Session_dtor p w"

definition pre_execbuffer2_ioctl_fcn ::
  "bool \<Rightarrow> Session \<Rightarrow> uint32_t \<Rightarrow> filesystem \<Rightarrow> error + Session \<times> filesystem" where
  "pre_execbuffer2_ioctl_fcn fopen_ok p ioctl_id w =
     (if m_most_recent_ioctl_max p > 0 then start_new_file fopen_ok p w
      else (case m_file p of
              None \<Rightarrow> Inr (p, w)
            | Some file \<Rightarrow>
                if m_max_filesize p > 0 \<and> std_ftell file > m_max_filesize p
                then start_new_file fopen_ok p w
                else Inr (p, std_fflush file w)))"

definition post_execbuffer2_ioctl_fcn ::
  "Session \<Rightarrow> uint32_t \<Rightarrow> filesystem \<Rightarrow> error + Session \<times> filesystem" where
  "post_execbuffer2_ioctl_fcn p ioctl_id w =
     (case m_file p of
        None \<Rightarrow> Inr (p, w)
      | Some file \<Rightarrow>
          if m_most_recent_ioctl_max p > 0 then close_file p w
          else Inr (p, std_fflush file w))"

text \<open>
  The instrumentation layer drives a session through its callbacks. An event's name and
  value are passed with their own lengths.
\<close>

type_synonym event = "i965_batchbuffer_logger_message_type_t \<times> byte list \<times> byte list"

datatype callback =
    Write i965_batchbuffer_logger_message_type_t "byte list" "byte list"
  | Pre_execbuffer2_ioctl uint32_t bool
  | Post_execbuffer2_ioctl uint32_t

fun invoke :: "callback \<Rightarrow> Session \<times> filesystem \<Rightarrow> error + Session \<times> filesystem" where
  "invoke (Write tp name value) (p, w) =
     (case write_fcn p tp name (of_nat (length name)) value (of_nat (length value)) of
        Inl e \<Rightarrow> Inl e
      | Inr p1 \<Rightarrow> Inr (p1, w))"
| "invoke (Pre_execbuffer2_ioctl ioctl_id fopen_ok) (p, w) = pre_execbuffer2_ioctl_fcn fopen_ok p ioctl_id w"
| "invoke (Post_execbuffer2_ioctl ioctl_id) (p, w) = post_execbuffer2_ioctl_fcn p ioctl_id w"

fun run :: "callback list \<Rightarrow> Session \<times> filesystem \<Rightarrow> error + Session \<times> filesystem" where
  "run [] s = Inr s"
| "run (c # cs) s = (case invoke c s of Inl e \<Rightarrow> Inl e | Inr s1 \<Rightarrow> run cs s1)"


section \<open>Decoding a file\<close>

text \<open>
  Modelled from the spec: the decoder of the trace file format is not among the sources.
  A file is a sequence of records, each a header (event type, name length, value
  length) followed by that many bytes of name and then that many bytes of value. The
  decoder reads records until the bytes are used up and fails on a truncated record or
  an unknown event type.
\<close>

definition of_le32 :: "byte list \<Rightarrow> uint32_t" where
  "of_le32 bs =
     (case bs of
        [b0, b1, b2, b3] \<Rightarrow>
          ucast b0 OR push_bit 8 (ucast b1) OR push_bit 16 (ucast b2) OR push_bit 24 (ucast b3)
      | _ \<Rightarrow> 0)"

definition type_of_code :: "uint32_t \<Rightarrow> i965_batchbuffer_logger_message_type_t option" where
  "type_of_code c =
     (if c = 0 then Some I965_BATCHBUFFER_LOGGER_MESSAGE_BLOCK_BEGIN
      else if c = 1 then Some I965_BATCHBUFFER_LOGGER_MESSAGE_BLOCK_END
      else if c = 2 then Some I965_BATCHBUFFER_LOGGER_MESSAGE_VALUE
      else None)"

function decode :: "byte list \<Rightarrow> event list option" where
  "decode bs =
     (if bs = [] then Some []
      else if length bs < 12 then None
      else (case type_of_code (of_le32 (take 4 bs)) of
              None \<Rightarrow> None
            | Some tp \<Rightarrow>
                if length (drop 12 bs)
                     < unat (of_le32 (take 4 (drop 4 bs))) + unat (of_le32 (take 4 (drop 8 bs)))
                then None
                else (case decode (drop (unat (of_le32 (take 4 (drop 4 bs)))
                                         + unat (of_le32 (take 4 (drop 8 bs)))) (drop 12 bs)) of
                        None \<Rightarrow> None
                      | Some evs \<Rightarrow>
                          Some ((tp,
                                 take (unat (of_le32 (take 4 (drop 4 bs)))) (drop 12 bs),
                                 take (unat (of_le32 (take 4 (drop 8 bs))))
                                   (drop (unat (of_le32 (take 4 (drop 4 bs)))) (drop 12 bs)))
                                # evs))))"
  by pat_completeness auto
termination
  by (relation "measure length") auto

declare decode.simps [simp del]

text \<open>
  The record of an event as the spec words it: the header, then the name bytes, then
  the value bytes; a file is its records one after the other.
\<close>

definition record_bytes :: "event \<Rightarrow> byte list" where
  "record_bytes ev =
     (case ev of (tp, name, value) \<Rightarrow>
        header_bytes tp (of_nat (length name)) (of_nat (length value)) @ name @ value)"

definition records_bytes :: "event list \<Rightarrow> byte list" where
  "records_bytes evs = concat (map record_bytes evs)"

text \<open>
  The nesting of a decoded file: the depth after the events, starting from depth \<open>d\<close>,
  or \<open>None\<close> when a BlockEnd has no block to close. A file is balanced when its events
  take depth 0 back to depth 0.
\<close>

fun nesting :: "event list \<Rightarrow> nat \<Rightarrow> nat option" where
  "nesting [] d = Some d"
| "nesting ((tp, name, value) # evs) d =
     (case tp of
        I965_BATCHBUFFER_LOGGER_MESSAGE_BLOCK_BEGIN \<Rightarrow> nesting evs (Suc d)
      | I965_BATCHBUFFER_LOGGER_MESSAGE_BLOCK_END \<Rightarrow>
          (case d of 0 \<Rightarrow> None | Suc d1 \<Rightarrow> nesting evs d1)
      | I965_BATCHBUFFER_LOGGER_MESSAGE_VALUE \<Rightarrow> nesting evs d)"

definition balanced :: "event list \<Rightarrow> bool" where
  "balanced evs = (nesting evs 0 = Some 0)"

definition count_type :: "i965_batchbuffer_logger_message_type_t \<Rightarrow> event list \<Rightarrow> nat" where
  "count_type tp evs = length (filter (\<lambda>ev. fst ev = tp) evs)"

definition balanced_file :: "byte list \<Rightarrow> bool" where
  "balanced_file bytes =
     (case decode bytes of
        None \<Rightarrow> False
      | Some evs \<Rightarrow>
          balanced evs
          \<and> count_type I965_BATCHBUFFER_LOGGER_MESSAGE_BLOCK_BEGIN evs
            = count_type I965_BATCHBUFFER_LOGGER_MESSAGE_BLOCK_END evs)"

text \<open>Writing a sequence of events to the open file, each with its own lengths.\<close>

definition write_events :: "Session \<Rightarrow> event list \<Rightarrow> Session" where
  "write_events p evs =
     foldl (\<lambda>q ev. case ev of (tp, name, value) \<Rightarrow>
              write_to_file q tp name (of_nat (length name)) value (of_nat (length value)))
       p evs"


section \<open>Interception\<close>

text \<open>
  A function address is either this library's own definition of a name or an address in
  another library; a \<open>void*\<close> is an address or null (\<open>None\<close>). The resolvers
  \<open>gl_dlsym\<close>, \<open>gles_dlsym\<close>, \<open>egl_dlsym\<close>, \<open>real_dlsym\<close> and
  \<open>FunctionFetcher::egl().dlsym_lib_style\<close> are declared in \<open>function_fetcher.hpp\<close>, and
  the list of intercepted functions is \<open>build/function_macros.inc\<close>; neither is among
  the sources, and both are parameters of the model, with the file name prefix that
  \<open>read_from_environment\<close> returns for \<open>I965_BLACKBOX_FILENAME\<close>.
\<close>

datatype addr = Local string | Foreign nat

record environment =
  gl_dlsym :: "string \<Rightarrow> addr option"
  gles_dlsym :: "string \<Rightarrow> addr option"
  egl_dlsym :: "string \<Rightarrow> addr option"
  real_dlsym :: "nat \<Rightarrow> string \<Rightarrow> addr option"
  egl_dlsym_lib_style :: "string \<Rightarrow> addr option"
  function_macros :: "string list"
  filename_prefix :: string

text \<open>
  The pointer \<open>_name\<close> of a generated function points to \<open>_name_init\<close>, to
  \<open>_name_do_nothing\<close> or to the function that was fetched.
\<close>

datatype dispatch = Init | Do_nothing | Fetched addr

text \<open>
  What the instrumentation layer and the real libraries see of the process: the hooks
  \<open>pre_call\<close> and \<open>post_call\<close> and the calls of fetched functions, in order.
\<close>

datatype app_event =
    Pre_call uint32_t string string
  | Post_call uint32_t
  | Real_call addr

record globals =
  logger_app :: bool
  logger_session :: "Session option"
  most_recent_ioctl_max :: uint32_t
  max_filesize :: int
  numframes_per_file :: uint32_t
  frame_count :: uint32_t
  api_count :: uint32_t
  prefer_gl_sym :: bool
  Session_count :: uint32_t
  dispatch_ptr :: "string \<Rightarrow> dispatch"
  glXSwapBuffers_fptr :: "addr option"
  eglInitialize_fptr :: "addr option"
  eglSwapBuffers_fptr :: "addr option"
  files :: filesystem
  trace :: "app_event list"

definition fetch_function :: "environment \<Rightarrow> globals \<Rightarrow> string \<Rightarrow> addr option" where
  "fetch_function env g name = (if prefer_gl_sym g then gl_dlsym env name else gles_dlsym env name)"

text \<open>
  A call through the pointer \<open>_name\<close>. \<open>name_init\<close> is \<open>_name_init\<close>: it fetches the
  function, puts \<open>_name_do_nothing\<close> in its place when there is none, and calls through
  the pointer it has just set. The results of the functions are not modelled.
\<close>

definition name_do_nothing :: "globals \<Rightarrow> globals" where
  "name_do_nothing g = g"

definition call_fetched :: "addr \<Rightarrow> globals \<Rightarrow> globals" where
  "call_fetched a g = g\<lparr>trace := trace g @ [Real_call a]\<rparr>"

definition name_init :: "environment \<Rightarrow> string \<Rightarrow> globals \<Rightarrow> globals" where
  "name_init env name g =
     (case fetch_function env g name of
        None \<Rightarrow> name_do_nothing (g\<lparr>dispatch_ptr := (dispatch_ptr g)(name := Do_nothing)\<rparr>)
      | Some a \<Rightarrow> call_fetched a (g\<lparr>dispatch_ptr := (dispatch_ptr g)(name := Fetched a)\<rparr>))"

definition call_dispatch_ptr :: "environment \<Rightarrow> string \<Rightarrow> globals \<Rightarrow> globals" where
  "call_dispatch_ptr env name g =
     (case dispatch_ptr g name of
        Init \<Rightarrow> name_init env name g
      | Do_nothing \<Rightarrow> name_do_nothing g
      | Fetched a \<Rightarrow> call_fetched a g)"

definition app_pre_call :: "string \<Rightarrow> globals \<Rightarrow> globals" where
  "app_pre_call name g =
     (if logger_app g then g\<lparr>trace := trace g @ [Pre_call (api_count g) name name]\<rparr> else g)"

definition app_post_call :: "globals \<Rightarrow> globals" where
  "app_post_call g =
     (if logger_app g then g\<lparr>trace := trace g @ [Post_call (api_count g)]\<rparr> else g)"

text \<open>The generated function \<open>name\<close> itself, what the second pair of macros defines.\<close>

definition FUNCTION_ENTRY :: "environment \<Rightarrow> string \<Rightarrow> globals \<Rightarrow> globals" where
  "FUNCTION_ENTRY env name g =
     (let g1 = app_pre_call name g;
          g2 = call_dispatch_ptr env name g1;
          g3 = app_post_call g2
      in g3\<lparr>api_count := api_count g3 + 1\<rparr>)"

text \<open>The table \<open>every_function\<close>, of pairs of \<open>m_name\<close> and \<open>m_function\<close>.\<close>

type_synonym function_list = "string \<times> addr"

definition every_function :: "environment \<Rightarrow> function_list list" where
  "every_function env =
     map (\<lambda>name. (name, Local name))
       (function_macros env @
        [''glXSwapBuffers'', ''eglInitialize'', ''eglSwapBuffers'',
         ''glXGetProcAddress'', ''glXGetProcAddressARB'', ''eglGetProcAddress''])"

fun gl_function_loop :: "function_list list \<Rightarrow> string \<Rightarrow> addr option" where
  "gl_function_loop [] name = None"
| "gl_function_loop (entry # rest) name =
     (if name = fst entry then Some (snd entry) else gl_function_loop rest name)"

definition gl_function :: "environment \<Rightarrow> string \<Rightarrow> addr option" where
  "gl_function env name = gl_function_loop (every_function env) name"

definition frame_should_start_new_session :: "globals \<Rightarrow> bool" where
  "frame_should_start_new_session g =
     (numframes_per_file g > 0
      \<and> frame_count g \<ge> numframes_per_file g
      \<and> most_recent_ioctl_max g = 0)"

text \<open>
  Modelled from the spec: \<open>end_session\<close> and \<open>begin_session\<close> belong to the
  instrumentation layer, which is not among the sources. By its contract with the
  session, ending a session calls the close callback on the client data of the
  session, and beginning one returns the handle of the session whose client data and
  callbacks it is given. A handle is the session it stands for, or none before the first
  session.
\<close>

definition app_end_session :: "Session option \<Rightarrow> filesystem \<Rightarrow> error + filesystem" where
  "app_end_session session w = (case session of None \<Rightarrow> Inr w | Some p \<Rightarrow> close_fcn p w)"

definition app_begin_session :: "Session \<Rightarrow> Session option" where
  "app_begin_session client_data = Some client_data"

definition start_session ::
  "environment \<Rightarrow> bool \<Rightarrow> uint32_t \<Rightarrow> int \<Rightarrow> globals \<Rightarrow> error + globals" where
  "start_session env fopen_ok most_recent_ioctl_max1 max_filesize1 g =
     (case Session_ctor most_recent_ioctl_max1 max_filesize1 (filename_prefix env) fopen_ok
             (Session_count g) (files g) of
        Inl e \<Rightarrow> Inl e
      | Inr (client_data, count, w) \<Rightarrow>
          Inr (g\<lparr>logger_session := app_begin_session client_data,
                 Session_count := count, files := w\<rparr>))"

text \<open>
  What \<open>glXSwapBuffers\<close> and \<open>eglSwapBuffers\<close> do after the call of the real function,
  when the logger is there.
\<close>

definition after_swap :: "environment \<Rightarrow> bool \<Rightarrow> globals \<Rightarrow> error + globals" where
  "after_swap env fopen_ok g =
     (if logger_app g
      then (let g1 = app_post_call g
            in if frame_should_start_new_session g1
               then (let g2 = g1\<lparr>frame_count := 0\<rparr>
                     in case app_end_session (logger_session g2) (files g2) of
                          Inl e \<Rightarrow> Inl e
                        | Inr w \<Rightarrow>
                            start_session env fopen_ok (most_recent_ioctl_max g2) (max_filesize g2)
                              (g2\<lparr>files := w\<rparr>))
               else Inr g1)
      else Inr g)"

definition glXSwapBuffers :: "environment \<Rightarrow> bool \<Rightarrow> globals \<Rightarrow> error + globals" where
  "glXSwapBuffers env fopen_ok g =
     (let g1 = (if glXSwapBuffers_fptr g = None
                then g\<lparr>glXSwapBuffers_fptr := gl_dlsym env ''glXSwapBuffers''\<rparr> else g);
          g2 = app_pre_call ''glXSwapBuffers'' g1
      in case glXSwapBuffers_fptr g2 of
           None \<Rightarrow> Inl Call_Through_Null_Pointer
         | Some fptr \<Rightarrow>
             (case after_swap env fopen_ok (call_fetched fptr g2) of
                Inl e \<Rightarrow> Inl e
              | Inr g3 \<Rightarrow>
                  Inr (g3\<lparr>frame_count := frame_count g3 + 1, api_count := api_count g3 + 1\<rparr>)))"

definition eglSwapBuffers :: "environment \<Rightarrow> bool \<Rightarrow> globals \<Rightarrow> error + globals" where
  "eglSwapBuffers env fopen_ok g =
     (let g1 = (if eglSwapBuffers_fptr g = None
                then g\<lparr>eglSwapBuffers_fptr := egl_dlsym env ''eglSwapBuffers''\<rparr> else g);
          g2 = app_pre_call ''eglSwapBuffers'' g1
      in case eglSwapBuffers_fptr g2 of
           None \<Rightarrow> Inl Call_Through_Null_Pointer
         | Some fptr \<Rightarrow>
             (case after_swap env fopen_ok (call_fetched fptr g2) of
                Inl e \<Rightarrow> Inl e
              | Inr g3 \<Rightarrow>
                  Inr (g3\<lparr>frame_count := frame_count g3 + 1, api_count := api_count g3 + 1\<rparr>)))"

definition eglInitialize :: "environment \<Rightarrow> globals \<Rightarrow> error + globals" where
  "eglInitialize env g =
     (let g1 = g\<lparr>prefer_gl_sym := False\<rparr>;
          g2 = (if eglInitialize_fptr g1 = None
                then g1\<lparr>eglInitialize_fptr := egl_dlsym_lib_style env ''eglInitialize''\<rparr> else g1)
      in case eglInitialize_fptr g2 of
           None \<Rightarrow> Inl Call_Through_Null_Pointer
         | Some fptr \<Rightarrow> Inr (call_fetched fptr g2))"

definition glXGetProcAddress :: "environment \<Rightarrow> string \<Rightarrow> addr option" where
  "glXGetProcAddress env name =
     (case gl_function env name of
        Some q \<Rightarrow> Some q
      | None \<Rightarrow> gl_dlsym env name)"

definition glXGetProcAddressARB :: "environment \<Rightarrow> string \<Rightarrow> addr option" where
  "glXGetProcAddressARB env name = glXGetProcAddress env name"

definition eglGetProcAddress :: "environment \<Rightarrow> string \<Rightarrow> globals \<Rightarrow> addr option \<times> globals" where
  "eglGetProcAddress env name g =
     (let g1 = g\<lparr>prefer_gl_sym := False\<rparr>
      in case gl_function env name of
           Some q \<Rightarrow> (Some q, g1)
         | None \<Rightarrow>
             (case egl_dlsym env name of
                Some q \<Rightarrow> (Some q, g1)
              | None \<Rightarrow> (gles_dlsym env name, g1)))"

definition dlsym :: "environment \<Rightarrow> nat \<Rightarrow> string \<Rightarrow> addr option" where
  "dlsym env handle symbol =
     (case gl_function env symbol of
        Some q \<Rightarrow> Some q
      | None \<Rightarrow> real_dlsym env handle symbol)"


section \<open>Well-formed states and example states\<close>

text \<open>
  An event fits when its name and its value are short enough for their lengths to be
  \<open>uint32_t\<close> values, as the lengths passed to the write callback are.
\<close>

definition fits :: "event \<Rightarrow> bool" where
  "fits ev = (case ev of (tp, name, value) \<Rightarrow> length name < 2 ^ 32 \<and> length value < 2 ^ 32)"

text \<open>
  Example states: a session with one block on its stack and an empty open file, two
  environments (one resolves some names, one resolves none) and the globals of a
  process whose frame counter has reached the number of frames per file.
\<close>

definition example_file :: FILE where
  "example_file = \<lparr>f_path = ''log-1.0'', f_data = []\<rparr>"

definition example_session :: Session where
  "example_session =
     \<lparr>m_most_recent_ioctl_max = 0,
      m_max_filesize = 100,
      m_count = 1,
      m_most_recent_ioctl_file_cnt = 0,
      m_most_recent_ioctl_files = [],
      m_block_stack = [\<lparr>m_name = [1, 2], m_value = [3]\<rparr>],
      m_prefix = ''log-1'',
      m_filename = ''log-1.0'',
      m_file = Some example_file\<rparr>"

definition example_events :: "event list" where
  "example_events =
     [(I965_BATCHBUFFER_LOGGER_MESSAGE_BLOCK_BEGIN, [1, 2], [3]),
      (I965_BATCHBUFFER_LOGGER_MESSAGE_VALUE, [], [4, 5]),
      (I965_BATCHBUFFER_LOGGER_MESSAGE_BLOCK_END, [], [])]"

definition example_env :: environment where
  "example_env =
     \<lparr>gl_dlsym = (\<lambda>name. if name = ''glXSwapBuffers'' then Some (Foreign 1)
                         else if name = ''glFinish'' then Some (Foreign 2) else None),
      gles_dlsym = (\<lambda>name. if name = ''glFlush'' then Some (Foreign 5) else None),
      egl_dlsym = (\<lambda>name. if name = ''eglSwapBuffers'' then Some (Foreign 3) else None),
      real_dlsym = (\<lambda>handle name. if name = ''malloc'' then Some (Foreign 4) else None),
      egl_dlsym_lib_style = (\<lambda>name. None),
      function_macros = [''glClear'', ''glFinish''],
      filename_prefix = ''log''\<rparr>"

definition unresolving_env :: environment where
  "unresolving_env =
     \<lparr>gl_dlsym = (\<lambda>name. None),
      gles_dlsym = (\<lambda>name. None),
      egl_dlsym = (\<lambda>name. None),
      real_dlsym = (\<lambda>handle name. None),
      egl_dlsym_lib_style = (\<lambda>name. None),
      function_macros = [''glClear'', ''glFinish''],
      filename_prefix = ''log''\<rparr>"

definition example_globals :: globals where
  "example_globals =
     \<lparr>logger_app = True,
      logger_session = Some example_session,
      most_recent_ioctl_max = 0,
      max_filesize = 100,
      numframes_per_file = 2,
      frame_count = 2,
      api_count = 7,
      prefer_gl_sym = True,
      Session_count = 1,
      dispatch_ptr = (\<lambda>name. Init),
      glXSwapBuffers_fptr = None,
      eglInitialize_fptr = None,
      eglSwapBuffers_fptr = None,
      files = \<lparr>disk = [''log-1.0'' \<mapsto> []], journal = [Fopen ''log-1.0'' True]\<rparr>,
      trace = []\<rparr>"

text \<open>
  The events \<open>start_new_file\<close> replays, a BlockBegin for each block of the stack from
  the outermost on, and the events \<open>close_file\<close> writes, an empty BlockEnd for each
  block from the innermost on.
\<close>

definition replay_events :: "Block list \<Rightarrow> event list" where
  "replay_events stack =
     map (\<lambda>b. (I965_BATCHBUFFER_LOGGER_MESSAGE_BLOCK_BEGIN, m_name b, m_value b)) stack"

definition closing_events :: "Block list \<Rightarrow> event list" where
  "closing_events stack =
     map (\<lambda>b. (I965_BATCHBUFFER_LOGGER_MESSAGE_BLOCK_END, [], [])) (rev stack)"

text \<open>
  The blocks of a stack fit when their names and values have lengths that are
  \<open>uint32_t\<close> values, as \<open>Block::set\<close> leaves them. The retained names are in order
  when their counter is their number and they are at most as many as the bound.
  \<open>remove_all\<close> is \<open>std::remove\<close> on each path of a list in turn.
\<close>

definition stack_fits :: "Block list \<Rightarrow> bool" where
  "stack_fits stack =
     list_all (\<lambda>b. length (m_name b) < 2 ^ 32 \<and> length (m_value b) < 2 ^ 32) stack"

definition ring_ok :: "Session \<Rightarrow> bool" where
  "ring_ok p =
     (m_most_recent_ioctl_file_cnt p = of_nat (length (m_most_recent_ioctl_files p))
      \<and> length (m_most_recent_ioctl_files p) \<le> unat (m_most_recent_ioctl_max p))"

definition remove_all :: "string list \<Rightarrow> filesystem \<Rightarrow> filesystem" where
  "remove_all paths w = foldl (\<lambda>w1 path. std_remove path w1) w paths"

text \<open>The name \<open>start_new_file\<close> gives the next file: the prefix, a dot, the counter.\<close>

definition new_filename :: "Session \<Rightarrow> string" where
  "new_filename p = m_prefix p @ ''.'' @ decimal (unat (m_count p))"

text \<open>
  Example states: a session with no size limit (maximum 0) holding one record, and a
  session with a maximum of 5 bytes, as the constructor leaves it and after three
  records.
\<close>

definition example_fs :: filesystem where
  "example_fs = \<lparr>disk = [''log-1.0'' \<mapsto> []], journal = [Fopen ''log-1.0'' True]\<rparr>"

definition value_event :: event where
  "value_event = (I965_BATCHBUFFER_LOGGER_MESSAGE_VALUE, [], [])"

definition unlimited_file :: FILE where
  "unlimited_file = \<lparr>f_path = ''log-1.0'', f_data = record_bytes value_event\<rparr>"

definition unlimited_session :: Session where
  "unlimited_session = example_session\<lparr>m_max_filesize := 0, m_file := Some unlimited_file\<rparr>"

definition small_limit_session :: Session where
  "small_limit_session =
     \<lparr>m_most_recent_ioctl_max = 0,
      m_max_filesize = 5,
      m_count = 1,
      m_most_recent_ioctl_file_cnt = 0,
      m_most_recent_ioctl_files = [],
      m_block_stack = [],
      m_prefix = ''log-1'',
      m_filename = ''log-1.0'',
      m_file = Some \<lparr>f_path = ''log-1.0'', f_data = []\<rparr>\<rparr>"

definition small_limit_calls :: "callback list" where
  "small_limit_calls =
     [Write I965_BATCHBUFFER_LOGGER_MESSAGE_VALUE [] [],
      Write I965_BATCHBUFFER_LOGGER_MESSAGE_VALUE [] [],
      Write I965_BATCHBUFFER_LOGGER_MESSAGE_VALUE [] [],
      Pre_execbuffer2_ioctl 0 True]"

definition small_limit_fs :: filesystem where
  "small_limit_fs = \<lparr>disk = [''log-1.0'' \<mapsto> []], journal = [Fopen ''log-1.0'' True]\<rparr>"

definition small_limit_full :: Session where
  "small_limit_full =
     small_limit_session
       \<lparr>m_file := Some \<lparr>f_path = ''log-1.0'',
                        f_data = records_bytes [value_event, value_event, value_event]\<rparr>\<rparr>"

text \<open>
  The files a journal records as closed, and the state a session keeps: the blocks of
  the stack have names and values whose lengths are \<open>uint32_t\<close> values, the open file
  decodes to events that leave open as many blocks as the stack holds, and every file
  that was closed is balanced.
\<close>

fun closed_files :: "libc_call list \<Rightarrow> byte list list" where
  "closed_files [] = []"
| "closed_files (Fclose path bytes # calls) = bytes # closed_files calls"
| "closed_files (Fopen path ok # calls) = closed_files calls"
| "closed_files (Fflush path # calls) = closed_files calls"
| "closed_files (Remove path # calls) = closed_files calls"

definition open_file_ok :: "Session \<Rightarrow> bool" where
  "open_file_ok p =
     (case m_file p of
        None \<Rightarrow> True
      | Some file \<Rightarrow>
          (case decode (f_data file) of
             None \<Rightarrow> False
           | Some evs \<Rightarrow> nesting evs 0 = Some (length (m_block_stack p))))"

definition files_ok :: "Session \<Rightarrow> filesystem \<Rightarrow> bool" where
  "files_ok p w =
     (stack_fits (m_block_stack p) \<and> open_file_ok p
      \<and> list_all balanced_file (closed_files (journal w)))"

text \<open>An example: a block that stays open while the file is changed twice.\<close>

definition nested_calls :: "callback list" where
  "nested_calls =
     [Write I965_BATCHBUFFER_LOGGER_MESSAGE_BLOCK_BEGIN [1, 2] [3],
      Pre_execbuffer2_ioctl 0 True,
      Write I965_BATCHBUFFER_LOGGER_MESSAGE_VALUE [] [4],
      Pre_execbuffer2_ioctl 1 True]"

text \<open>
  The paths a journal records as closed and as removed, in order, and the state a
  session keeps in retention mode: the counter is the number of retained names, at most
  the bound; the open file is the one named by \<open>m_filename\<close>; the retained names are
  the most recent of the closed paths, as many as the bound allows, and the paths
  removed are the closed paths before them.
\<close>

fun closed_paths :: "libc_call list \<Rightarrow> string list" where
  "closed_paths [] = []"
| "closed_paths (Fclose path bytes # calls) = path # closed_paths calls"
| "closed_paths (Fopen path ok # calls) = closed_paths calls"
| "closed_paths (Fflush path # calls) = closed_paths calls"
| "closed_paths (Remove path # calls) = closed_paths calls"

fun removed_paths :: "libc_call list \<Rightarrow> string list" where
  "removed_paths [] = []"
| "removed_paths (Remove path # calls) = path # removed_paths calls"
| "removed_paths (Fclose path bytes # calls) = removed_paths calls"
| "removed_paths (Fopen path ok # calls) = removed_paths calls"
| "removed_paths (Fflush path # calls) = removed_paths calls"

definition retention_ok :: "Session \<Rightarrow> filesystem \<Rightarrow> bool" where
  "retention_ok p w =
     (ring_ok p
      \<and> (case m_file p of None \<Rightarrow> True | Some file \<Rightarrow> f_path file = m_filename p)
      \<and> m_most_recent_ioctl_files p =
          drop (length (closed_paths (journal w)) - unat (m_most_recent_ioctl_max p))
            (closed_paths (journal w))
      \<and> removed_paths (journal w) =
          take (length (closed_paths (journal w)) - unat (m_most_recent_ioctl_max p))
            (closed_paths (journal w)))"

text \<open>
  An example of retention: the bound is 2, and the constructor is followed by four
  dispatches.
\<close>

definition retention_session :: Session where
  "retention_session =
     \<lparr>m_most_recent_ioctl_max = 2,
      m_max_filesize = 0,
      m_count = 1,
      m_most_recent_ioctl_file_cnt = 0,
      m_most_recent_ioctl_files = [],
      m_block_stack = [],
      m_prefix = ''log'',
      m_filename = ''log.0'',
      m_file = Some \<lparr>f_path = ''log.0'', f_data = []\<rparr>\<rparr>"

definition retention_fs :: filesystem where
  "retention_fs = \<lparr>disk = [''log.0'' \<mapsto> []], journal = [Fopen ''log.0'' True]\<rparr>"

definition retention_calls :: "callback list" where
  "retention_calls =
     [Pre_execbuffer2_ioctl 0 True, Post_execbuffer2_ioctl 0,
      Pre_execbuffer2_ioctl 1 True, Post_execbuffer2_ioctl 1,
      Pre_execbuffer2_ioctl 2 True, Post_execbuffer2_ioctl 2,
      Pre_execbuffer2_ioctl 3 True, Post_execbuffer2_ioctl 3]"

text \<open>
  The paths a journal records as opened, and what the disk holds of the files of a
  session: the closed paths differ from each other and were opened, the open file was
  opened and is not yet closed, and a closed path is on the disk as long as it has not
  been removed.
\<close>

fun opened_paths :: "libc_call list \<Rightarrow> string list" where
  "opened_paths [] = []"
| "opened_paths (Fopen path ok # calls) =
     (if ok then path # opened_paths calls else opened_paths calls)"
| "opened_paths (Fclose path bytes # calls) = opened_paths calls"
| "opened_paths (Fflush path # calls) = opened_paths calls"
| "opened_paths (Remove path # calls) = opened_paths calls"

definition disk_ok :: "Session \<Rightarrow> filesystem \<Rightarrow> bool" where
  "disk_ok p w =
     (distinct (closed_paths (journal w))
      \<and> set (closed_paths (journal w)) \<subseteq> set (opened_paths (journal w))
      \<and> (case m_file p of
            None \<Rightarrow> True
          | Some file \<Rightarrow>
              f_path file \<in> set (opened_paths (journal w))
              \<and> f_path file \<notin> set (closed_paths (journal w)))
      \<and> (\<forall>path \<in> set (closed_paths (journal w)).
            (disk w path \<noteq> None) = (path \<notin> set (removed_paths (journal w)))))"

text \<open>
  The session that \<open>start_session\<close> makes when retention is off: its prefix carries the
  next value of the constructor's counter, its first file has the sequence number 0,
  and its own counter stands at 1 after that file.
\<close>

definition fresh_session :: "string \<Rightarrow> int \<Rightarrow> uint32_t \<Rightarrow> bool \<Rightarrow> Session" where
  "fresh_session prefix max_size count fopen_ok =
     \<lparr>m_most_recent_ioctl_max = 0,
      m_max_filesize = max_size,
      m_count = 1,
      m_most_recent_ioctl_file_cnt = 0,
      m_most_recent_ioctl_files = [],
      m_block_stack = [],
      m_prefix = prefix @ ''-'' @ decimal (unat (count + 1)),
      m_filename = prefix @ ''-'' @ decimal (unat (count + 1)) @ ''.0'',
      m_file = (if fopen_ok
                then Some \<lparr>f_path = prefix @ ''-'' @ decimal (unat (count + 1)) @ ''.0'',
                           f_data = []\<rparr>
                else None)\<rparr>"

section \<open>The record format: properties\<close>

lemma write_to_file_eq:
  "write_to_file p tp name nl value vl =
     p\<lparr>m_file := map_option
        (\<lambda>f. f\<lparr>f_data := f_data f @ header_bytes tp nl vl @ take (unat nl) name @ take (unat vl) value\<rparr>)
        (m_file p)\<rparr>"
proof (cases "m_file p")
  case None
  then show ?thesis by (simp add: write_to_file_def)
next
  case (Some f)
  have a: "\<not> 0 < nl \<Longrightarrow> take (unat nl) name = []"
    by (simp add: word_gt_0)
  have b: "\<not> 0 < vl \<Longrightarrow> take (unat vl) value = []"
    by (simp add: word_gt_0)
  show ?thesis
    using Some a b by (simp add: write_to_file_def std_fwrite_def Let_def)
qed

lemma of_le32_le32: "of_le32 (le32 w) = w"
  unfolding of_le32_def le32_def list.case
proof (rule bit_word_eqI)
  fix n assume n: "n < LENGTH(32)"
  have c: "n < 8 \<or> (8 \<le> n \<and> n < 16) \<or> (16 \<le> n \<and> n < 24) \<or> 24 \<le> n" by arith
  have e: "8 + (n - 8) = n" if "8 \<le> n" using that by simp
  have f: "16 + (n - 16) = n" if "16 \<le> n" using that by simp
  have g: "24 + (n - 24) = n" if "24 \<le> n" using that by simp
  from c n show "bit (ucast (ucast w :: byte) OR push_bit 8 (ucast (ucast (drop_bit 8 w) :: byte)) OR
       push_bit 16 (ucast (ucast (drop_bit 16 w) :: byte)) OR
       push_bit 24 (ucast (ucast (drop_bit 24 w) :: byte)) :: uint32_t) n = bit w n"
    by (auto simp add: bit_simps e f g)
qed

lemma length_le32 [simp]: "length (le32 w) = 4"
  by (simp add: le32_def)

lemma length_header_bytes [simp]: "length (header_bytes tp nl vl) = 12"
  by (simp add: header_bytes_def)

lemma type_of_code_type_code: "type_of_code (type_code tp) = Some tp"
  by (cases tp) (simp_all add: type_of_code_def type_code_def)

lemma header_fields:
  "of_le32 (take 4 (header_bytes tp nl vl @ rest)) = type_code tp"
  "of_le32 (take 4 (drop 4 (header_bytes tp nl vl @ rest))) = nl"
  "of_le32 (take 4 (drop 8 (header_bytes tp nl vl @ rest))) = vl"
  "drop 12 (header_bytes tp nl vl @ rest) = rest"
  by (simp_all add: header_bytes_def of_le32_le32)

lemma decode_record:
  assumes "unat nl = length name" and "unat vl = length value"
  shows "decode (header_bytes tp nl vl @ name @ value @ rest) =
           (case decode rest of None \<Rightarrow> None | Some evs \<Rightarrow> Some ((tp, name, value) # evs))"
proof -
  define bs where "bs = header_bytes tp nl vl @ name @ value @ rest"
  have 1: "bs \<noteq> []" "\<not> length bs < 12"
    by (simp_all add: bs_def header_bytes_def le32_def)
  have 2: "of_le32 (take 4 bs) = type_code tp"
    "of_le32 (take 4 (drop 4 bs)) = nl"
    "of_le32 (take 4 (drop 8 bs)) = vl"
    "drop 12 bs = name @ value @ rest"
    unfolding bs_def by (rule header_fields)+
  have "decode bs = (case decode rest of None \<Rightarrow> None | Some evs \<Rightarrow> Some ((tp, name, value) # evs))"
    by (subst decode.simps) (simp add: 1 2 type_of_code_type_code assms split: option.split)
  then show ?thesis by (simp add: bs_def)
qed

lemma unat_length:
  "length (xs :: byte list) < 2 ^ 32 \<Longrightarrow> unat (of_nat (length xs) :: uint32_t) = length xs"
  by (simp add: unat_of_nat)

lemma decode_records_append:
  "\<forall>ev \<in> set evs. fits ev \<Longrightarrow>
   decode (records_bytes evs @ rest) =
     (case decode rest of None \<Rightarrow> None | Some evs1 \<Rightarrow> Some (evs @ evs1))"
proof (induction evs)
  case Nil
  then show ?case by (simp add: records_bytes_def split: option.splits)
next
  case (Cons ev evs)
  obtain tp name "value" where ev: "ev = (tp, name, value)" by (cases ev)
  have f: "unat (of_nat (length name) :: uint32_t) = length name"
          "unat (of_nat (length value) :: uint32_t) = length value"
    using Cons.prems by (simp_all add: ev fits_def unat_length)
  have "decode (records_bytes (ev # evs) @ rest) =
        decode (header_bytes tp (of_nat (length name)) (of_nat (length value))
                @ name @ value @ (records_bytes evs @ rest))"
    by (simp add: records_bytes_def record_bytes_def ev)
  also have "\<dots> = (case decode (records_bytes evs @ rest) of
                      None \<Rightarrow> None | Some evs1 \<Rightarrow> Some ((tp, name, value) # evs1))"
    by (rule decode_record [OF f])
  finally show ?case using Cons by (simp add: ev split: option.splits)
qed

lemma decode_empty: "decode [] = Some []"
  by (subst decode.simps) simp

lemma decode_records: "\<forall>ev \<in> set evs. fits ev \<Longrightarrow> decode (records_bytes evs) = Some evs"
  using decode_records_append [of evs "[]"] by (simp add: decode_empty)

lemma write_events_file:
  "\<forall>ev \<in> set evs. fits ev \<Longrightarrow>
   write_events p evs =
     p\<lparr>m_file := map_option (\<lambda>f. f\<lparr>f_data := f_data f @ records_bytes evs\<rparr>) (m_file p)\<rparr>"
proof (induction evs arbitrary: p)
  case Nil
  then show ?case by (cases "m_file p") (simp_all add: write_events_def records_bytes_def)
next
  case (Cons ev evs)
  obtain tp name "value" where ev: "ev = (tp, name, value)" by (cases ev)
  have f: "unat (of_nat (length name) :: uint32_t) = length name"
          "unat (of_nat (length value) :: uint32_t) = length value"
    using Cons.prems by (simp_all add: ev fits_def unat_length)
  have step: "write_events p (ev # evs) =
      write_events (write_to_file p tp name (of_nat (length name)) value (of_nat (length value))) evs"
    by (simp add: write_events_def ev)
  show ?case
    unfolding step using Cons.prems
    by (cases "m_file p")
       (simp_all add: Cons.IH write_to_file_eq f records_bytes_def record_bytes_def ev)
qed

text \<open>
  C9. Writing a sequence of events to an open, empty file with \<open>write_to_file\<close>, each
  event with lengths that are \<open>uint32_t\<close> values, leaves in the file the records of the
  events one after the other, and decoding these bytes gives back the same sequence of
  types, names and values.
\<close>

theorem write_events_decode_roundtrip:
  assumes "m_file p = Some file" and "f_data file = []"
    and "\<forall>ev \<in> set evs. fits ev"
  shows "\<exists>file1. m_file (write_events p evs) = Some file1
            \<and> f_data file1 = records_bytes evs
            \<and> decode (f_data file1) = Some evs"
  using assms(1,2) by (simp add: write_events_file [OF assms(3)] decode_records [OF assms(3)])

theorem write_events_decode_roundtrip_witness:
  "m_file example_session = Some example_file \<and> f_data example_file = []
   \<and> list_all fits example_events
   \<and> (\<exists>file1. m_file (write_events example_session example_events) = Some file1
         \<and> f_data file1 = records_bytes example_events
         \<and> decode (f_data file1) = Some example_events)"
proof -
  have a: "m_file example_session = Some example_file"
    by (simp add: example_session_def)
  have b: "f_data example_file = []"
    by (simp add: example_file_def)
  have c: "\<forall>ev \<in> set example_events. fits ev"
    by (simp add: example_events_def fits_def)
  show ?thesis
    using a b c write_events_decode_roundtrip [OF a b c] by (simp add: list_all_iff)
qed

section \<open>The write callback\<close>

text \<open>
  C2. For an event whose name and value have the lengths passed with them: a BlockBegin
  pushes the pair of name and value onto the block stack, a BlockEnd (the stack not
  being empty) pops its top, a Value leaves the stack as it is; and in all three cases
  an open file receives the header, then the name bytes, then the value bytes, while
  with no file open the same change of the stack is made, nothing is written and no
  error arises. Nothing else of the session changes.
\<close>

theorem write_fcn_stack_and_record:
  assumes "unat name_length = length name" and "unat value_length = length value"
    and "tp = I965_BATCHBUFFER_LOGGER_MESSAGE_BLOCK_END \<longrightarrow> m_block_stack p \<noteq> []"
  shows "write_fcn p tp name name_length value value_length =
     Inr (p\<lparr>m_block_stack :=
              (case tp of
                 I965_BATCHBUFFER_LOGGER_MESSAGE_BLOCK_BEGIN \<Rightarrow>
                   m_block_stack p @ [\<lparr>m_name = name, m_value = value\<rparr>]
               | I965_BATCHBUFFER_LOGGER_MESSAGE_BLOCK_END \<Rightarrow> butlast (m_block_stack p)
               | I965_BATCHBUFFER_LOGGER_MESSAGE_VALUE \<Rightarrow> m_block_stack p),
            m_file :=
              (case m_file p of
                 None \<Rightarrow> None
               | Some file \<Rightarrow>
                   Some (file\<lparr>f_data := f_data file @ header_bytes tp name_length value_length
                                            @ name @ value\<rparr>))\<rparr>)"
  using assms
  by (cases tp; cases "m_file p") (simp_all add: write_fcn_def write_to_file_eq Block_set_def)

theorem write_fcn_stack_and_record_witness:
  "unat (2 :: uint32_t) = length [7, 8 :: byte] \<and> unat (0 :: uint32_t) = length ([] :: byte list)
   \<and> m_block_stack example_session \<noteq> []
   \<and> write_fcn example_session I965_BATCHBUFFER_LOGGER_MESSAGE_BLOCK_END [7, 8] 2 [] 0 =
       Inr (example_session
             \<lparr>m_block_stack := [],
              m_file := Some \<lparr>f_path = ''log-1.0'',
                              f_data = [1, 0, 0, 0, 2, 0, 0, 0, 0, 0, 0, 0, 7, 8]\<rparr>\<rparr>)"
proof -
  have a: "unat (2 :: uint32_t) = length [7, 8 :: byte]" by simp
  have b: "unat (0 :: uint32_t) = length ([] :: byte list)" by simp
  have c: "I965_BATCHBUFFER_LOGGER_MESSAGE_BLOCK_END = I965_BATCHBUFFER_LOGGER_MESSAGE_BLOCK_END
             \<longrightarrow> m_block_stack example_session \<noteq> []"
    by (simp add: example_session_def)
  show ?thesis
    using write_fcn_stack_and_record [OF a b c]
    by (simp add: example_session_def example_file_def header_bytes_def le32_def type_code_def)
qed

text \<open>
  C10. A BlockEnd passed to the write callback pops the block stack without a check: with
  a stack that is not empty the call returns and the stack has lost its top; with an
  empty stack the call is \<open>pop_back\<close> on an empty vector, which has no defined
  behaviour; and the write callback has no other way to fail.
\<close>

theorem write_fcn_block_end_precondition:
  "(m_block_stack p \<noteq> [] \<longrightarrow>
      (\<exists>p1. write_fcn p I965_BATCHBUFFER_LOGGER_MESSAGE_BLOCK_END name name_length value value_length
               = Inr p1
            \<and> m_block_stack p1 = butlast (m_block_stack p)))
   \<and> (m_block_stack p = [] \<longrightarrow>
        write_fcn p I965_BATCHBUFFER_LOGGER_MESSAGE_BLOCK_END name name_length value value_length
          = Inl Pop_Back_On_Empty_Vector)
   \<and> ((\<exists>e. write_fcn p tp name name_length value value_length = Inl e)
        = (tp = I965_BATCHBUFFER_LOGGER_MESSAGE_BLOCK_END \<and> m_block_stack p = []))"
  by (cases tp) (simp_all add: write_fcn_def write_to_file_eq)

theorem write_fcn_block_end_precondition_witness:
  "m_block_stack example_session \<noteq> []
   \<and> (\<exists>p1. write_fcn example_session I965_BATCHBUFFER_LOGGER_MESSAGE_BLOCK_END [] 0 [] 0 = Inr p1
            \<and> m_block_stack p1 = [])
   \<and> m_block_stack (example_session\<lparr>m_block_stack := []\<rparr>) = []
   \<and> write_fcn (example_session\<lparr>m_block_stack := []\<rparr>)
        I965_BATCHBUFFER_LOGGER_MESSAGE_BLOCK_END [] 0 [] 0 = Inl Pop_Back_On_Empty_Vector"
  using write_fcn_block_end_precondition
          [of example_session "[]" 0 "[]" 0 I965_BATCHBUFFER_LOGGER_MESSAGE_VALUE]
        write_fcn_block_end_precondition
          [of "example_session\<lparr>m_block_stack := []\<rparr>" "[]" 0 "[]" 0
              I965_BATCHBUFFER_LOGGER_MESSAGE_VALUE]
  by (simp add: example_session_def)

section \<open>Interception: properties\<close>

lemma gl_function_loop_local:
  "gl_function_loop (map (\<lambda>name. (name, Local name)) names) name =
     (if name \<in> set names then Some (Local name) else None)"
  by (induction names) auto

lemma gl_function_eq:
  "gl_function env name =
     (if name \<in> fst ` set (every_function env) then Some (Local name) else None)"
proof -
  have "fst ` set (map (\<lambda>name. (name, Local name)) names) = set names" for names :: "string list"
    by (induction names) auto
  then show ?thesis
    by (simp only: gl_function_def every_function_def gl_function_loop_local)
qed

text \<open>
  C8. The table of intercepted names holds the generated functions and the six functions
  written by hand. For a name of the table, \<open>glXGetProcAddress\<close>,
  \<open>glXGetProcAddressARB\<close>, \<open>eglGetProcAddress\<close> and \<open>dlsym\<close> return this library's own
  address of that name; for any other name, and only then, they return what the real
  resolution chain returns.
\<close>

theorem symbol_providers_return_local_address:
  "fst ` set (every_function env) =
     set (function_macros env) \<union>
     {''glXSwapBuffers'', ''eglInitialize'', ''eglSwapBuffers'',
      ''glXGetProcAddress'', ''glXGetProcAddressARB'', ''eglGetProcAddress''}
   \<and> (name \<in> fst ` set (every_function env) \<longrightarrow>
        glXGetProcAddress env name = Some (Local name)
        \<and> glXGetProcAddressARB env name = Some (Local name)
        \<and> fst (eglGetProcAddress env name g) = Some (Local name)
        \<and> dlsym env handle name = Some (Local name))
   \<and> (name \<notin> fst ` set (every_function env) \<longrightarrow>
        glXGetProcAddress env name = gl_dlsym env name
        \<and> glXGetProcAddressARB env name = gl_dlsym env name
        \<and> fst (eglGetProcAddress env name g) =
            (case egl_dlsym env name of Some q \<Rightarrow> Some q | None \<Rightarrow> gles_dlsym env name)
        \<and> dlsym env handle name = real_dlsym env handle name)"
proof -
  have t: "fst ` set (every_function env) =
     set (function_macros env) \<union>
     {''glXSwapBuffers'', ''eglInitialize'', ''eglSwapBuffers'',
      ''glXGetProcAddress'', ''glXGetProcAddressARB'', ''eglGetProcAddress''}"
    by (auto simp add: every_function_def image_Un image_image)
  have hit: "name \<in> fst ` set (every_function env) \<Longrightarrow> gl_function env name = Some (Local name)"
    by (simp only: gl_function_eq if_True)
  have miss: "name \<notin> fst ` set (every_function env) \<Longrightarrow> gl_function env name = None"
    by (simp only: gl_function_eq if_False)
  show ?thesis
    apply (rule conjI [OF t])
    apply (rule conjI)
     apply (rule impI)
     apply (simp add: hit glXGetProcAddress_def glXGetProcAddressARB_def eglGetProcAddress_def dlsym_def Let_def)
    apply (rule impI)
    apply (simp add: miss glXGetProcAddress_def glXGetProcAddressARB_def eglGetProcAddress_def dlsym_def Let_def split: option.split)
    done
qed

theorem symbol_providers_return_local_address_witness:
  "''glFinish'' \<in> fst ` set (every_function example_env)
   \<and> gl_dlsym example_env ''glFinish'' = Some (Foreign 2)
   \<and> glXGetProcAddress example_env ''glFinish'' = Some (Local ''glFinish'')
   \<and> dlsym example_env 0 ''glFinish'' = Some (Local ''glFinish'')
   \<and> fst (eglGetProcAddress example_env ''glFinish'' example_globals) = Some (Local ''glFinish'')
   \<and> ''malloc'' \<notin> fst ` set (every_function example_env)
   \<and> glXGetProcAddress example_env ''malloc'' = None
   \<and> dlsym example_env 0 ''malloc'' = Some (Foreign 4)"
  using symbol_providers_return_local_address [of example_env "''glFinish''" example_globals 0]
        symbol_providers_return_local_address [of example_env "''malloc''" example_globals 0]
  by (simp add: example_env_def)

lemma fetch_function_trace:
  "fetch_function env (g\<lparr>trace := t\<rparr>) name = fetch_function env g name"
  by (simp add: fetch_function_def)

lemma generated_function_unresolved:
  assumes "dispatch_ptr g name = Init" and "fetch_function env g name = None"
  shows "FUNCTION_ENTRY env name g =
           g\<lparr>dispatch_ptr := (dispatch_ptr g)(name := Do_nothing),
             trace := trace g @ (if logger_app g
                                 then [Pre_call (api_count g) name name, Post_call (api_count g)]
                                 else []),
             api_count := api_count g + 1\<rparr>"
proof (cases "logger_app g")
  case True
  then show ?thesis
    using assms
    by (simp add: FUNCTION_ENTRY_def call_dispatch_ptr_def name_init_def name_do_nothing_def
        app_pre_call_def app_post_call_def Let_def fetch_function_trace)
next
  case False
  then show ?thesis
    using assms
    by (simp add: FUNCTION_ENTRY_def call_dispatch_ptr_def name_init_def name_do_nothing_def
        app_pre_call_def app_post_call_def Let_def)
qed

text \<open>
  C6. When no resolver finds a function, the generated function \<open>glClear\<close> puts
  \<open>_glClear_do_nothing\<close> in the place of its pointer and calls nothing, but
  \<open>glXSwapBuffers\<close>, \<open>eglSwapBuffers\<close> and \<open>eglInitialize\<close>, which do not test
  what they fetched, call through a null pointer.
\<close>

theorem glXSwapBuffers_unresolved_null_call:
  "glXSwapBuffers_fptr example_globals = None
   \<and> gl_dlsym unresolving_env ''glXSwapBuffers'' = None
   \<and> glXSwapBuffers unresolving_env True example_globals = Inl Call_Through_Null_Pointer
   \<and> eglSwapBuffers unresolving_env True example_globals = Inl Call_Through_Null_Pointer
   \<and> eglInitialize unresolving_env example_globals = Inl Call_Through_Null_Pointer
   \<and> (\<exists>g1. FUNCTION_ENTRY unresolving_env ''glClear'' example_globals = g1
          \<and> dispatch_ptr g1 ''glClear'' = Do_nothing
          \<and> trace g1 = [Pre_call 7 ''glClear'' ''glClear'', Post_call 7])"
  by (simp add: glXSwapBuffers_def eglSwapBuffers_def eglInitialize_def unresolving_env_def
      example_globals_def app_pre_call_def Let_def generated_function_unresolved fetch_function_def)

section \<open>Closing and starting files\<close>

lemma foldl_block_end:
  "foldl (\<lambda>q iter. write_to_file q I965_BATCHBUFFER_LOGGER_MESSAGE_BLOCK_END [] 0 [] 0) p xs =
     p\<lparr>m_file := map_option (\<lambda>f. f\<lparr>f_data := f_data f @ records_bytes (closing_events (rev xs))\<rparr>)
                    (m_file p)\<rparr>"
proof (induction xs arbitrary: p)
  case Nil
  show ?case by (cases "m_file p") (simp_all add: closing_events_def records_bytes_def)
next
  case (Cons x xs)
  show ?case
    unfolding foldl_Cons Cons.IH
    by (cases "m_file p")
       (simp_all add: write_to_file_eq closing_events_def records_bytes_def record_bytes_def)
qed

lemma foldl_block_begin:
  "stack_fits xs \<Longrightarrow>
   foldl (\<lambda>q iter. write_to_file q I965_BATCHBUFFER_LOGGER_MESSAGE_BLOCK_BEGIN
                     (Block_name iter) (Block_name_length iter)
                     (Block_value iter) (Block_value_length iter)) p xs =
     p\<lparr>m_file := map_option (\<lambda>f. f\<lparr>f_data := f_data f @ records_bytes (replay_events xs)\<rparr>)
                    (m_file p)\<rparr>"
proof (induction xs arbitrary: p)
  case Nil
  show ?case by (cases "m_file p") (simp_all add: replay_events_def records_bytes_def)
next
  case (Cons x xs)
  have f: "unat (of_nat (length (m_name x)) :: uint32_t) = length (m_name x)"
          "unat (of_nat (length (m_value x)) :: uint32_t) = length (m_value x)"
    using Cons.prems by (simp_all add: stack_fits_def unat_length)
  have s: "stack_fits xs" using Cons.prems by (simp add: stack_fits_def)
  show ?case
    unfolding foldl_Cons Cons.IH [OF s]
    by (cases "m_file p")
       (simp_all add: write_to_file_eq replay_events_def records_bytes_def
          record_bytes_def Block_name_def Block_value_def Block_name_length_def
          Block_value_length_def f)
qed

lemma word_of_nat_le:
  "n < 2 ^ 32 \<Longrightarrow> ((N :: uint32_t) \<le> of_nat n) = (unat N \<le> n)"
  by (simp add: word_le_nat_alt unat_of_nat)

lemma evict_oldest_closed_form:
  assumes "m_most_recent_ioctl_files p = fs"
    and "m_most_recent_ioctl_file_cnt p = of_nat (length fs)"
    and "length fs < 2 ^ 32"
    and "0 < m_most_recent_ioctl_max p"
  shows "evict_oldest p w =
     Inr (p\<lparr>m_most_recent_ioctl_files := drop (length fs + 1 - unat (m_most_recent_ioctl_max p)) fs,
            m_most_recent_ioctl_file_cnt :=
              of_nat (length fs - (length fs + 1 - unat (m_most_recent_ioctl_max p)))\<rparr>,
          remove_all (take (length fs + 1 - unat (m_most_recent_ioctl_max p)) fs) w)"
  using assms
proof (induction fs arbitrary: p w)
  case Nil
  have "0 < unat (m_most_recent_ioctl_max p)"
    using Nil.prems(4) by (simp add: word_less_nat_alt)
  then have "\<not> m_most_recent_ioctl_max p \<le> m_most_recent_ioctl_file_cnt p"
    using Nil.prems by (simp add: word_le_nat_alt)
  then show ?case
    using Nil.prems by (subst evict_oldest.simps) (simp add: remove_all_def)
next
  case (Cons x xs)
  let ?N = "m_most_recent_ioctl_max p"
  have pos: "0 < unat ?N"
    using Cons.prems(4) by (simp add: word_less_nat_alt)
  have le: "(?N \<le> m_most_recent_ioctl_file_cnt p) = (unat ?N \<le> Suc (length xs))"
    using Cons.prems(2,3) word_of_nat_le [of "Suc (length xs)" ?N] by simp
  show ?case
  proof (cases "unat ?N \<le> Suc (length xs)")
    case True
    let ?p1 = "p\<lparr>m_most_recent_ioctl_files := xs,
                   m_most_recent_ioctl_file_cnt := m_most_recent_ioctl_file_cnt p - 1\<rparr>"
    have ih: "evict_oldest ?p1 (std_remove x w) =
        Inr (?p1\<lparr>m_most_recent_ioctl_files := drop (length xs + 1 - unat ?N) xs,
              m_most_recent_ioctl_file_cnt := of_nat (length xs - (length xs + 1 - unat ?N))\<rparr>,
             remove_all (take (length xs + 1 - unat ?N) xs) (std_remove x w))"
      using Cons.IH [of ?p1 "std_remove x w"] Cons.prems by simp
    have k: "Suc (Suc (length xs)) - unat ?N = Suc (Suc (length xs) - unat ?N)"
      using True by simp
    show ?thesis
      using True le Cons.prems(1) ih
      by (subst evict_oldest.simps) (simp add: k remove_all_def)
  next
    case False
    then have k: "Suc (Suc (length xs)) - unat ?N = 0" by simp
    show ?thesis
      using False le Cons.prems(1,2)
      by (subst evict_oldest.simps) (simp add: k remove_all_def)
  qed
qed


lemma evict_oldest_Inr:
  "evict_oldest p w = Inr (p1, w1) \<Longrightarrow>
   \<exists>k. p1 = p\<lparr>m_most_recent_ioctl_files := drop k (m_most_recent_ioctl_files p),
               m_most_recent_ioctl_file_cnt := m_most_recent_ioctl_file_cnt p - of_nat k\<rparr>
       \<and> w1 = remove_all (take k (m_most_recent_ioctl_files p)) w"
proof (induction p w rule: evict_oldest.induct)
  case (1 p w)
  show ?case
  proof (cases "m_most_recent_ioctl_max p \<le> m_most_recent_ioctl_file_cnt p")
    case False
    then have "p1 = p" "w1 = w"
      using "1.prems" by (subst (asm) evict_oldest.simps, simp)+
    then have "p1 = p\<lparr>m_most_recent_ioctl_files := drop 0 (m_most_recent_ioctl_files p),
               m_most_recent_ioctl_file_cnt := m_most_recent_ioctl_file_cnt p - of_nat 0\<rparr>
       \<and> w1 = remove_all (take 0 (m_most_recent_ioctl_files p)) w"
      by (simp add: remove_all_def)
    then show ?thesis by blast
  next
    case True
    show ?thesis
    proof (cases "m_most_recent_ioctl_files p")
      case Nil
      then show ?thesis
        using True "1.prems" by (subst (asm) evict_oldest.simps) simp
    next
      case (Cons x xs)
      let ?p = "p\<lparr>m_most_recent_ioctl_files := xs,
                   m_most_recent_ioctl_file_cnt := m_most_recent_ioctl_file_cnt p - 1\<rparr>"
      have "evict_oldest ?p (std_remove x w) = Inr (p1, w1)"
        using True Cons "1.prems" by (subst (asm) evict_oldest.simps) simp
      from "1.IH" [OF True Cons this]
      obtain k where k: "p1 = ?p\<lparr>m_most_recent_ioctl_files := drop k (m_most_recent_ioctl_files ?p),
               m_most_recent_ioctl_file_cnt := m_most_recent_ioctl_file_cnt ?p - of_nat k\<rparr>"
          "w1 = remove_all (take k (m_most_recent_ioctl_files ?p)) (std_remove x w)"
        by blast
      have "p1 = p\<lparr>m_most_recent_ioctl_files := drop (Suc k) (m_most_recent_ioctl_files p),
               m_most_recent_ioctl_file_cnt := m_most_recent_ioctl_file_cnt p - of_nat (Suc k)\<rparr>
       \<and> w1 = remove_all (take (Suc k) (m_most_recent_ioctl_files p)) w"
        using k Cons by (simp add: remove_all_def)
      then show ?thesis by blast
    qed
  qed
qed

lemma close_file_None: "m_file p = None \<Longrightarrow> close_file p w = Inr (p, w)"
  by (simp add: close_file_def)

lemma close_file_Inr:
  assumes "close_file p w = Inr (p1, w1)" and "m_file p = Some file"
  shows "\<exists>k. p1 = (if 0 < m_most_recent_ioctl_max p
                   then p\<lparr>m_file := None,
                          m_most_recent_ioctl_files :=
                            drop k (m_most_recent_ioctl_files p) @ [m_filename p],
                          m_most_recent_ioctl_file_cnt :=
                            m_most_recent_ioctl_file_cnt p - of_nat k + 1,
                          m_filename := []\<rparr>
                   else p\<lparr>m_file := None\<rparr>)
           \<and> w1 = remove_all (if 0 < m_most_recent_ioctl_max p
                               then take k (m_most_recent_ioctl_files p) else [])
                     (std_fclose
                        (file\<lparr>f_data := f_data file
                                 @ records_bytes (closing_events (m_block_stack p))\<rparr>) w)"
proof (cases "0 < m_most_recent_ioctl_max p")
  case False
  then show ?thesis
    using assms by (simp add: close_file_def foldl_block_end Let_def remove_all_def)
next
  case True
  let ?f = "file\<lparr>f_data := f_data file @ records_bytes (closing_events (m_block_stack p))\<rparr>"
  let ?p2 = "p\<lparr>m_file := None\<rparr>"
  obtain p3 w2 where e: "evict_oldest ?p2 (std_fclose ?f w) = Inr (p3, w2)"
    and r: "p1 = p3\<lparr>m_most_recent_ioctl_files := m_most_recent_ioctl_files p3 @ [m_filename p3],
                     m_most_recent_ioctl_file_cnt := m_most_recent_ioctl_file_cnt p3 + 1,
                     m_filename := []\<rparr>" "w1 = w2"
    using assms True
    by (auto simp add: close_file_def foldl_block_end Let_def split: sum.splits)
  from evict_oldest_Inr [OF e] obtain k where
    k: "p3 = ?p2\<lparr>m_most_recent_ioctl_files := drop k (m_most_recent_ioctl_files ?p2),
               m_most_recent_ioctl_file_cnt := m_most_recent_ioctl_file_cnt ?p2 - of_nat k\<rparr>"
       "w2 = remove_all (take k (m_most_recent_ioctl_files ?p2)) (std_fclose ?f w)"
    by blast
  have "p1 = p\<lparr>m_file := None,
                m_most_recent_ioctl_files := drop k (m_most_recent_ioctl_files p) @ [m_filename p],
                m_most_recent_ioctl_file_cnt := m_most_recent_ioctl_file_cnt p - of_nat k + 1,
                m_filename := []\<rparr>
        \<and> w1 = remove_all (take k (m_most_recent_ioctl_files p)) (std_fclose ?f w)"
    using r k by simp
  then show ?thesis using True by auto
qed

lemma close_file_retention:
  assumes "m_file p = Some file" and "0 < m_most_recent_ioctl_max p" and "ring_ok p"
  shows "close_file p w =
     Inr (p\<lparr>m_file := None,
            m_most_recent_ioctl_files :=
              drop (length (m_most_recent_ioctl_files p) + 1 - unat (m_most_recent_ioctl_max p))
                (m_most_recent_ioctl_files p) @ [m_filename p],
            m_most_recent_ioctl_file_cnt :=
              of_nat (length (m_most_recent_ioctl_files p)
                      - (length (m_most_recent_ioctl_files p) + 1
                         - unat (m_most_recent_ioctl_max p))) + 1,
            m_filename := []\<rparr>,
          remove_all
            (take (length (m_most_recent_ioctl_files p) + 1 - unat (m_most_recent_ioctl_max p))
               (m_most_recent_ioctl_files p))
            (std_fclose
               (file\<lparr>f_data := f_data file @ records_bytes (closing_events (m_block_stack p))\<rparr>)
               w))"
proof -
  let ?f = "file\<lparr>f_data := f_data file @ records_bytes (closing_events (m_block_stack p))\<rparr>"
  let ?p2 = "p\<lparr>m_file := None\<rparr>"
  have len: "length (m_most_recent_ioctl_files p) < 2 ^ 32"
  proof -
    have "unat (m_most_recent_ioctl_max p) < 2 ^ 32"
      using unsigned_less [of "m_most_recent_ioctl_max p", where 'a = nat] by simp
    then show ?thesis using assms(3) by (simp add: ring_ok_def)
  qed
  have e: "evict_oldest ?p2 (std_fclose ?f w) = Inr
     (?p2\<lparr>m_most_recent_ioctl_files :=
              drop (length (m_most_recent_ioctl_files p) + 1 - unat (m_most_recent_ioctl_max ?p2))
                (m_most_recent_ioctl_files p),
            m_most_recent_ioctl_file_cnt :=
              of_nat (length (m_most_recent_ioctl_files p)
                      - (length (m_most_recent_ioctl_files p) + 1
                         - unat (m_most_recent_ioctl_max ?p2)))\<rparr>,
      remove_all
        (take (length (m_most_recent_ioctl_files p) + 1 - unat (m_most_recent_ioctl_max ?p2))
           (m_most_recent_ioctl_files p))
        (std_fclose ?f w))"
    using assms len by (intro evict_oldest_closed_form) (simp_all add: ring_ok_def)
  show ?thesis
    using assms(1,2) by (simp add: close_file_def foldl_block_end Let_def e)
qed

lemma close_file_no_retention:
  assumes "m_file p = Some file" and "m_most_recent_ioctl_max p = 0"
  shows "close_file p w =
     Inr (p\<lparr>m_file := None\<rparr>,
          std_fclose
            (file\<lparr>f_data := f_data file @ records_bytes (closing_events (m_block_stack p))\<rparr>) w)"
  using assms by (simp add: close_file_def foldl_block_end Let_def)

section \<open>The dispatch boundaries\<close>

lemma close_file_frame:
  assumes "close_file p w = Inr (p1, w1)"
  shows "m_file p1 = None" "m_prefix p1 = m_prefix p" "m_count p1 = m_count p"
    "m_block_stack p1 = m_block_stack p" "m_most_recent_ioctl_max p1 = m_most_recent_ioctl_max p"
    "m_max_filesize p1 = m_max_filesize p"
proof -
  have "m_file p1 = None \<and> m_prefix p1 = m_prefix p \<and> m_count p1 = m_count p
    \<and> m_block_stack p1 = m_block_stack p \<and> m_most_recent_ioctl_max p1 = m_most_recent_ioctl_max p
    \<and> m_max_filesize p1 = m_max_filesize p"
  proof (cases "m_file p")
    case None
    then show ?thesis using assms by (simp add: close_file_None)
  next
    case (Some fl)
    from close_file_Inr [OF assms Some] show ?thesis by (auto split: if_splits)
  qed
  then show "m_file p1 = None" "m_prefix p1 = m_prefix p" "m_count p1 = m_count p"
    "m_block_stack p1 = m_block_stack p" "m_most_recent_ioctl_max p1 = m_most_recent_ioctl_max p"
    "m_max_filesize p1 = m_max_filesize p"
    by simp_all
qed

lemma start_new_file_Inr:
  assumes "close_file p w = Inr (p1, w1)" and "stack_fits (m_block_stack p)"
  shows "start_new_file fopen_ok p w =
     Inr (p1\<lparr>m_count := m_count p + 1,
             m_filename := new_filename p,
             m_file := (if fopen_ok
                        then Some \<lparr>f_path = new_filename p,
                                   f_data = records_bytes (replay_events (m_block_stack p))\<rparr>
                        else None)\<rparr>,
          w1\<lparr>disk := (if fopen_ok then (disk w1)(new_filename p \<mapsto> []) else disk w1),
             journal := journal w1 @ [Fopen (new_filename p) fopen_ok]\<rparr>)"
  using assms close_file_frame [OF assms(1)]
  by (simp add: start_new_file_def Let_def std_fopen_def foldl_block_begin new_filename_def)

lemma start_new_file_Inl:
  "close_file p w = Inl e \<Longrightarrow> start_new_file fopen_ok p w = Inl e"
  by (simp add: start_new_file_def)


lemma journal_remove_all: "journal (remove_all paths w) = journal w @ map Remove paths"
  unfolding remove_all_def
  by (induction paths arbitrary: w) (simp_all add: std_remove_def)

lemma foldl_write_to_file_frame:
  "\<exists>bytes. foldl (\<lambda>q iter. write_to_file q tp (n iter) (nl iter) (v iter) (vl iter)) p xs =
     p\<lparr>m_file := map_option (\<lambda>f. f\<lparr>f_data := f_data f @ bytes\<rparr>) (m_file p)\<rparr>"
proof (induction xs arbitrary: p)
  case Nil
  have "foldl (\<lambda>q iter. write_to_file q tp (n iter) (nl iter) (v iter) (vl iter)) p [] =
     p\<lparr>m_file := map_option (\<lambda>f. f\<lparr>f_data := f_data f @ []\<rparr>) (m_file p)\<rparr>"
    by (cases "m_file p") simp_all
  then show ?case by blast
next
  case (Cons x xs)
  from Cons.IH [of "write_to_file p tp (n x) (nl x) (v x) (vl x)"]
  obtain bytes where b:
    "foldl (\<lambda>q iter. write_to_file q tp (n iter) (nl iter) (v iter) (vl iter))
        (write_to_file p tp (n x) (nl x) (v x) (vl x)) xs =
     (write_to_file p tp (n x) (nl x) (v x) (vl x))
       \<lparr>m_file := map_option (\<lambda>f. f\<lparr>f_data := f_data f @ bytes\<rparr>)
                     (m_file (write_to_file p tp (n x) (nl x) (v x) (vl x)))\<rparr>"
    by blast
  have "foldl (\<lambda>q iter. write_to_file q tp (n iter) (nl iter) (v iter) (vl iter)) p (x # xs) =
     p\<lparr>m_file := map_option
        (\<lambda>f. f\<lparr>f_data := f_data f @ (header_bytes tp (nl x) (vl x) @ take (unat (nl x)) (n x)
                                          @ take (unat (vl x)) (v x)) @ bytes\<rparr>) (m_file p)\<rparr>"
    unfolding foldl_Cons b by (cases "m_file p") (simp_all add: write_to_file_eq)
  then show ?case by blast
qed

lemma start_new_file_observed:
  assumes "start_new_file fopen_ok p w = Inr (p1, w1)"
  shows "m_count p1 = m_count p + 1 \<and> m_filename p1 = new_filename p
         \<and> (m_file p1 = None) = (\<not> fopen_ok)
         \<and> (\<exists>calls. journal w1 = journal w @ calls @ [Fopen (new_filename p) fopen_ok])"
proof -
  obtain pc wc where c: "close_file p w = Inr (pc, wc)"
    using assms by (cases "close_file p w") (auto simp add: start_new_file_def)
  note fr = close_file_frame [OF c]
  let ?p3 = "pc\<lparr>m_count := m_count pc + 1, m_filename := new_filename p,
                 m_file := fst (std_fopen fopen_ok (new_filename p) wc)\<rparr>"
  obtain bytes where b:
    "foldl (\<lambda>q iter. write_to_file q I965_BATCHBUFFER_LOGGER_MESSAGE_BLOCK_BEGIN
                      (Block_name iter) (Block_name_length iter)
                      (Block_value iter) (Block_value_length iter)) ?p3 (m_block_stack ?p3) =
     ?p3\<lparr>m_file := map_option (\<lambda>f. f\<lparr>f_data := f_data f @ bytes\<rparr>) (m_file ?p3)\<rparr>"
    using foldl_write_to_file_frame by blast
  have r: "p1 = ?p3\<lparr>m_file := map_option (\<lambda>f. f\<lparr>f_data := f_data f @ bytes\<rparr>) (m_file ?p3)\<rparr>"
       "w1 = snd (std_fopen fopen_ok (new_filename p) wc)"
    using assms c b fr by (simp_all add: start_new_file_def Let_def new_filename_def)
  have j: "\<exists>calls. journal wc = journal w @ calls"
  proof (cases "m_file p")
    case None
    then show ?thesis using c by (simp add: close_file_None)
  next
    case (Some fl)
    from close_file_Inr [OF c Some] show ?thesis
      by (auto simp add: journal_remove_all std_fclose_def)
  qed
  then obtain calls where "journal wc = journal w @ calls" by blast
  then have "journal w1 = journal w @ calls @ [Fopen (new_filename p) fopen_ok]"
    using r by (simp add: std_fopen_def)
  then show ?thesis
    using r fr by (auto simp add: std_fopen_def)
qed

lemma close_file_observed:
  assumes "close_file p w = Inr (p1, w1)" and "m_file p = Some fl"
  shows "m_file p1 = None
     \<and> (\<exists>removed. journal w1 =
           journal w @ Fclose (f_path fl)
                         (f_data fl @ records_bytes (closing_events (m_block_stack p)))
                       # map Remove removed)"
  using close_file_Inr [OF assms]
  by (auto simp add: journal_remove_all std_fclose_def)


text \<open>
  C3. At a pre-dispatch boundary: with the retention bound above 0 a new file is
  started; otherwise, with a file open, a positive maximum file size and a file larger
  than it, a new file is started; otherwise, with a file open, the file is flushed and
  stays the current file; otherwise (no file open) nothing happens. At a post-dispatch
  boundary with a file open, the file is closed when the bound is above 0 and flushed
  when it is 0; with no file open nothing happens. Starting a new file advances
  the file counter by one and ends with the \<open>fopen\<close> of the next file name; closing
  calls \<open>fclose\<close> on the file after its closing BlockEnd records and leaves no file
  open; flushing leaves the session as it is. So the actions exclude each other.
\<close>

theorem execbuffer2_rotation_policy:
  "(0 < m_most_recent_ioctl_max p \<longrightarrow>
      pre_execbuffer2_ioctl_fcn fopen_ok p ioctl_id w = start_new_file fopen_ok p w)
   \<and> (m_most_recent_ioctl_max p = 0 \<longrightarrow>
        pre_execbuffer2_ioctl_fcn fopen_ok p ioctl_id w =
          (case m_file p of
             None \<Rightarrow> Inr (p, w)
           | Some file \<Rightarrow>
               if 0 < m_max_filesize p \<and> m_max_filesize p < int (length (f_data file))
               then start_new_file fopen_ok p w
               else Inr (p, w\<lparr>disk := (disk w)(f_path file \<mapsto> f_data file),
                              journal := journal w @ [Fflush (f_path file)]\<rparr>)))
   \<and> post_execbuffer2_ioctl_fcn p ioctl_id w =
        (case m_file p of
           None \<Rightarrow> Inr (p, w)
         | Some file \<Rightarrow>
             if 0 < m_most_recent_ioctl_max p then close_file p w
             else Inr (p, w\<lparr>disk := (disk w)(f_path file \<mapsto> f_data file),
                            journal := journal w @ [Fflush (f_path file)]\<rparr>))
   \<and> (\<forall>p1 w1. start_new_file fopen_ok p w = Inr (p1, w1) \<longrightarrow>
          m_count p1 = m_count p + 1 \<and> m_filename p1 = new_filename p
          \<and> (m_file p1 = None) = (\<not> fopen_ok)
          \<and> (\<exists>calls. journal w1 = journal w @ calls @ [Fopen (new_filename p) fopen_ok]))
   \<and> (\<forall>p1 w1 file. close_file p w = Inr (p1, w1) \<and> m_file p = Some file \<longrightarrow>
          m_file p1 = None
          \<and> (\<exists>removed. journal w1 =
                journal w @ Fclose (f_path file)
                              (f_data file @ records_bytes (closing_events (m_block_stack p)))
                            # map Remove removed))"
proof -
  have pre1: "0 < m_most_recent_ioctl_max p \<longrightarrow>
      pre_execbuffer2_ioctl_fcn fopen_ok p ioctl_id w = start_new_file fopen_ok p w"
    by (simp add: pre_execbuffer2_ioctl_fcn_def)
  have pre2: "m_most_recent_ioctl_max p = 0 \<longrightarrow>
        pre_execbuffer2_ioctl_fcn fopen_ok p ioctl_id w =
          (case m_file p of
             None \<Rightarrow> Inr (p, w)
           | Some file \<Rightarrow>
               if 0 < m_max_filesize p \<and> m_max_filesize p < int (length (f_data file))
               then start_new_file fopen_ok p w
               else Inr (p, w\<lparr>disk := (disk w)(f_path file \<mapsto> f_data file),
                              journal := journal w @ [Fflush (f_path file)]\<rparr>))"
    by (simp add: pre_execbuffer2_ioctl_fcn_def std_ftell_def std_fflush_def split: option.split)
  have post: "post_execbuffer2_ioctl_fcn p ioctl_id w =
        (case m_file p of
           None \<Rightarrow> Inr (p, w)
         | Some file \<Rightarrow>
             if 0 < m_most_recent_ioctl_max p then close_file p w
             else Inr (p, w\<lparr>disk := (disk w)(f_path file \<mapsto> f_data file),
                            journal := journal w @ [Fflush (f_path file)]\<rparr>))"
    by (simp add: post_execbuffer2_ioctl_fcn_def std_fflush_def split: option.split)
  show ?thesis
    using pre1 pre2 post start_new_file_observed [of fopen_ok p w] close_file_observed [of p w]
    by blast
qed

lemma decimal_digit: "n < 10 \<Longrightarrow> decimal n = [digit_char n]"
  by (subst decimal.simps) simp

lemma example_session_start_new_file:
  "start_new_file True example_session example_fs =
     Inr (example_session
            \<lparr>m_count := 2, m_filename := ''log-1.1'',
             m_file := Some \<lparr>f_path = ''log-1.1'',
                             f_data = records_bytes
                               [(I965_BATCHBUFFER_LOGGER_MESSAGE_BLOCK_BEGIN, [1, 2], [3])]\<rparr>\<rparr>,
          \<lparr>disk = [''log-1.0'' \<mapsto> records_bytes
                                     [(I965_BATCHBUFFER_LOGGER_MESSAGE_BLOCK_END, [], [])],
                   ''log-1.1'' \<mapsto> []],
           journal = [Fopen ''log-1.0'' True,
                      Fclose ''log-1.0''
                        (records_bytes [(I965_BATCHBUFFER_LOGGER_MESSAGE_BLOCK_END, [], [])]),
                      Fopen ''log-1.1'' True]\<rparr>)"
proof -
  have c: "close_file example_session example_fs =
     Inr (example_session\<lparr>m_file := None\<rparr>,
          std_fclose (example_file\<lparr>f_data := f_data example_file
             @ records_bytes (closing_events (m_block_stack example_session))\<rparr>) example_fs)"
    by (rule close_file_no_retention) (simp_all add: example_session_def)
  have s: "stack_fits (m_block_stack example_session)"
    by (simp add: example_session_def stack_fits_def)
  have n: "new_filename example_session = ''log-1.1''"
    by (simp add: new_filename_def example_session_def decimal_digit digit_char_def)
  show ?thesis
    unfolding start_new_file_Inr [OF c s] n
    by (simp add: example_session_def example_file_def example_fs_def std_fclose_def
        closing_events_def replay_events_def)
qed

theorem execbuffer2_rotation_policy_witness:
  "m_most_recent_ioctl_max example_session = 0
   \<and> m_file example_session = Some example_file
   \<and> pre_execbuffer2_ioctl_fcn True example_session 0 example_fs =
       Inr (example_session, example_fs\<lparr>journal := [Fopen ''log-1.0'' True, Fflush ''log-1.0'']\<rparr>)
   \<and> post_execbuffer2_ioctl_fcn example_session 0 example_fs =
       Inr (example_session, example_fs\<lparr>journal := [Fopen ''log-1.0'' True, Fflush ''log-1.0'']\<rparr>)
   \<and> m_most_recent_ioctl_max (example_session\<lparr>m_most_recent_ioctl_max := 2\<rparr>) = 2
   \<and> pre_execbuffer2_ioctl_fcn True (example_session\<lparr>m_most_recent_ioctl_max := 2\<rparr>) 0 example_fs =
       start_new_file True (example_session\<lparr>m_most_recent_ioctl_max := 2\<rparr>) example_fs
   \<and> post_execbuffer2_ioctl_fcn (example_session\<lparr>m_most_recent_ioctl_max := 2\<rparr>) 0 example_fs =
       close_file (example_session\<lparr>m_most_recent_ioctl_max := 2\<rparr>) example_fs
   \<and> (\<exists>p1 w1. start_new_file True example_session example_fs = Inr (p1, w1)
          \<and> m_count p1 = 2 \<and> m_file p1 \<noteq> None
          \<and> (\<exists>calls. journal w1 = journal example_fs @ calls @ [Fopen ''log-1.1'' True]))"
proof -
  have n: "new_filename example_session = ''log-1.1''"
    by (simp add: new_filename_def example_session_def decimal_digit digit_char_def)
  have c: "m_count example_session = 1"
    by (simp add: example_session_def)
  from example_session_start_new_file obtain p1 w1
    where e: "start_new_file True example_session example_fs = Inr (p1, w1)"
    by blast
  have "m_count p1 = 2 \<and> m_file p1 \<noteq> None
        \<and> (\<exists>calls. journal w1 = journal example_fs @ calls @ [Fopen ''log-1.1'' True])"
    using execbuffer2_rotation_policy [of example_session True 0 example_fs] e n c by simp
  then have last: "\<exists>p1 w1. start_new_file True example_session example_fs = Inr (p1, w1)
          \<and> m_count p1 = 2 \<and> m_file p1 \<noteq> None
          \<and> (\<exists>calls. journal w1 = journal example_fs @ calls @ [Fopen ''log-1.1'' True])"
    using e by blast
  have first: "m_most_recent_ioctl_max example_session = 0
   \<and> m_file example_session = Some example_file
   \<and> pre_execbuffer2_ioctl_fcn True example_session 0 example_fs =
       Inr (example_session, example_fs\<lparr>journal := [Fopen ''log-1.0'' True, Fflush ''log-1.0'']\<rparr>)
   \<and> post_execbuffer2_ioctl_fcn example_session 0 example_fs =
       Inr (example_session, example_fs\<lparr>journal := [Fopen ''log-1.0'' True, Fflush ''log-1.0'']\<rparr>)
   \<and> m_most_recent_ioctl_max (example_session\<lparr>m_most_recent_ioctl_max := 2\<rparr>) = 2
   \<and> pre_execbuffer2_ioctl_fcn True (example_session\<lparr>m_most_recent_ioctl_max := 2\<rparr>) 0 example_fs =
       start_new_file True (example_session\<lparr>m_most_recent_ioctl_max := 2\<rparr>) example_fs
   \<and> post_execbuffer2_ioctl_fcn (example_session\<lparr>m_most_recent_ioctl_max := 2\<rparr>) 0 example_fs =
       close_file (example_session\<lparr>m_most_recent_ioctl_max := 2\<rparr>) example_fs"
    using execbuffer2_rotation_policy [of example_session True 0 example_fs]
          execbuffer2_rotation_policy
            [of "example_session\<lparr>m_most_recent_ioctl_max := 2\<rparr>" True 0 example_fs]
    by (simp add: example_session_def example_file_def example_fs_def)
  show ?thesis using first last by blast
qed

lemma length_record_bytes_value_event: "length (record_bytes value_event) = 12"
  by (simp add: record_bytes_def value_event_def)

theorem pre_execbuffer2_size_limit_zero_counterexample:
  "m_most_recent_ioctl_max unlimited_session = 0
   \<and> m_file unlimited_session = Some unlimited_file
   \<and> m_max_filesize unlimited_session < std_ftell unlimited_file
   \<and> pre_execbuffer2_ioctl_fcn True unlimited_session 0 example_fs =
        Inr (unlimited_session, std_fflush unlimited_file example_fs)
   \<and> pre_execbuffer2_ioctl_fcn True unlimited_session 0 example_fs
        \<noteq> start_new_file True unlimited_session example_fs"
proof -
  have a: "m_most_recent_ioctl_max unlimited_session = 0"
    "m_file unlimited_session = Some unlimited_file"
    "m_max_filesize unlimited_session = 0"
    "m_count unlimited_session = 1"
    by (simp_all add: unlimited_session_def example_session_def)
  have b: "std_ftell unlimited_file = 12"
    by (simp add: std_ftell_def unlimited_file_def length_record_bytes_value_event)
  have c: "pre_execbuffer2_ioctl_fcn True unlimited_session 0 example_fs =
        Inr (unlimited_session, std_fflush unlimited_file example_fs)"
    by (simp add: pre_execbuffer2_ioctl_fcn_def a)
  have d: "start_new_file True unlimited_session example_fs
             \<noteq> Inr (unlimited_session, std_fflush unlimited_file example_fs)"
  proof
    assume "start_new_file True unlimited_session example_fs
              = Inr (unlimited_session, std_fflush unlimited_file example_fs)"
    from start_new_file_observed [OF this] show False by (simp add: a)
  qed
  show ?thesis using a b c d by simp
qed


lemma small_limit_run:
  "Session_ctor 0 5 ''log'' True 0 \<lparr>disk = Map.empty, journal = []\<rparr> =
     Inr (small_limit_session, 1, small_limit_fs)"
  "run small_limit_calls (small_limit_session, small_limit_fs) =
   Inr (small_limit_session
          \<lparr>m_count := 2, m_filename := ''log-1.1'',
           m_file := Some \<lparr>f_path = ''log-1.1'', f_data = []\<rparr>\<rparr>,
        \<lparr>disk = [''log-1.0'' \<mapsto> records_bytes [value_event, value_event, value_event],
                 ''log-1.1'' \<mapsto> []],
         journal = [Fopen ''log-1.0'' True,
                    Fclose ''log-1.0'' (records_bytes [value_event, value_event, value_event]),
                    Fopen ''log-1.1'' True]\<rparr>)"
proof -
  show "Session_ctor 0 5 ''log'' True 0 \<lparr>disk = Map.empty, journal = []\<rparr> =
     Inr (small_limit_session, 1, small_limit_fs)"
    by (simp add: small_limit_fs_def Session_ctor_def start_new_file_def close_file_def Let_def std_fopen_def
        decimal_digit digit_char_def small_limit_session_def)
  show "run small_limit_calls (small_limit_session, small_limit_fs) =
   Inr (small_limit_session
          \<lparr>m_count := 2, m_filename := ''log-1.1'',
           m_file := Some \<lparr>f_path = ''log-1.1'', f_data = []\<rparr>\<rparr>,
        \<lparr>disk = [''log-1.0'' \<mapsto> records_bytes [value_event, value_event, value_event],
                 ''log-1.1'' \<mapsto> []],
         journal = [Fopen ''log-1.0'' True,
                    Fclose ''log-1.0'' (records_bytes [value_event, value_event, value_event]),
                    Fopen ''log-1.1'' True]\<rparr>)"
    by (simp add: small_limit_fs_def small_limit_calls_def small_limit_session_def write_fcn_def write_to_file_eq
        pre_execbuffer2_ioctl_fcn_def std_ftell_def start_new_file_def close_file_def Let_def
        std_fopen_def std_fclose_def decimal_digit digit_char_def records_bytes_def
        record_bytes_def value_event_def)
qed


lemma records_bytes_Nil: "records_bytes [] = []"
  by (simp add: records_bytes_def)

lemma length_records_bytes_value_events:
  "length (records_bytes [value_event, value_event]) = 24"
  "length (records_bytes [value_event, value_event, value_event]) = 36"
  by (simp_all add: records_bytes_def length_record_bytes_value_event)

theorem size_limit_single_record_counterexample:
  "Session_ctor 0 5 ''log'' True 0 \<lparr>disk = Map.empty, journal = []\<rparr> =
     Inr (small_limit_session, 1, small_limit_fs)
   \<and> m_most_recent_ioctl_max small_limit_session = 0
   \<and> m_max_filesize small_limit_session = 5
   \<and> map_sum id (\<lambda>s. journal (snd s)) (run small_limit_calls (small_limit_session, small_limit_fs)) =
       Inr [Fopen ''log-1.0'' True,
            Fclose ''log-1.0'' (records_bytes [value_event, value_event, value_event]),
            Fopen ''log-1.1'' True]
   \<and> m_max_filesize small_limit_session < int (length (records_bytes [value_event, value_event]))
   \<and> m_max_filesize small_limit_session + int (length (record_bytes value_event))
        < int (length (records_bytes [value_event, value_event, value_event]))"
  by (simp add: small_limit_run length_records_bytes_value_events
      length_record_bytes_value_event)
     (simp add: small_limit_session_def)

text \<open>
  C4. With retention off and a maximum file size above 0, the size is looked at
  at the pre-dispatch boundary only: a file larger than the maximum is closed there (after
  its closing BlockEnd records) and a new file is started, which holds the replay of the
  block stack; a file within the maximum is flushed and stays the current file. So a
  file that stays open across a pre-dispatch boundary has at most the maximum size there, and
  it can exceed the maximum by everything that is written until the next one.
\<close>

theorem size_limit_checked_at_pre_dispatch:
  assumes "m_most_recent_ioctl_max p = 0" and "0 < m_max_filesize p"
    and "stack_fits (m_block_stack p)"
  shows "\<exists>p1 w1. pre_execbuffer2_ioctl_fcn fopen_ok p ioctl_id w = Inr (p1, w1)
     \<and> (case m_file p1 of
           None \<Rightarrow> True
         | Some file1 \<Rightarrow>
             (m_file p = Some file1 \<and> int (length (f_data file1)) \<le> m_max_filesize p)
             \<or> file1 = \<lparr>f_path = new_filename p,
                         f_data = records_bytes (replay_events (m_block_stack p))\<rparr>)
     \<and> (case m_file p of
           None \<Rightarrow> p1 = p \<and> w1 = w
         | Some file \<Rightarrow>
             if m_max_filesize p < int (length (f_data file))
             then m_count p1 = m_count p + 1
                  \<and> journal w1 =
                      journal w @
                      [Fclose (f_path file)
                         (f_data file @ records_bytes (closing_events (m_block_stack p))),
                       Fopen (new_filename p) fopen_ok]
             else p1 = p \<and> journal w1 = journal w @ [Fflush (f_path file)])"
proof (cases "m_file p")
  case None
  then show ?thesis using assms(1) by (simp add: pre_execbuffer2_ioctl_fcn_def)
next
  case (Some fl)
  show ?thesis
  proof (cases "m_max_filesize p < int (length (f_data fl))")
    case False
    then show ?thesis
      using Some assms(1)
      by (simp add: pre_execbuffer2_ioctl_fcn_def std_ftell_def std_fflush_def)
  next
    case True
    have c: "close_file p w =
       Inr (p\<lparr>m_file := None\<rparr>,
            std_fclose (fl\<lparr>f_data := f_data fl
                              @ records_bytes (closing_events (m_block_stack p))\<rparr>) w)"
      using Some assms(1) by (rule close_file_no_retention)
    show ?thesis
      using True Some assms(1,2)
      by (simp add: pre_execbuffer2_ioctl_fcn_def std_ftell_def start_new_file_Inr [OF c assms(3)]
          std_fclose_def)
  qed
qed

theorem size_limit_checked_at_pre_dispatch_witness:
  "m_most_recent_ioctl_max small_limit_full = 0 \<and> 0 < m_max_filesize small_limit_full
   \<and> stack_fits (m_block_stack small_limit_full)
   \<and> (\<exists>p1 w1. pre_execbuffer2_ioctl_fcn True small_limit_full 0 small_limit_fs = Inr (p1, w1)
        \<and> m_file p1 = Some \<lparr>f_path = ''log-1.1'', f_data = []\<rparr>
        \<and> m_count p1 = 2
        \<and> journal w1 =
             [Fopen ''log-1.0'' True,
              Fclose ''log-1.0'' (records_bytes [value_event, value_event, value_event]),
              Fopen ''log-1.1'' True])"
proof -
  have a: "m_most_recent_ioctl_max small_limit_full = 0"
    by (simp add: small_limit_full_def small_limit_session_def)
  have b: "0 < m_max_filesize small_limit_full"
    by (simp add: small_limit_full_def small_limit_session_def)
  have c: "stack_fits (m_block_stack small_limit_full)"
    by (simp add: small_limit_full_def small_limit_session_def stack_fits_def)
  have n: "new_filename small_limit_full = ''log-1.1''"
    by (simp add: new_filename_def small_limit_full_def small_limit_session_def
        decimal_digit digit_char_def)
  have f: "m_file small_limit_full =
      Some \<lparr>f_path = ''log-1.0'',
            f_data = records_bytes [value_event, value_event, value_event]\<rparr>"
      "m_max_filesize small_limit_full = 5" "m_count small_limit_full = 1"
      "m_block_stack small_limit_full = []"
    by (simp_all add: small_limit_full_def small_limit_session_def)
  from size_limit_checked_at_pre_dispatch [OF a b c, of True 0 small_limit_fs]
  obtain p1 w1 where
    r: "pre_execbuffer2_ioctl_fcn True small_limit_full 0 small_limit_fs = Inr (p1, w1)"
    and m: "(case m_file p1 of
           None \<Rightarrow> True
         | Some file1 \<Rightarrow>
             (m_file small_limit_full = Some file1
              \<and> int (length (f_data file1)) \<le> m_max_filesize small_limit_full)
             \<or> file1 = \<lparr>f_path = new_filename small_limit_full,
                         f_data = records_bytes (replay_events (m_block_stack small_limit_full))\<rparr>)"
    and j: "(case m_file small_limit_full of
           None \<Rightarrow> p1 = small_limit_full \<and> w1 = small_limit_fs
         | Some file \<Rightarrow>
             if m_max_filesize small_limit_full < int (length (f_data file))
             then m_count p1 = m_count small_limit_full + 1
                  \<and> journal w1 =
                      journal small_limit_fs @
                      [Fclose (f_path file)
                         (f_data file
                          @ records_bytes (closing_events (m_block_stack small_limit_full))),
                       Fopen (new_filename small_limit_full) True]
             else p1 = small_limit_full
                  \<and> journal w1 = journal small_limit_fs @ [Fflush (f_path file)])"
    by blast
  have j1: "m_count p1 = 2 \<and> journal w1 =
             [Fopen ''log-1.0'' True,
              Fclose ''log-1.0'' (records_bytes [value_event, value_event, value_event]),
              Fopen ''log-1.1'' True]"
    using j by (simp add: f n length_records_bytes_value_events small_limit_fs_def
        closing_events_def) (simp add: records_bytes_def)
  have e: "pre_execbuffer2_ioctl_fcn True small_limit_full 0 small_limit_fs =
     start_new_file True small_limit_full small_limit_fs"
    by (simp add: pre_execbuffer2_ioctl_fcn_def a f std_ftell_def
        length_records_bytes_value_events)
  have "m_file p1 \<noteq> None"
    using start_new_file_observed [of True small_limit_full small_limit_fs p1 w1] r e by simp
  then have m1: "m_file p1 = Some \<lparr>f_path = ''log-1.1'', f_data = []\<rparr>"
    using m by (auto simp add: f n length_records_bytes_value_events replay_events_def
        records_bytes_Nil split: option.splits)
  show ?thesis using a b c r m1 j1 by blast
qed

section \<open>Every file is balanced\<close>

lemma le32_of_le32: "length c = 4 \<Longrightarrow> le32 (of_le32 c) = c"
proof -
  assume "length c = 4"
  then obtain b0 b1 b2 b3 where c: "c = [b0, b1, b2, b3]"
    by (auto simp add: length_Suc_conv numeral_eq_Suc)
  have 0: "ucast (ucast b0 OR push_bit 8 (ucast b1) OR push_bit 16 (ucast b2)
                  OR push_bit 24 (ucast b3) :: uint32_t) = b0"
    by (rule bit_word_eqI) (auto simp add: bit_simps dest: bit_imp_le_length)
  have 1: "ucast (drop_bit 8 (ucast b0 OR push_bit 8 (ucast b1) OR push_bit 16 (ucast b2)
                  OR push_bit 24 (ucast b3) :: uint32_t)) = b1"
    by (rule bit_word_eqI) (auto simp add: bit_simps dest: bit_imp_le_length)
  have 2: "ucast (drop_bit 16 (ucast b0 OR push_bit 8 (ucast b1) OR push_bit 16 (ucast b2)
                  OR push_bit 24 (ucast b3) :: uint32_t)) = b2"
    by (rule bit_word_eqI) (auto simp add: bit_simps dest: bit_imp_le_length)
  have 3: "ucast (drop_bit 24 (ucast b0 OR push_bit 8 (ucast b1) OR push_bit 16 (ucast b2)
                  OR push_bit 24 (ucast b3) :: uint32_t)) = b3"
    by (rule bit_word_eqI) (auto simp add: bit_simps dest: bit_imp_le_length)
  show ?thesis
    unfolding c le32_def of_le32_def list.case using 0 1 2 3 by simp
qed

lemma type_code_of: "type_of_code c = Some tp \<Longrightarrow> type_code tp = c"
  by (auto simp add: type_of_code_def type_code_def split: if_splits)

lemma decode_sound:
  "decode bs = Some evs \<Longrightarrow> bs = records_bytes evs \<and> list_all fits evs"
proof (induction bs arbitrary: evs rule: decode.induct)
  case (1 bs)
  show ?case
  proof (cases "bs = []")
    case True
    then show ?thesis using "1.prems" by (simp add: decode_empty records_bytes_def)
  next
    case False
    define w0 where "w0 = of_le32 (take 4 bs)"
    define w1 where "w1 = of_le32 (take 4 (drop 4 bs))"
    define w2 where "w2 = of_le32 (take 4 (drop 8 bs))"
    define body where "body = drop 12 bs"
    have unf: "decode bs =
      (if length bs < 12 then None
       else (case type_of_code w0 of None \<Rightarrow> None
             | Some tp \<Rightarrow>
                if length body < unat w1 + unat w2 then None
                else (case decode (drop (unat w1 + unat w2) body) of None \<Rightarrow> None
                      | Some evs1 \<Rightarrow>
                          Some ((tp, take (unat w1) body, take (unat w2) (drop (unat w1) body)) # evs1))))"
      unfolding w0_def w1_def w2_def body_def
      using False by (subst decode.simps) simp
    from "1.prems" unf have len: "\<not> length bs < 12"
      by (simp split: if_splits)
    from "1.prems" unf len obtain tp where tp: "type_of_code w0 = Some tp"
      by (cases "type_of_code w0") simp_all
    from "1.prems" unf len tp have blen: "\<not> length body < unat w1 + unat w2"
      by (simp split: if_splits)
    from "1.prems" unf len tp blen obtain evs1
      where rest: "decode (drop (unat w1 + unat w2) body) = Some evs1"
        and evs: "evs = (tp, take (unat w1) body, take (unat w2) (drop (unat w1) body)) # evs1"
      by (cases "decode (drop (unat w1 + unat w2) body)") simp_all
    have ih: "drop (unat w1 + unat w2) body = records_bytes evs1 \<and> list_all fits evs1"
      using "1.IH" [OF False len, of tp evs1] tp blen rest
      by (simp add: w0_def w1_def w2_def body_def)
    have hdr: "header_bytes tp w1 w2 = take 12 bs"
    proof -
      have "take (4 + (4 + 4)) bs = take 4 bs @ take 4 (drop 4 bs) @ take 4 (drop (4 + 4) bs)"
        by (simp only: take_add drop_drop)
      then have "take 12 bs = take 4 bs @ take 4 (drop 4 bs) @ take 4 (drop 8 bs)"
        by simp
      moreover have "le32 w0 = take 4 bs" "le32 w1 = take 4 (drop 4 bs)" "le32 w2 = take 4 (drop 8 bs)"
        using len by (simp_all add: w0_def w1_def w2_def le32_of_le32)
      ultimately show ?thesis
        by (simp add: header_bytes_def type_code_of [OF tp])
    qed
    have l1: "length (take (unat w1) body) = unat w1"
      and l2: "length (take (unat w2) (drop (unat w1) body)) = unat w2"
      using blen by simp_all
    have "record_bytes (tp, take (unat w1) body, take (unat w2) (drop (unat w1) body)) =
            take 12 bs @ take (unat w1) body @ take (unat w2) (drop (unat w1) body)"
      unfolding record_bytes_def prod.case l1 l2 by (simp add: hdr)
    moreover have "take (unat w1) body @ take (unat w2) (drop (unat w1) body)
                   @ drop (unat w1 + unat w2) body = body"
      by (metis append_take_drop_id drop_drop add.commute)
    moreover have "take 12 bs @ body = bs"
      by (simp add: body_def)
    ultimately have "bs = records_bytes evs"
      using ih by (simp add: evs records_bytes_def)
    moreover have "fits (tp, take (unat w1) body, take (unat w2) (drop (unat w1) body))"
    proof -
      have "unat w1 < 2 ^ 32" "unat w2 < 2 ^ 32"
        using unsigned_less [of w1, where 'a = nat] unsigned_less [of w2, where 'a = nat]
        by simp_all
      then show ?thesis unfolding fits_def prod.case l1 l2 by simp
    qed
    ultimately show ?thesis using ih by (simp add: evs)
  qed
qed


lemma records_bytes_append:
  "records_bytes (xs @ ys) = records_bytes xs @ records_bytes ys"
  by (simp add: records_bytes_def)

lemma decode_append_records:
  assumes "decode a = Some evs" and "list_all fits evs1"
  shows "decode (a @ records_bytes evs1) = Some (evs @ evs1)"
proof -
  from decode_sound [OF assms(1)] have a: "a = records_bytes evs" and f: "list_all fits evs"
    by simp_all
  have "\<forall>ev \<in> set (evs @ evs1). fits ev"
    using f assms(2) by (auto simp add: list_all_iff)
  from decode_records [OF this] show ?thesis
    by (simp add: a records_bytes_append)
qed

lemma nesting_append:
  "nesting (xs @ ys) d = (case nesting xs d of None \<Rightarrow> None | Some d1 \<Rightarrow> nesting ys d1)"
proof (induction xs arbitrary: d)
  case Nil
  show ?case by simp
next
  case (Cons ev xs)
  obtain tp name "value" where ev: "ev = (tp, name, value)" by (cases ev)
  show ?case
    by (cases tp; cases d) (simp_all add: ev Cons.IH)
qed

lemma nesting_replay: "nesting (replay_events stack) d = Some (d + length stack)"
  by (induction stack arbitrary: d) (simp_all add: replay_events_def)

lemma nesting_block_ends:
  "nesting (map (\<lambda>b. (I965_BATCHBUFFER_LOGGER_MESSAGE_BLOCK_END, [], [])) xs) (d + length xs) = Some d"
  by (induction xs arbitrary: d) simp_all

lemma nesting_closing: "nesting (closing_events stack) (length stack) = Some 0"
  using nesting_block_ends [of "rev stack" 0] by (simp add: closing_events_def)

lemma nesting_counts:
  "nesting evs d = Some d1 \<Longrightarrow>
   d + count_type I965_BATCHBUFFER_LOGGER_MESSAGE_BLOCK_BEGIN evs
     = d1 + count_type I965_BATCHBUFFER_LOGGER_MESSAGE_BLOCK_END evs"
proof (induction evs arbitrary: d)
  case Nil
  then show ?case by (simp add: count_type_def)
next
  case (Cons ev evs)
  obtain tp name "value" where ev: "ev = (tp, name, value)" by (cases ev)
  show ?case
  proof (cases tp)
    case I965_BATCHBUFFER_LOGGER_MESSAGE_BLOCK_BEGIN
    then show ?thesis
      using Cons.IH [of "Suc d"] Cons.prems by (simp add: ev count_type_def)
  next
    case I965_BATCHBUFFER_LOGGER_MESSAGE_BLOCK_END
    then show ?thesis
      using Cons.prems Cons.IH [of "d - 1"] by (cases d) (simp_all add: ev count_type_def)
  next
    case I965_BATCHBUFFER_LOGGER_MESSAGE_VALUE
    then show ?thesis
      using Cons.IH [of d] Cons.prems by (simp add: ev count_type_def)
  qed
qed

lemma fits_replay: "stack_fits stack \<Longrightarrow> list_all fits (replay_events stack)"
  by (induction stack) (simp_all add: stack_fits_def replay_events_def fits_def)

lemma fits_closing: "list_all fits (closing_events stack)"
  by (simp add: closing_events_def list_all_iff fits_def)

lemma closed_file_balanced:
  assumes "m_file p = Some fl" and "open_file_ok p"
  shows "balanced_file (f_data fl @ records_bytes (closing_events (m_block_stack p)))"
proof -
  from assms obtain evs where d: "decode (f_data fl) = Some evs"
    and n: "nesting evs 0 = Some (length (m_block_stack p))"
    by (auto simp add: open_file_ok_def split: option.splits)
  have d1: "decode (f_data fl @ records_bytes (closing_events (m_block_stack p))) =
          Some (evs @ closing_events (m_block_stack p))"
    by (rule decode_append_records [OF d fits_closing])
  have n1: "nesting (evs @ closing_events (m_block_stack p)) 0 = Some 0"
    by (simp add: nesting_append n nesting_closing)
  from nesting_counts [OF n1] show ?thesis
    by (simp add: balanced_file_def d1 balanced_def n1)
qed

lemma closed_files_append:
  "closed_files (xs @ ys) = closed_files xs @ closed_files ys"
  by (induction xs rule: closed_files.induct) simp_all

lemma closed_files_Remove: "closed_files (map Remove paths) = []"
  by (induction paths) simp_all


lemma take_unat_length:
  fixes xs :: "byte list"
  defines "w \<equiv> (of_nat (length xs) :: uint32_t)"
  shows "length (take (unat w) xs) < 2 ^ 32"
    and "(of_nat (length (take (unat w) xs)) :: uint32_t) = w"
proof -
  have "unat w = length xs mod 2 ^ 32"
    by (simp add: w_def unat_of_nat)
  then have le: "unat w \<le> length xs"
    by simp
  then have l: "length (take (unat w) xs) = unat w"
    by simp
  show "length (take (unat w) xs) < 2 ^ 32"
    unfolding l using unsigned_less [of w, where 'a = nat] by simp
  show "(of_nat (length (take (unat w) xs)) :: uint32_t) = w"
    unfolding l by simp
qed

lemma write_record_bytes:
  fixes name "value" :: "byte list"
  shows "header_bytes tp (of_nat (length name)) (of_nat (length value))
           @ take (unat (of_nat (length name) :: uint32_t)) name
           @ take (unat (of_nat (length value) :: uint32_t)) value =
         records_bytes [(tp, take (unat (of_nat (length name) :: uint32_t)) name,
                             take (unat (of_nat (length value) :: uint32_t)) value)]"
proof -
  define n1 where "n1 = take (unat (of_nat (length name) :: uint32_t)) name"
  define v1 where "v1 = take (unat (of_nat (length value) :: uint32_t)) value"
  have n: "(of_nat (length n1) :: uint32_t) = of_nat (length name)"
    unfolding n1_def by (rule take_unat_length(2))
  have v: "(of_nat (length v1) :: uint32_t) = of_nat (length value)"
    unfolding v1_def by (rule take_unat_length(2))
  have "header_bytes tp (of_nat (length name)) (of_nat (length value)) @ n1 @ v1 =
        records_bytes [(tp, n1, v1)]"
    by (simp add: records_bytes_def record_bytes_def n v)
  then show ?thesis by (simp only: n1_def v1_def)
qed

lemma write_fcn_files_ok:
  assumes "files_ok p w"
    and "write_fcn p tp name (of_nat (length name)) value (of_nat (length value)) = Inr p1"
  shows "files_ok p1 w"
proof -
  define n1 where "n1 = take (unat (of_nat (length name) :: uint32_t)) name"
  define v1 where "v1 = take (unat (of_nat (length value) :: uint32_t)) value"
  define stack1 where "stack1 =
     (case tp of
        I965_BATCHBUFFER_LOGGER_MESSAGE_BLOCK_BEGIN \<Rightarrow>
          m_block_stack p @ [\<lparr>m_name = n1, m_value = v1\<rparr>]
      | I965_BATCHBUFFER_LOGGER_MESSAGE_BLOCK_END \<Rightarrow> butlast (m_block_stack p)
      | I965_BATCHBUFFER_LOGGER_MESSAGE_VALUE \<Rightarrow> m_block_stack p)"
  have fit: "fits (tp, n1, v1)"
    unfolding fits_def prod.case n1_def v1_def
    using take_unat_length(1) [of name] take_unat_length(1) [of "value"] by blast
  have ne: "tp = I965_BATCHBUFFER_LOGGER_MESSAGE_BLOCK_END \<Longrightarrow> m_block_stack p \<noteq> []"
    using assms(2) by (auto simp add: write_fcn_def)
  have p1: "p1 = p\<lparr>m_block_stack := stack1,
                   m_file := map_option (\<lambda>f. f\<lparr>f_data := f_data f @ records_bytes [(tp, n1, v1)]\<rparr>)
                               (m_file p)\<rparr>"
    using assms(2) ne unfolding n1_def v1_def stack1_def write_record_bytes [symmetric]
    by (cases tp) (auto simp add: write_fcn_def write_to_file_eq Block_set_def)
  have sf: "stack_fits stack1"
    using assms(1) fit
    by (cases tp)
       (auto simp add: files_ok_def stack_fits_def stack1_def fits_def list_all_iff
          dest: in_set_butlastD)
  have nest: "nesting [(tp, n1, v1)] (length (m_block_stack p)) = Some (length stack1)"
  proof (cases tp)
    case I965_BATCHBUFFER_LOGGER_MESSAGE_BLOCK_END
    then obtain d where "length (m_block_stack p) = Suc d"
      using ne by (cases "m_block_stack p") auto
    then show ?thesis
      using I965_BATCHBUFFER_LOGGER_MESSAGE_BLOCK_END by (simp add: stack1_def)
  qed (simp_all add: stack1_def)
  have of: "open_file_ok p1"
  proof (cases "m_file p")
    case None
    then show ?thesis by (simp add: p1 open_file_ok_def)
  next
    case (Some fl)
    with assms(1) obtain evs where d: "decode (f_data fl) = Some evs"
      and n: "nesting evs 0 = Some (length (m_block_stack p))"
      by (auto simp add: files_ok_def open_file_ok_def split: option.splits)
    have "decode (f_data fl @ records_bytes [(tp, n1, v1)]) = Some (evs @ [(tp, n1, v1)])"
      using decode_append_records [OF d, of "[(tp, n1, v1)]"] fit by simp
    moreover have "nesting (evs @ [(tp, n1, v1)]) 0 = Some (length stack1)"
      unfolding nesting_append n using nest by simp
    ultimately show ?thesis
      using Some by (simp add: p1 open_file_ok_def)
  qed
  show ?thesis
    using assms(1) sf of by (simp add: files_ok_def p1)
qed

lemma close_file_files_ok:
  assumes "files_ok p w" and "close_file p w = Inr (p1, w1)"
  shows "files_ok p1 w1"
proof (cases "m_file p")
  case None
  then show ?thesis using assms by (simp add: close_file_None)
next
  case (Some fl)
  have b: "balanced_file (f_data fl @ records_bytes (closing_events (m_block_stack p)))"
    using Some assms(1) by (intro closed_file_balanced) (simp_all add: files_ok_def)
  from close_file_observed [OF assms(2) Some] obtain removed where
    j: "journal w1 = journal w @ Fclose (f_path fl)
              (f_data fl @ records_bytes (closing_events (m_block_stack p))) # map Remove removed"
    and f: "m_file p1 = None"
    by blast
  have c: "closed_files (journal w1) =
        closed_files (journal w) @ [f_data fl @ records_bytes (closing_events (m_block_stack p))]"
    by (simp add: j closed_files_append closed_files_Remove)
  show ?thesis
    using assms(1) b f close_file_frame(4) [OF assms(2)]
    by (simp add: files_ok_def c open_file_ok_def)
qed

lemma start_new_file_files_ok:
  assumes "files_ok p w" and "start_new_file fopen_ok p w = Inr (p1, w1)"
  shows "files_ok p1 w1"
proof -
  obtain pc wc where c: "close_file p w = Inr (pc, wc)"
    using assms(2) by (cases "close_file p w") (auto simp add: start_new_file_def)
  have okc: "files_ok pc wc"
    by (rule close_file_files_ok [OF assms(1) c])
  have sf: "stack_fits (m_block_stack p)"
    using assms(1) by (simp add: files_ok_def)
  have d: "decode (records_bytes (replay_events (m_block_stack p)))
             = Some (replay_events (m_block_stack p))"
    using fits_replay [OF sf] by (intro decode_records) (simp add: list_all_iff)
  have n: "nesting (replay_events (m_block_stack p)) 0 = Some (length (m_block_stack p))"
    by (simp add: nesting_replay)
  show ?thesis
    using assms(2) okc close_file_frame(4) [OF c]
    unfolding start_new_file_Inr [OF c sf]
    by (auto simp add: files_ok_def open_file_ok_def d n closed_files_append)
qed

lemma fflush_files_ok: "files_ok p w \<Longrightarrow> files_ok p (std_fflush fl w)"
  by (simp add: files_ok_def std_fflush_def closed_files_append)

lemma pre_execbuffer2_files_ok:
  assumes "files_ok p w" and "pre_execbuffer2_ioctl_fcn fopen_ok p ioctl_id w = Inr (p1, w1)"
  shows "files_ok p1 w1"
  using assms
  by (auto simp add: pre_execbuffer2_ioctl_fcn_def fflush_files_ok
      split: if_splits option.splits intro: start_new_file_files_ok)

lemma post_execbuffer2_files_ok:
  assumes "files_ok p w" and "post_execbuffer2_ioctl_fcn p ioctl_id w = Inr (p1, w1)"
  shows "files_ok p1 w1"
  using assms
  by (auto simp add: post_execbuffer2_ioctl_fcn_def fflush_files_ok
      split: if_splits option.splits intro: close_file_files_ok)

lemma invoke_files_ok:
  assumes "files_ok p w" and "invoke c (p, w) = Inr (p1, w1)"
  shows "files_ok p1 w1"
proof (cases c)
  case (Write tp name "value")
  then show ?thesis
    using assms by (auto split: sum.splits intro: write_fcn_files_ok)
next
  case (Pre_execbuffer2_ioctl ioctl_id fopen_ok)
  then show ?thesis
    using assms by (auto intro: pre_execbuffer2_files_ok)
next
  case (Post_execbuffer2_ioctl ioctl_id)
  then show ?thesis
    using assms by (auto intro: post_execbuffer2_files_ok)
qed

lemma run_files_ok:
  "files_ok p w \<Longrightarrow> run calls (p, w) = Inr (p1, w1) \<Longrightarrow> files_ok p1 w1"
proof (induction calls arbitrary: p w)
  case Nil
  then show ?case by simp
next
  case (Cons c calls)
  from Cons.prems(2) obtain p2 w2 where i: "invoke c (p, w) = Inr (p2, w2)"
    and r: "run calls (p2, w2) = Inr (p1, w1)"
    by (cases "invoke c (p, w)") auto
  from Cons.IH [OF invoke_files_ok [OF Cons.prems(1) i] r] show ?case .
qed

lemma Session_ctor_files_ok:
  assumes "Session_ctor most_recent max_size prefix fopen_ok count w = Inr (p1, count1, w1)"
    and "list_all balanced_file (closed_files (journal w))"
  shows "files_ok p1 w1"
proof -
  define p where "p =
     \<lparr>m_most_recent_ioctl_max = most_recent, m_max_filesize = max_size, m_count = 0,
      m_most_recent_ioctl_file_cnt = 0, m_most_recent_ioctl_files = [], m_block_stack = [],
      m_prefix = (if most_recent = 0
                  then prefix @ ''-'' @ decimal (unat (if most_recent = 0 then count + 1 else count))
                  else prefix),
      m_filename = [], m_file = None\<rparr>"
  have ok: "files_ok p w"
    using assms(2) by (simp add: files_ok_def p_def stack_fits_def open_file_ok_def)
  have "start_new_file fopen_ok p w = Inr (p1, w1)"
    using assms(1) by (auto simp add: Session_ctor_def Let_def p_def split: sum.splits)
  from start_new_file_files_ok [OF ok this] show ?thesis .
qed

lemma Session_dtor_balanced:
  assumes "files_ok p w" and "Session_dtor p w = Inr w1"
  shows "list_all balanced_file (closed_files (journal w1))"
proof -
  from assms(2) obtain p1 where "close_file p w = Inr (p1, w1)"
    by (auto simp add: Session_dtor_def split: sum.splits)
  from close_file_files_ok [OF assms(1) this] show ?thesis
    by (simp add: files_ok_def)
qed


lemma close_file_returns:
  assumes "ring_ok p"
  shows "\<exists>p1 w1. close_file p w = Inr (p1, w1)"
proof (cases "m_file p")
  case None
  then show ?thesis by (simp add: close_file_None)
next
  case (Some fl)
  show ?thesis
  proof (cases "m_most_recent_ioctl_max p = 0")
    case True
    from close_file_no_retention [OF Some True] show ?thesis by blast
  next
    case False
    then have "0 < m_most_recent_ioctl_max p" by (simp add: word_neq_0_conv)
    from close_file_retention [OF Some this assms] show ?thesis by blast
  qed
qed

lemma start_new_file_returns:
  assumes "ring_ok p"
  shows "\<exists>p1 w1. start_new_file fopen_ok p w = Inr (p1, w1)"
proof -
  from close_file_returns [OF assms] obtain pc wc where "close_file p w = Inr (pc, wc)"
    by blast
  then show ?thesis by (simp add: start_new_file_def Let_def)
qed

text \<open>
  C1. In a state where the open file decodes to events that leave open as many blocks as
  the block stack holds: \<open>start_new_file\<close> first closes the current file and then
  opens the next one, in which the blocks of the stack stand as BlockBegin records,
  outermost first, before anything else; \<open>close_file\<close> with a file open writes one
  BlockEnd record for each block of the stack and then closes the file, and the file
  closed is balanced; both return when the retained names are as many as their counter
  says. The constructor leaves such a state, every callback keeps it, and so every file
  closed by the callbacks and by the destructor decodes, on its own, to a balanced
  sequence of events: as many BlockBegin as BlockEnd, properly nested.
\<close>

theorem every_file_is_balanced:
  assumes "files_ok p w"
  shows
  "(\<forall>p1 w1. start_new_file fopen_ok p w = Inr (p1, w1) \<longrightarrow>
       (\<exists>pc wc. close_file p w = Inr (pc, wc)
          \<and> journal w1 = journal wc @ [Fopen (new_filename p) fopen_ok])
       \<and> m_block_stack p1 = m_block_stack p
       \<and> m_file p1 =
           (if fopen_ok
            then Some \<lparr>f_path = new_filename p,
                       f_data = records_bytes (replay_events (m_block_stack p))\<rparr>
            else None))
   \<and> (\<forall>p1 w1 file. close_file p w = Inr (p1, w1) \<and> m_file p = Some file \<longrightarrow>
         m_file p1 = None \<and> m_block_stack p1 = m_block_stack p
         \<and> length (closing_events (m_block_stack p)) = length (m_block_stack p)
         \<and> (\<exists>removed. journal w1 =
               journal w @ Fclose (f_path file)
                             (f_data file @ records_bytes (closing_events (m_block_stack p)))
                           # map Remove removed)
         \<and> balanced_file (f_data file @ records_bytes (closing_events (m_block_stack p))))
   \<and> (ring_ok p \<longrightarrow>
         (\<exists>p1 w1. close_file p w = Inr (p1, w1))
         \<and> (\<exists>p1 w1. start_new_file fopen_ok p w = Inr (p1, w1)))
   \<and> (\<forall>p1 w1. run calls (p, w) = Inr (p1, w1) \<longrightarrow>
         files_ok p1 w1
         \<and> list_all balanced_file (closed_files (journal w1))
         \<and> (\<forall>w2. Session_dtor p1 w1 = Inr w2 \<longrightarrow>
               list_all balanced_file (closed_files (journal w2))))
   \<and> (\<forall>p0 count0 w0.
         Session_ctor most_recent max_size prefix fopen_ok count w = Inr (p0, count0, w0) \<longrightarrow>
         files_ok p0 w0)"
proof -
  have sf: "stack_fits (m_block_stack p)"
    using assms by (simp add: files_ok_def)
  have a: "\<forall>p1 w1. start_new_file fopen_ok p w = Inr (p1, w1) \<longrightarrow>
       (\<exists>pc wc. close_file p w = Inr (pc, wc)
          \<and> journal w1 = journal wc @ [Fopen (new_filename p) fopen_ok])
       \<and> m_block_stack p1 = m_block_stack p
       \<and> m_file p1 =
           (if fopen_ok
            then Some \<lparr>f_path = new_filename p,
                       f_data = records_bytes (replay_events (m_block_stack p))\<rparr>
            else None)"
  proof (intro allI impI)
    fix p1 w1
    assume s: "start_new_file fopen_ok p w = Inr (p1, w1)"
    obtain pc wc where c: "close_file p w = Inr (pc, wc)"
      using s by (cases "close_file p w") (auto simp add: start_new_file_def)
    have "journal w1 = journal wc @ [Fopen (new_filename p) fopen_ok]"
      and "m_block_stack p1 = m_block_stack p"
      and "m_file p1 =
           (if fopen_ok
            then Some \<lparr>f_path = new_filename p,
                       f_data = records_bytes (replay_events (m_block_stack p))\<rparr>
            else None)"
      using s close_file_frame(4) [OF c] unfolding start_new_file_Inr [OF c sf] by auto
    then show "(\<exists>pc wc. close_file p w = Inr (pc, wc)
          \<and> journal w1 = journal wc @ [Fopen (new_filename p) fopen_ok])
       \<and> m_block_stack p1 = m_block_stack p
       \<and> m_file p1 =
           (if fopen_ok
            then Some \<lparr>f_path = new_filename p,
                       f_data = records_bytes (replay_events (m_block_stack p))\<rparr>
            else None)"
      using c by blast
  qed
  have b: "\<forall>p1 w1 file. close_file p w = Inr (p1, w1) \<and> m_file p = Some file \<longrightarrow>
         m_file p1 = None \<and> m_block_stack p1 = m_block_stack p
         \<and> length (closing_events (m_block_stack p)) = length (m_block_stack p)
         \<and> (\<exists>removed. journal w1 =
               journal w @ Fclose (f_path file)
                             (f_data file @ records_bytes (closing_events (m_block_stack p)))
                           # map Remove removed)
         \<and> balanced_file (f_data file @ records_bytes (closing_events (m_block_stack p)))"
  proof (intro allI impI, elim conjE)
    fix p1 w1 fl
    assume c: "close_file p w = Inr (p1, w1)" and f: "m_file p = Some fl"
    have "balanced_file (f_data fl @ records_bytes (closing_events (m_block_stack p)))"
      using f assms by (intro closed_file_balanced) (simp_all add: files_ok_def)
    then show "m_file p1 = None \<and> m_block_stack p1 = m_block_stack p
         \<and> length (closing_events (m_block_stack p)) = length (m_block_stack p)
         \<and> (\<exists>removed. journal w1 =
               journal w @ Fclose (f_path fl)
                             (f_data fl @ records_bytes (closing_events (m_block_stack p)))
                           # map Remove removed)
         \<and> balanced_file (f_data fl @ records_bytes (closing_events (m_block_stack p)))"
      using close_file_observed [OF c f] close_file_frame(4) [OF c]
      by (simp add: closing_events_def)
  qed
  have c: "ring_ok p \<longrightarrow>
         (\<exists>p1 w1. close_file p w = Inr (p1, w1))
         \<and> (\<exists>p1 w1. start_new_file fopen_ok p w = Inr (p1, w1))"
    using close_file_returns start_new_file_returns by blast
  have d: "\<forall>p1 w1. run calls (p, w) = Inr (p1, w1) \<longrightarrow>
         files_ok p1 w1
         \<and> list_all balanced_file (closed_files (journal w1))
         \<and> (\<forall>w2. Session_dtor p1 w1 = Inr w2 \<longrightarrow>
               list_all balanced_file (closed_files (journal w2)))"
  proof (intro allI impI)
    fix p1 w1
    assume "run calls (p, w) = Inr (p1, w1)"
    from run_files_ok [OF assms this] have ok: "files_ok p1 w1" .
    then show "files_ok p1 w1
         \<and> list_all balanced_file (closed_files (journal w1))
         \<and> (\<forall>w2. Session_dtor p1 w1 = Inr w2 \<longrightarrow>
               list_all balanced_file (closed_files (journal w2)))"
      using Session_dtor_balanced [OF ok] by (simp add: files_ok_def)
  qed
  have e: "\<forall>p0 count0 w0.
         Session_ctor most_recent max_size prefix fopen_ok count w = Inr (p0, count0, w0) \<longrightarrow>
         files_ok p0 w0"
    using Session_ctor_files_ok assms by (auto simp add: files_ok_def)
  show ?thesis using a b c d e by blast
qed


lemma nested_run:
  "run nested_calls (small_limit_session, small_limit_fs) =
   Inr (small_limit_session
          \<lparr>m_count := 3, m_filename := ''log-1.2'',
           m_block_stack := [\<lparr>m_name = [1, 2], m_value = [3]\<rparr>],
           m_file := Some \<lparr>f_path = ''log-1.2'',
                           f_data = records_bytes
                             [(I965_BATCHBUFFER_LOGGER_MESSAGE_BLOCK_BEGIN, [1, 2], [3])]\<rparr>\<rparr>,
        \<lparr>disk = [''log-1.0'' \<mapsto> records_bytes
                                  [(I965_BATCHBUFFER_LOGGER_MESSAGE_BLOCK_BEGIN, [1, 2], [3]),
                                   (I965_BATCHBUFFER_LOGGER_MESSAGE_BLOCK_END, [], [])],
                 ''log-1.1'' \<mapsto> records_bytes
                                  [(I965_BATCHBUFFER_LOGGER_MESSAGE_BLOCK_BEGIN, [1, 2], [3]),
                                   (I965_BATCHBUFFER_LOGGER_MESSAGE_VALUE, [], [4]),
                                   (I965_BATCHBUFFER_LOGGER_MESSAGE_BLOCK_END, [], [])],
                 ''log-1.2'' \<mapsto> []],
         journal = [Fopen ''log-1.0'' True,
                    Fclose ''log-1.0''
                      (records_bytes
                         [(I965_BATCHBUFFER_LOGGER_MESSAGE_BLOCK_BEGIN, [1, 2], [3]),
                          (I965_BATCHBUFFER_LOGGER_MESSAGE_BLOCK_END, [], [])]),
                    Fopen ''log-1.1'' True,
                    Fclose ''log-1.1''
                      (records_bytes
                         [(I965_BATCHBUFFER_LOGGER_MESSAGE_BLOCK_BEGIN, [1, 2], [3]),
                          (I965_BATCHBUFFER_LOGGER_MESSAGE_VALUE, [], [4]),
                          (I965_BATCHBUFFER_LOGGER_MESSAGE_BLOCK_END, [], [])]),
                    Fopen ''log-1.2'' True]\<rparr>)"
  by (simp add: small_limit_fs_def nested_calls_def small_limit_session_def write_fcn_def
      write_to_file_eq Block_set_def Block_name_def Block_value_def Block_name_length_def
      Block_value_length_def
      pre_execbuffer2_ioctl_fcn_def std_ftell_def start_new_file_def close_file_def Let_def
      std_fopen_def std_fclose_def decimal_digit digit_char_def records_bytes_def
      record_bytes_def)

theorem every_file_is_balanced_witness:
  "files_ok small_limit_session small_limit_fs
   \<and> ring_ok small_limit_session
   \<and> Session_ctor 0 5 ''log'' True 0 \<lparr>disk = Map.empty, journal = []\<rparr> =
       Inr (small_limit_session, 1, small_limit_fs)
   \<and> (\<exists>p1 w1. run nested_calls (small_limit_session, small_limit_fs) = Inr (p1, w1)
         \<and> closed_files (journal w1) =
             [records_bytes [(I965_BATCHBUFFER_LOGGER_MESSAGE_BLOCK_BEGIN, [1, 2], [3]),
                             (I965_BATCHBUFFER_LOGGER_MESSAGE_BLOCK_END, [], [])],
              records_bytes [(I965_BATCHBUFFER_LOGGER_MESSAGE_BLOCK_BEGIN, [1, 2], [3]),
                             (I965_BATCHBUFFER_LOGGER_MESSAGE_VALUE, [], [4]),
                             (I965_BATCHBUFFER_LOGGER_MESSAGE_BLOCK_END, [], [])]]
         \<and> list_all balanced_file (closed_files (journal w1))
         \<and> files_ok p1 w1
         \<and> (\<exists>p2 w2. close_file p1 w1 = Inr (p2, w2))
         \<and> (\<exists>p2 w2. start_new_file True p1 w1 = Inr (p2, w2)
               \<and> m_file p2 =
                   Some \<lparr>f_path = ''log-1.3'',
                         f_data = records_bytes
                           [(I965_BATCHBUFFER_LOGGER_MESSAGE_BLOCK_BEGIN, [1, 2], [3])]\<rparr>))"
proof -
  have ok: "files_ok small_limit_session small_limit_fs"
    by (simp add: files_ok_def small_limit_session_def small_limit_fs_def stack_fits_def
        open_file_ok_def decode_empty)
  have ring: "ring_ok small_limit_session"
    by (simp add: ring_ok_def small_limit_session_def)
  note t = every_file_is_balanced [OF ok, of True nested_calls 0 5 "''log''" 0]
  obtain p1 w1 where r: "run nested_calls (small_limit_session, small_limit_fs) = Inr (p1, w1)"
    using nested_run by blast
  have p1: "p1 = small_limit_session
          \<lparr>m_count := 3, m_filename := ''log-1.2'',
           m_block_stack := [\<lparr>m_name = [1, 2], m_value = [3]\<rparr>],
           m_file := Some \<lparr>f_path = ''log-1.2'',
                           f_data = records_bytes
                             [(I965_BATCHBUFFER_LOGGER_MESSAGE_BLOCK_BEGIN, [1, 2], [3])]\<rparr>\<rparr>"
    using r unfolding nested_run by simp
  have j: "closed_files (journal w1) =
             [records_bytes [(I965_BATCHBUFFER_LOGGER_MESSAGE_BLOCK_BEGIN, [1, 2], [3]),
                             (I965_BATCHBUFFER_LOGGER_MESSAGE_BLOCK_END, [], [])],
              records_bytes [(I965_BATCHBUFFER_LOGGER_MESSAGE_BLOCK_BEGIN, [1, 2], [3]),
                             (I965_BATCHBUFFER_LOGGER_MESSAGE_VALUE, [], [4]),
                             (I965_BATCHBUFFER_LOGGER_MESSAGE_BLOCK_END, [], [])]]"
    using r unfolding nested_run by auto
  from t r have ok1: "files_ok p1 w1" and bal: "list_all balanced_file (closed_files (journal w1))"
    by blast+
  have ring1: "ring_ok p1"
    by (simp add: p1 ring_ok_def small_limit_session_def)
  note t1 = every_file_is_balanced [OF ok1, of True "[]" 0 5 "''log''" 0]
  from t1 ring1 obtain p2 w2 p3 w3 where c: "close_file p1 w1 = Inr (p2, w2)"
    and s: "start_new_file True p1 w1 = Inr (p3, w3)"
    by blast
  have n: "new_filename p1 = ''log-1.3''"
    by (simp add: p1 new_filename_def small_limit_session_def decimal_digit digit_char_def)
  have "m_file p3 = Some \<lparr>f_path = ''log-1.3'',
                         f_data = records_bytes
                           [(I965_BATCHBUFFER_LOGGER_MESSAGE_BLOCK_BEGIN, [1, 2], [3])]\<rparr>"
    using t1 s n by (simp add: p1 replay_events_def)
  then show ?thesis
    using ok ring small_limit_run(1) r j bal ok1 c s by blast
qed

section \<open>Retention\<close>

lemma closed_paths_append:
  "closed_paths (xs @ ys) = closed_paths xs @ closed_paths ys"
  by (induction xs rule: closed_paths.induct) simp_all

lemma removed_paths_append:
  "removed_paths (xs @ ys) = removed_paths xs @ removed_paths ys"
  by (induction xs rule: removed_paths.induct) simp_all

lemma closed_paths_Remove: "closed_paths (map Remove paths) = []"
  by (induction paths) simp_all

lemma removed_paths_Remove: "removed_paths (map Remove paths) = paths"
  by (induction paths) simp_all

lemma ring_length:
  assumes "ring_ok p"
  shows "length (m_most_recent_ioctl_files p) < 2 ^ 32"
proof -
  have "unat (m_most_recent_ioctl_max p) < 2 ^ 32"
    using unsigned_less [of "m_most_recent_ioctl_max p", where 'a = nat] by simp
  then show ?thesis using assms by (simp add: ring_ok_def)
qed

lemma close_file_retention_step:
  assumes "m_file p = Some fl" and "0 < m_most_recent_ioctl_max p" and "ring_ok p"
  shows "\<exists>p1 w1. close_file p w = Inr (p1, w1)
     \<and> m_most_recent_ioctl_files p1 =
         (if length (m_most_recent_ioctl_files p) < unat (m_most_recent_ioctl_max p)
          then m_most_recent_ioctl_files p else tl (m_most_recent_ioctl_files p))
         @ [m_filename p]
     \<and> m_most_recent_ioctl_file_cnt p1 = of_nat (length (m_most_recent_ioctl_files p1))
     \<and> length (m_most_recent_ioctl_files p1) \<le> unat (m_most_recent_ioctl_max p)
     \<and> m_most_recent_ioctl_max p1 = m_most_recent_ioctl_max p
     \<and> m_file p1 = None
     \<and> journal w1 =
         journal w
         @ Fclose (f_path fl) (f_data fl @ records_bytes (closing_events (m_block_stack p)))
         # map Remove (if length (m_most_recent_ioctl_files p) < unat (m_most_recent_ioctl_max p)
                       then [] else [hd (m_most_recent_ioctl_files p)])"
proof -
  let ?fs = "m_most_recent_ioctl_files p"
  let ?N = "unat (m_most_recent_ioctl_max p)"
  have le: "length ?fs \<le> ?N" and cnt: "m_most_recent_ioctl_file_cnt p = of_nat (length ?fs)"
    using assms(3) by (simp_all add: ring_ok_def)
  have pos: "0 < ?N"
    using assms(2) by (simp add: word_less_nat_alt)
  note c = close_file_retention [OF assms, of w]
  show ?thesis
  proof (cases "length ?fs < ?N")
    case True
    then have k: "length ?fs + 1 - ?N = 0" by simp
    show ?thesis
      unfolding c k using True
      by (simp add: std_fclose_def remove_all_def)
  next
    case False
    then have eq: "length ?fs = ?N" using le by simp
    then have k: "length ?fs + 1 - ?N = 1" by simp
    obtain x xs where xs: "?fs = x # xs"
      using eq pos by (cases ?fs) auto
    show ?thesis
      unfolding c k using False eq xs
      by (simp add: std_fclose_def remove_all_def std_remove_def)
  qed
qed


lemma ring_step:
  assumes "0 < N"
  shows "(if length (drop (length cl - N) cl) < N
          then drop (length cl - N) cl else tl (drop (length cl - N) cl)) @ [x]
         = drop (length (cl @ [x]) - N) (cl @ [x])"
    and "take (length cl - N) cl
         @ (if length (drop (length cl - N) cl) < N then [] else [hd (drop (length cl - N) cl)])
         = take (length (cl @ [x]) - N) (cl @ [x])"
proof -
  show "(if length (drop (length cl - N) cl) < N
          then drop (length cl - N) cl else tl (drop (length cl - N) cl)) @ [x]
         = drop (length (cl @ [x]) - N) (cl @ [x])"
  proof (cases "length cl < N")
    case True
    then show ?thesis by simp
  next
    case False
    then have "length (cl @ [x]) - N = Suc (length cl - N)" by simp
    moreover have "\<not> length (drop (length cl - N) cl) < N"
      using False by simp
    ultimately show ?thesis
      using False assms by (simp add: drop_Suc tl_drop)
  qed
  show "take (length cl - N) cl
         @ (if length (drop (length cl - N) cl) < N then [] else [hd (drop (length cl - N) cl)])
         = take (length (cl @ [x]) - N) (cl @ [x])"
  proof (cases "length cl < N")
    case True
    then show ?thesis by simp
  next
    case False
    then have k: "length (cl @ [x]) - N = Suc (length cl - N)" by simp
    have n: "\<not> length (drop (length cl - N) cl) < N"
      using False by simp
    have lt: "length cl - N < length cl"
      using False assms by simp
    show ?thesis
      unfolding k using n lt
      by (simp add: take_Suc_conv_app_nth hd_drop_conv_nth)
  qed
qed

lemma close_file_retention_ok:
  assumes "0 < m_most_recent_ioctl_max p" and "retention_ok p w"
    and "close_file p w = Inr (p1, w1)"
  shows "retention_ok p1 w1"
proof (cases "m_file p")
  case None
  then show ?thesis using assms by (simp add: close_file_None)
next
  case (Some fl)
  let ?cl = "closed_paths (journal w)"
  let ?N = "unat (m_most_recent_ioctl_max p)"
  have ring: "ring_ok p" and path: "f_path fl = m_filename p"
    and fs: "m_most_recent_ioctl_files p = drop (length ?cl - ?N) ?cl"
    and rm: "removed_paths (journal w) = take (length ?cl - ?N) ?cl"
    using assms(2) Some by (simp_all add: retention_ok_def)
  have pos: "0 < ?N"
    using assms(1) by (simp add: word_less_nat_alt)
  from close_file_retention_step [OF Some assms(1) ring, of w] assms(3)
  have f1: "m_most_recent_ioctl_files p1 =
         (if length (m_most_recent_ioctl_files p) < ?N
          then m_most_recent_ioctl_files p else tl (m_most_recent_ioctl_files p))
         @ [m_filename p]"
    and c1: "m_most_recent_ioctl_file_cnt p1 = of_nat (length (m_most_recent_ioctl_files p1))"
    and l1: "length (m_most_recent_ioctl_files p1) \<le> ?N"
    and n1: "m_most_recent_ioctl_max p1 = m_most_recent_ioctl_max p"
    and m1: "m_file p1 = None"
    and j1: "journal w1 =
         journal w
         @ Fclose (f_path fl) (f_data fl @ records_bytes (closing_events (m_block_stack p)))
         # map Remove (if length (m_most_recent_ioctl_files p) < ?N
                       then [] else [hd (m_most_recent_ioctl_files p)])"
    by auto
  have cl1: "closed_paths (journal w1) = ?cl @ [m_filename p]"
    by (simp add: j1 closed_paths_append closed_paths_Remove path)
  have rm1: "removed_paths (journal w1) =
      take (length ?cl - ?N) ?cl
      @ (if length (drop (length ?cl - ?N) ?cl) < ?N then []
         else [hd (drop (length ?cl - ?N) ?cl)])"
    by (simp add: j1 removed_paths_append removed_paths_Remove rm fs)
  have a: "ring_ok p1"
    using c1 l1 n1 by (simp add: ring_ok_def)
  have b: "m_most_recent_ioctl_files p1 =
      drop (length (closed_paths (journal w1)) - unat (m_most_recent_ioctl_max p1))
        (closed_paths (journal w1))"
    unfolding n1 cl1 f1 fs by (rule ring_step(1) [OF pos])
  have c: "removed_paths (journal w1) =
      take (length (closed_paths (journal w1)) - unat (m_most_recent_ioctl_max p1))
        (closed_paths (journal w1))"
    unfolding n1 cl1 rm1 by (rule ring_step(2) [OF pos])
  show ?thesis
    unfolding retention_ok_def using a b c m1 by simp
qed

lemma start_new_file_retention_ok:
  assumes "0 < m_most_recent_ioctl_max p" and "retention_ok p w"
    and "start_new_file fopen_ok p w = Inr (p1, w1)"
  shows "retention_ok p1 w1 \<and> m_most_recent_ioctl_max p1 = m_most_recent_ioctl_max p"
proof -
  obtain pc wc where c: "close_file p w = Inr (pc, wc)"
    using assms(3) by (cases "close_file p w") (auto simp add: start_new_file_def)
  have okc: "retention_ok pc wc"
    by (rule close_file_retention_ok [OF assms(1,2) c])
  note fr = close_file_frame [OF c]
  let ?p3 = "pc\<lparr>m_count := m_count pc + 1, m_filename := new_filename p,
                 m_file := fst (std_fopen fopen_ok (new_filename p) wc)\<rparr>"
  obtain bytes where b:
    "foldl (\<lambda>q iter. write_to_file q I965_BATCHBUFFER_LOGGER_MESSAGE_BLOCK_BEGIN
                      (Block_name iter) (Block_name_length iter)
                      (Block_value iter) (Block_value_length iter)) ?p3 (m_block_stack ?p3) =
     ?p3\<lparr>m_file := map_option (\<lambda>f. f\<lparr>f_data := f_data f @ bytes\<rparr>) (m_file ?p3)\<rparr>"
    using foldl_write_to_file_frame by blast
  have r: "p1 = ?p3\<lparr>m_file := map_option (\<lambda>f. f\<lparr>f_data := f_data f @ bytes\<rparr>) (m_file ?p3)\<rparr>"
       "w1 = snd (std_fopen fopen_ok (new_filename p) wc)"
    using assms(3) c b fr by (simp_all add: start_new_file_def Let_def new_filename_def)
  show ?thesis
    using okc fr(5)
    by (auto simp add: r retention_ok_def ring_ok_def std_fopen_def closed_paths_append
        removed_paths_append)
qed

lemma write_fcn_retention_ok:
  assumes "retention_ok p w"
    and "write_fcn p tp name name_length value value_length = Inr p1"
  shows "retention_ok p1 w \<and> m_most_recent_ioctl_max p1 = m_most_recent_ioctl_max p"
  using assms
  by (cases tp; cases "m_file p")
     (auto simp add: write_fcn_def write_to_file_eq retention_ok_def ring_ok_def
        split: if_splits)

lemma invoke_retention_ok:
  assumes "0 < m_most_recent_ioctl_max p" and "retention_ok p w"
    and "invoke c (p, w) = Inr (p1, w1)"
  shows "retention_ok p1 w1 \<and> m_most_recent_ioctl_max p1 = m_most_recent_ioctl_max p"
proof (cases c)
  case (Write tp name "value")
  then show ?thesis
    using assms(2,3) write_fcn_retention_ok [of p w tp name _ "value"]
    by (auto split: sum.splits)
next
  case (Pre_execbuffer2_ioctl ioctl_id fopen_ok)
  then show ?thesis
    using assms start_new_file_retention_ok [of p w fopen_ok p1 w1]
    by (simp add: pre_execbuffer2_ioctl_fcn_def)
next
  case (Post_execbuffer2_ioctl ioctl_id)
  show ?thesis
  proof (cases "m_file p")
    case None
    then show ?thesis
      using assms Post_execbuffer2_ioctl by (simp add: post_execbuffer2_ioctl_fcn_def)
  next
    case (Some fl)
    then have c: "close_file p w = Inr (p1, w1)"
      using assms Post_execbuffer2_ioctl by (simp add: post_execbuffer2_ioctl_fcn_def)
    from close_file_retention_ok [OF assms(1,2) c] close_file_frame(5) [OF c]
    show ?thesis by simp
  qed
qed

lemma run_retention_ok:
  "0 < m_most_recent_ioctl_max p \<Longrightarrow> retention_ok p w \<Longrightarrow> run calls (p, w) = Inr (p1, w1)
   \<Longrightarrow> retention_ok p1 w1 \<and> m_most_recent_ioctl_max p1 = m_most_recent_ioctl_max p"
proof (induction calls arbitrary: p w)
  case Nil
  then show ?case by simp
next
  case (Cons c calls)
  from Cons.prems(3) obtain p2 w2 where i: "invoke c (p, w) = Inr (p2, w2)"
    and r: "run calls (p2, w2) = Inr (p1, w1)"
    by (cases "invoke c (p, w)") auto
  from invoke_retention_ok [OF Cons.prems(1,2) i]
  have ok: "retention_ok p2 w2" and n: "m_most_recent_ioctl_max p2 = m_most_recent_ioctl_max p"
    by simp_all
  from Cons.IH [OF _ ok r] Cons.prems(1) n show ?case by simp
qed

lemma Session_ctor_retention_ok:
  assumes "Session_ctor most_recent max_size prefix fopen_ok count w = Inr (p1, count1, w1)"
    and "0 < most_recent"
    and "closed_paths (journal w) = []" and "removed_paths (journal w) = []"
  shows "retention_ok p1 w1 \<and> m_most_recent_ioctl_max p1 = most_recent"
proof -
  define p where "p =
     \<lparr>m_most_recent_ioctl_max = most_recent, m_max_filesize = max_size, m_count = 0,
      m_most_recent_ioctl_file_cnt = 0, m_most_recent_ioctl_files = [], m_block_stack = [],
      m_prefix = prefix, m_filename = [], m_file = None\<rparr>"
  have ok: "retention_ok p w"
    using assms(3,4) by (simp add: retention_ok_def ring_ok_def p_def)
  have n: "0 < m_most_recent_ioctl_max p"
    using assms(2) by (simp add: p_def)
  have nz: "most_recent \<noteq> 0"
    using assms(2) by auto
  have "start_new_file fopen_ok p w = Inr (p1, w1)"
    using assms(1) nz by (auto simp add: Session_ctor_def Let_def p_def split: sum.splits)
  from start_new_file_retention_ok [OF n ok this] show ?thesis
    by (simp add: p_def)
qed


lemma retention_ctor:
  "Session_ctor 2 0 ''log'' True 0 \<lparr>disk = Map.empty, journal = []\<rparr> =
     Inr (retention_session, 0, retention_fs)"
  by (simp add: retention_fs_def Session_ctor_def start_new_file_def close_file_def Let_def
      std_fopen_def decimal_digit digit_char_def retention_session_def)

lemma two_not_le_one: "\<not> (2 :: uint32_t) \<le> 1"
  by (simp add: word_le_nat_alt)

lemma retention_run:
  "run retention_calls (retention_session, retention_fs) =
   Inr (retention_session
          \<lparr>m_count := 5, m_filename := [],
           m_most_recent_ioctl_file_cnt := 2,
           m_most_recent_ioctl_files := [''log.3'', ''log.4''],
           m_file := None\<rparr>,
        \<lparr>disk = [''log.3'' \<mapsto> [], ''log.4'' \<mapsto> []],
         journal = [Fopen ''log.0'' True, Fclose ''log.0'' [], Fopen ''log.1'' True,
                    Fclose ''log.1'' [], Fopen ''log.2'' True,
                    Fclose ''log.2'' [], Remove ''log.0'', Fopen ''log.3'' True,
                    Fclose ''log.3'' [], Remove ''log.1'', Fopen ''log.4'' True,
                    Fclose ''log.4'' [], Remove ''log.2'']\<rparr>)"
  by (simp add: retention_fs_def retention_calls_def retention_session_def
      pre_execbuffer2_ioctl_fcn_def post_execbuffer2_ioctl_fcn_def
      start_new_file_def close_file_def Let_def evict_oldest.simps
      std_fopen_def std_fclose_def std_remove_def decimal_digit digit_char_def
      records_bytes_Nil fun_upd_twist two_not_le_one)


lemma opened_paths_append:
  "opened_paths (xs @ ys) = opened_paths xs @ opened_paths ys"
  by (induction xs rule: opened_paths.induct) simp_all

lemma opened_paths_Remove: "opened_paths (map Remove paths) = []"
  by (induction paths) simp_all

lemma disk_remove_all:
  "disk (remove_all paths w) path = (if path \<in> set paths then None else disk w path)"
  unfolding remove_all_def
  by (induction paths arbitrary: w) (simp_all add: std_remove_def)

lemma close_file_disk_ok:
  assumes "0 < m_most_recent_ioctl_max p" and "retention_ok p w" and "disk_ok p w"
    and "close_file p w = Inr (p1, w1)"
  shows "disk_ok p1 w1"
proof (cases "m_file p")
  case None
  then show ?thesis using assms by (simp add: close_file_None)
next
  case (Some fl)
  let ?fs = "m_most_recent_ioctl_files p"
  let ?k = "length ?fs + 1 - unat (m_most_recent_ioctl_max p)"
  let ?data = "f_data fl @ records_bytes (closing_events (m_block_stack p))"
  let ?cl = "closed_paths (journal w)"
  have ring: "ring_ok p"
    and rm: "removed_paths (journal w)
               = take (length ?cl - unat (m_most_recent_ioctl_max p)) ?cl"
    using assms(2) by (simp_all add: retention_ok_def)
  have d: "distinct ?cl" and sub: "set ?cl \<subseteq> set (opened_paths (journal w))"
    and o: "f_path fl \<in> set (opened_paths (journal w))" and nc: "f_path fl \<notin> set ?cl"
    and dk: "\<forall>path \<in> set ?cl. (disk w path \<noteq> None) = (path \<notin> set (removed_paths (journal w)))"
    using assms(3) Some by (simp_all add: disk_ok_def)
  have nr: "f_path fl \<notin> set (removed_paths (journal w))"
    using nc rm by (metis in_set_takeD)
  have w1: "w1 = remove_all (take ?k ?fs)
                   (std_fclose (fl\<lparr>f_data := ?data\<rparr>) w)"
    using assms(4) unfolding close_file_retention [OF Some assms(1) ring, of w] by simp
  have m1: "m_file p1 = None"
    by (rule close_file_frame(1) [OF assms(4)])
  have j: "journal w1 = journal w @ Fclose (f_path fl) ?data # map Remove (take ?k ?fs)"
    by (simp add: w1 journal_remove_all std_fclose_def)
  have dsk: "disk w1 path =
      (if path \<in> set (take ?k ?fs) then None
       else if path = f_path fl then Some ?data else disk w path)" for path
    by (simp add: w1 disk_remove_all std_fclose_def)
  have cl1: "closed_paths (journal w1) = ?cl @ [f_path fl]"
    by (simp add: j closed_paths_append closed_paths_Remove)
  have rm1: "removed_paths (journal w1) = removed_paths (journal w) @ take ?k ?fs"
    by (simp add: j removed_paths_append removed_paths_Remove)
  have op1: "opened_paths (journal w1) = opened_paths (journal w)"
    by (simp add: j opened_paths_append opened_paths_Remove)
  have "\<forall>path \<in> set (closed_paths (journal w1)).
          (disk w1 path \<noteq> None) = (path \<notin> set (removed_paths (journal w1)))"
    unfolding cl1 rm1 using dk nr by (auto simp add: dsk)
  then show ?thesis
    unfolding disk_ok_def using d sub o nc m1 by (simp add: cl1 op1)
qed

lemma start_new_file_disk_ok:
  assumes "0 < m_most_recent_ioctl_max p" and "retention_ok p w" and "disk_ok p w"
    and "start_new_file fopen_ok p w = Inr (p1, w1)"
    and "distinct (opened_paths (journal w1))"
  shows "disk_ok p1 w1"
proof -
  obtain pc wc where c: "close_file p w = Inr (pc, wc)"
    using assms(4) by (cases "close_file p w") (auto simp add: start_new_file_def)
  have okc: "disk_ok pc wc"
    by (rule close_file_disk_ok [OF assms(1,2,3) c])
  note fr = close_file_frame [OF c]
  let ?p3 = "pc\<lparr>m_count := m_count pc + 1, m_filename := new_filename p,
                 m_file := fst (std_fopen fopen_ok (new_filename p) wc)\<rparr>"
  obtain bytes where b:
    "foldl (\<lambda>q iter. write_to_file q I965_BATCHBUFFER_LOGGER_MESSAGE_BLOCK_BEGIN
                      (Block_name iter) (Block_name_length iter)
                      (Block_value iter) (Block_value_length iter)) ?p3 (m_block_stack ?p3) =
     ?p3\<lparr>m_file := map_option (\<lambda>f. f\<lparr>f_data := f_data f @ bytes\<rparr>) (m_file ?p3)\<rparr>"
    using foldl_write_to_file_frame by blast
  have r: "p1 = ?p3\<lparr>m_file := map_option (\<lambda>f. f\<lparr>f_data := f_data f @ bytes\<rparr>) (m_file ?p3)\<rparr>"
       "w1 = snd (std_fopen fopen_ok (new_filename p) wc)"
    using assms(4) c b fr by (simp_all add: start_new_file_def Let_def new_filename_def)
  show ?thesis
  proof (cases fopen_ok)
    case False
    then show ?thesis
      using okc fr(1)
      by (simp add: r disk_ok_def std_fopen_def closed_paths_append removed_paths_append
          opened_paths_append)
  next
    case True
    have new: "new_filename p \<notin> set (opened_paths (journal wc))"
      using assms(5) True by (simp add: r std_fopen_def opened_paths_append)
    then have "new_filename p \<notin> set (closed_paths (journal wc))"
      using okc by (auto simp add: disk_ok_def)
    then show ?thesis
      using okc True
      by (auto simp add: r disk_ok_def std_fopen_def closed_paths_append removed_paths_append
          opened_paths_append)
  qed
qed

lemma write_fcn_disk_ok:
  assumes "disk_ok p w"
    and "write_fcn p tp name name_length value value_length = Inr p1"
  shows "disk_ok p1 w"
  using assms
  by (cases tp; cases "m_file p")
     (auto simp add: write_fcn_def write_to_file_eq disk_ok_def split: if_splits)

lemma invoke_disk_ok:
  assumes "0 < m_most_recent_ioctl_max p" and "retention_ok p w" and "disk_ok p w"
    and "invoke c (p, w) = Inr (p1, w1)"
    and "distinct (opened_paths (journal w1))"
  shows "disk_ok p1 w1"
proof (cases c)
  case (Write tp name "value")
  then show ?thesis
    using assms(3,4) write_fcn_disk_ok [of p w tp name _ "value"]
    by (auto split: sum.splits)
next
  case (Pre_execbuffer2_ioctl ioctl_id fopen_ok)
  then show ?thesis
    using assms start_new_file_disk_ok [of p w fopen_ok p1 w1]
    by (simp add: pre_execbuffer2_ioctl_fcn_def)
next
  case (Post_execbuffer2_ioctl ioctl_id)
  show ?thesis
  proof (cases "m_file p")
    case None
    then show ?thesis
      using assms Post_execbuffer2_ioctl by (simp add: post_execbuffer2_ioctl_fcn_def)
  next
    case (Some fl)
    then have c: "close_file p w = Inr (p1, w1)"
      using assms Post_execbuffer2_ioctl by (simp add: post_execbuffer2_ioctl_fcn_def)
    from close_file_disk_ok [OF assms(1,2,3) c] show ?thesis .
  qed
qed

lemma close_file_journal_grows:
  "close_file p w = Inr (p1, w1) \<Longrightarrow> \<exists>calls. journal w1 = journal w @ calls"
proof (cases "m_file p")
  case None
  assume "close_file p w = Inr (p1, w1)"
  then show ?thesis using None by (simp add: close_file_None)
next
  case (Some fl)
  assume "close_file p w = Inr (p1, w1)"
  from close_file_observed [OF this Some] show ?thesis by auto
qed

lemma invoke_journal_grows:
  assumes "invoke c (p, w) = Inr (p1, w1)"
  shows "\<exists>calls. journal w1 = journal w @ calls"
proof (cases c)
  case (Write tp name "value")
  then show ?thesis using assms by (auto split: sum.splits)
next
  case (Pre_execbuffer2_ioctl ioctl_id fopen_ok)
  then show ?thesis
    using assms start_new_file_observed [of fopen_ok p w p1 w1]
    by (auto simp add: pre_execbuffer2_ioctl_fcn_def std_fflush_def
        split: if_splits option.splits)
next
  case (Post_execbuffer2_ioctl ioctl_id)
  then show ?thesis
    using assms close_file_journal_grows [of p w p1 w1]
    by (auto simp add: post_execbuffer2_ioctl_fcn_def std_fflush_def
        split: if_splits option.splits)
qed

lemma run_journal_grows:
  "run calls (p, w) = Inr (p1, w1) \<Longrightarrow> \<exists>more. journal w1 = journal w @ more"
proof (induction calls arbitrary: p w)
  case Nil
  then show ?case by simp
next
  case (Cons c calls)
  from Cons.prems obtain p2 w2 where i: "invoke c (p, w) = Inr (p2, w2)"
    and r: "run calls (p2, w2) = Inr (p1, w1)"
    by (cases "invoke c (p, w)") auto
  from invoke_journal_grows [OF i] Cons.IH [OF r] show ?case by auto
qed

lemma run_disk_ok:
  "0 < m_most_recent_ioctl_max p \<Longrightarrow> retention_ok p w \<Longrightarrow> disk_ok p w
   \<Longrightarrow> run calls (p, w) = Inr (p1, w1) \<Longrightarrow> distinct (opened_paths (journal w1))
   \<Longrightarrow> disk_ok p1 w1"
proof (induction calls arbitrary: p w)
  case Nil
  then show ?case by simp
next
  case (Cons c calls)
  from Cons.prems(4) obtain p2 w2 where i: "invoke c (p, w) = Inr (p2, w2)"
    and r: "run calls (p2, w2) = Inr (p1, w1)"
    by (cases "invoke c (p, w)") auto
  from run_journal_grows [OF r] Cons.prems(5) have d2: "distinct (opened_paths (journal w2))"
    by (auto simp add: opened_paths_append)
  from invoke_retention_ok [OF Cons.prems(1,2) i]
  have ok: "retention_ok p2 w2" and n: "0 < m_most_recent_ioctl_max p2"
    using Cons.prems(1) by simp_all
  from invoke_disk_ok [OF Cons.prems(1,2,3) i d2] have dk: "disk_ok p2 w2" .
  from Cons.IH [OF n ok dk r Cons.prems(5)] show ?case .
qed

lemma retained_on_disk:
  assumes "retention_ok p w" and "disk_ok p w"
  shows "\<forall>path \<in> set (closed_paths (journal w)).
           (disk w path \<noteq> None) = (path \<in> set (m_most_recent_ioctl_files p))"
proof
  fix path
  let ?cl = "closed_paths (journal w)"
  let ?k = "length ?cl - unat (m_most_recent_ioctl_max p)"
  assume in_cl: "path \<in> set ?cl"
  have fs: "m_most_recent_ioctl_files p = drop ?k ?cl"
    and rm: "removed_paths (journal w) = take ?k ?cl"
    using assms(1) by (simp_all add: retention_ok_def)
  have d: "distinct ?cl"
    and dk: "(disk w path \<noteq> None) = (path \<notin> set (removed_paths (journal w)))"
    using assms(2) in_cl by (simp_all add: disk_ok_def)
  have "set (take ?k ?cl) \<inter> set (drop ?k ?cl) = {}"
    using d by (rule set_take_disj_set_drop_if_distinct) simp
  moreover have "set (take ?k ?cl) \<union> set (drop ?k ?cl) = set ?cl"
    by (metis append_take_drop_id set_append)
  ultimately have "(path \<notin> set (take ?k ?cl)) = (path \<in> set (drop ?k ?cl))"
    using in_cl by blast
  then show "(disk w path \<noteq> None) = (path \<in> set (m_most_recent_ioctl_files p))"
    unfolding dk rm fs .
qed


lemma Session_ctor_disk_ok:
  assumes "Session_ctor most_recent max_size prefix fopen_ok count \<lparr>disk = d, journal = []\<rparr>
             = Inr (p1, count1, w1)"
    and "0 < most_recent"
  shows "disk_ok p1 w1"
proof -
  define p where "p =
     \<lparr>m_most_recent_ioctl_max = most_recent, m_max_filesize = max_size, m_count = 0,
      m_most_recent_ioctl_file_cnt = 0, m_most_recent_ioctl_files = [], m_block_stack = [],
      m_prefix = prefix, m_filename = [], m_file = None\<rparr>"
  define w where "w = \<lparr>disk = d, journal = []\<rparr>"
  have ok: "retention_ok p w" "disk_ok p w" "0 < m_most_recent_ioctl_max p"
    using assms(2) by (simp_all add: retention_ok_def ring_ok_def disk_ok_def p_def w_def)
  have nz: "most_recent \<noteq> 0"
    using assms(2) by auto
  have s: "start_new_file fopen_ok p w = Inr (p1, w1)"
    using assms(1) nz by (auto simp add: Session_ctor_def Let_def p_def w_def split: sum.splits)
  have c: "close_file p w = Inr (p, w)"
    by (rule close_file_None) (simp add: p_def)
  have sf: "stack_fits (m_block_stack p)"
    by (simp add: p_def stack_fits_def)
  have "journal w1 = [Fopen (new_filename p) fopen_ok]"
    using s unfolding start_new_file_Inr [OF c sf] by (auto simp add: w_def)
  then have "distinct (opened_paths (journal w1))"
    by simp
  from start_new_file_disk_ok [OF ok(3) ok(1) ok(2) s this] show ?thesis .
qed

text \<open>
  C5. In retention mode (bound \<open>N\<close> above 0), in a state where the retained names are
  the most recent closed paths: closing the open file returns; it removes the oldest
  retained name when \<open>N\<close> names are retained and none otherwise, and then appends the
  name of the file just closed, so that at most \<open>N\<close> names are retained. After any
  run of the callbacks the retained names are the \<open>N\<close> most recent of all the closed
  paths (all of them while there are fewer than \<open>N\<close>), in closing order, and the paths
  removed are the closed paths before them; and, the file names opened being pairwise
  different, a closed file is on the disk exactly when its name is retained. The
  constructor leaves such a state.
\<close>

theorem retention_keeps_most_recent:
  assumes "0 < m_most_recent_ioctl_max p" and "retention_ok p w"
  shows
  "(\<forall>file. m_file p = Some file \<longrightarrow>
      (\<exists>p1 w1. close_file p w = Inr (p1, w1)
         \<and> m_most_recent_ioctl_files p1 =
             (if length (m_most_recent_ioctl_files p) < unat (m_most_recent_ioctl_max p)
              then m_most_recent_ioctl_files p else tl (m_most_recent_ioctl_files p))
             @ [m_filename p]
         \<and> m_most_recent_ioctl_file_cnt p1 = of_nat (length (m_most_recent_ioctl_files p1))
         \<and> length (m_most_recent_ioctl_files p1) \<le> unat (m_most_recent_ioctl_max p)
         \<and> journal w1 =
             journal w
             @ Fclose (f_path file)
                 (f_data file @ records_bytes (closing_events (m_block_stack p)))
             # map Remove
                 (if length (m_most_recent_ioctl_files p) < unat (m_most_recent_ioctl_max p)
                  then [] else [hd (m_most_recent_ioctl_files p)])))
   \<and> (\<forall>p1 w1. run calls (p, w) = Inr (p1, w1) \<longrightarrow>
         retention_ok p1 w1
         \<and> m_most_recent_ioctl_files p1 =
             drop (length (closed_paths (journal w1)) - unat (m_most_recent_ioctl_max p))
               (closed_paths (journal w1))
         \<and> removed_paths (journal w1) =
             take (length (closed_paths (journal w1)) - unat (m_most_recent_ioctl_max p))
               (closed_paths (journal w1))
         \<and> length (m_most_recent_ioctl_files p1) =
             min (length (closed_paths (journal w1))) (unat (m_most_recent_ioctl_max p))
         \<and> (disk_ok p w \<and> distinct (opened_paths (journal w1)) \<longrightarrow>
               (\<forall>path \<in> set (closed_paths (journal w1)).
                  (disk w1 path \<noteq> None) = (path \<in> set (m_most_recent_ioctl_files p1)))))
   \<and> (\<forall>p0 count0 w0.
         Session_ctor (m_most_recent_ioctl_max p) max_size prefix fopen_ok count
           \<lparr>disk = d, journal = []\<rparr> = Inr (p0, count0, w0) \<longrightarrow>
         retention_ok p0 w0 \<and> disk_ok p0 w0
         \<and> m_most_recent_ioctl_max p0 = m_most_recent_ioctl_max p)"
proof -
  have ring: "ring_ok p"
    using assms(2) by (simp add: retention_ok_def)
  have a: "\<forall>file. m_file p = Some file \<longrightarrow>
      (\<exists>p1 w1. close_file p w = Inr (p1, w1)
         \<and> m_most_recent_ioctl_files p1 =
             (if length (m_most_recent_ioctl_files p) < unat (m_most_recent_ioctl_max p)
              then m_most_recent_ioctl_files p else tl (m_most_recent_ioctl_files p))
             @ [m_filename p]
         \<and> m_most_recent_ioctl_file_cnt p1 = of_nat (length (m_most_recent_ioctl_files p1))
         \<and> length (m_most_recent_ioctl_files p1) \<le> unat (m_most_recent_ioctl_max p)
         \<and> journal w1 =
             journal w
             @ Fclose (f_path file)
                 (f_data file @ records_bytes (closing_events (m_block_stack p)))
             # map Remove
                 (if length (m_most_recent_ioctl_files p) < unat (m_most_recent_ioctl_max p)
                  then [] else [hd (m_most_recent_ioctl_files p)]))"
  proof (intro allI impI)
    fix fl
    assume f: "m_file p = Some fl"
    from close_file_retention_step [OF f assms(1) ring, of w]
    show "\<exists>p1 w1. close_file p w = Inr (p1, w1)
         \<and> m_most_recent_ioctl_files p1 =
             (if length (m_most_recent_ioctl_files p) < unat (m_most_recent_ioctl_max p)
              then m_most_recent_ioctl_files p else tl (m_most_recent_ioctl_files p))
             @ [m_filename p]
         \<and> m_most_recent_ioctl_file_cnt p1 = of_nat (length (m_most_recent_ioctl_files p1))
         \<and> length (m_most_recent_ioctl_files p1) \<le> unat (m_most_recent_ioctl_max p)
         \<and> journal w1 =
             journal w
             @ Fclose (f_path fl)
                 (f_data fl @ records_bytes (closing_events (m_block_stack p)))
             # map Remove
                 (if length (m_most_recent_ioctl_files p) < unat (m_most_recent_ioctl_max p)
                  then [] else [hd (m_most_recent_ioctl_files p)])"
      by blast
  qed
  have b: "\<forall>p1 w1. run calls (p, w) = Inr (p1, w1) \<longrightarrow>
         retention_ok p1 w1
         \<and> m_most_recent_ioctl_files p1 =
             drop (length (closed_paths (journal w1)) - unat (m_most_recent_ioctl_max p))
               (closed_paths (journal w1))
         \<and> removed_paths (journal w1) =
             take (length (closed_paths (journal w1)) - unat (m_most_recent_ioctl_max p))
               (closed_paths (journal w1))
         \<and> length (m_most_recent_ioctl_files p1) =
             min (length (closed_paths (journal w1))) (unat (m_most_recent_ioctl_max p))
         \<and> (disk_ok p w \<and> distinct (opened_paths (journal w1)) \<longrightarrow>
               (\<forall>path \<in> set (closed_paths (journal w1)).
                  (disk w1 path \<noteq> None) = (path \<in> set (m_most_recent_ioctl_files p1))))"
  proof (intro allI impI)
    fix p1 w1
    assume r: "run calls (p, w) = Inr (p1, w1)"
    from run_retention_ok [OF assms r]
    have ok: "retention_ok p1 w1" and n: "m_most_recent_ioctl_max p1 = m_most_recent_ioctl_max p"
      by simp_all
    have fs: "m_most_recent_ioctl_files p1 =
             drop (length (closed_paths (journal w1)) - unat (m_most_recent_ioctl_max p))
               (closed_paths (journal w1))"
      and rm: "removed_paths (journal w1) =
             take (length (closed_paths (journal w1)) - unat (m_most_recent_ioctl_max p))
               (closed_paths (journal w1))"
      using ok n by (simp_all add: retention_ok_def)
    have len: "length (m_most_recent_ioctl_files p1) =
             min (length (closed_paths (journal w1))) (unat (m_most_recent_ioctl_max p))"
      unfolding fs by simp
    have dk: "disk_ok p w \<and> distinct (opened_paths (journal w1)) \<longrightarrow>
               (\<forall>path \<in> set (closed_paths (journal w1)).
                  (disk w1 path \<noteq> None) = (path \<in> set (m_most_recent_ioctl_files p1)))"
    proof
      assume h: "disk_ok p w \<and> distinct (opened_paths (journal w1))"
      then have "disk_ok p1 w1"
        using run_disk_ok [OF assms _ r] by blast
      from retained_on_disk [OF ok this]
      show "\<forall>path \<in> set (closed_paths (journal w1)).
                  (disk w1 path \<noteq> None) = (path \<in> set (m_most_recent_ioctl_files p1))" .
    qed
    show "retention_ok p1 w1
         \<and> m_most_recent_ioctl_files p1 =
             drop (length (closed_paths (journal w1)) - unat (m_most_recent_ioctl_max p))
               (closed_paths (journal w1))
         \<and> removed_paths (journal w1) =
             take (length (closed_paths (journal w1)) - unat (m_most_recent_ioctl_max p))
               (closed_paths (journal w1))
         \<and> length (m_most_recent_ioctl_files p1) =
             min (length (closed_paths (journal w1))) (unat (m_most_recent_ioctl_max p))
         \<and> (disk_ok p w \<and> distinct (opened_paths (journal w1)) \<longrightarrow>
               (\<forall>path \<in> set (closed_paths (journal w1)).
                  (disk w1 path \<noteq> None) = (path \<in> set (m_most_recent_ioctl_files p1))))"
      using ok fs rm len dk by blast
  qed
  have c: "\<forall>p0 count0 w0.
         Session_ctor (m_most_recent_ioctl_max p) max_size prefix fopen_ok count
           \<lparr>disk = d, journal = []\<rparr> = Inr (p0, count0, w0) \<longrightarrow>
         retention_ok p0 w0 \<and> disk_ok p0 w0
         \<and> m_most_recent_ioctl_max p0 = m_most_recent_ioctl_max p"
  proof (intro allI impI)
    fix p0 count0 w0
    assume s: "Session_ctor (m_most_recent_ioctl_max p) max_size prefix fopen_ok count
           \<lparr>disk = d, journal = []\<rparr> = Inr (p0, count0, w0)"
    from Session_ctor_retention_ok [OF s assms(1)] Session_ctor_disk_ok [OF s assms(1)]
    show "retention_ok p0 w0 \<and> disk_ok p0 w0
         \<and> m_most_recent_ioctl_max p0 = m_most_recent_ioctl_max p"
      by simp
  qed
  show ?thesis using a b c by blast
qed

theorem retention_keeps_most_recent_witness:
  "0 < m_most_recent_ioctl_max retention_session
   \<and> retention_ok retention_session retention_fs
   \<and> disk_ok retention_session retention_fs
   \<and> Session_ctor 2 0 ''log'' True 0 \<lparr>disk = Map.empty, journal = []\<rparr> =
       Inr (retention_session, 0, retention_fs)
   \<and> (\<exists>p1 w1. close_file retention_session retention_fs = Inr (p1, w1)
         \<and> m_most_recent_ioctl_files p1 = [''log.0''])
   \<and> (\<exists>p1 w1. run retention_calls (retention_session, retention_fs) = Inr (p1, w1)
         \<and> closed_paths (journal w1) = [''log.0'', ''log.1'', ''log.2'', ''log.3'', ''log.4'']
         \<and> distinct (opened_paths (journal w1))
         \<and> m_most_recent_ioctl_files p1 = [''log.3'', ''log.4'']
         \<and> removed_paths (journal w1) = [''log.0'', ''log.1'', ''log.2'']
         \<and> disk w1 ''log.2'' = None
         \<and> disk w1 ''log.3'' \<noteq> None
         \<and> disk w1 ''log.4'' \<noteq> None)"
proof -
  have n: "0 < m_most_recent_ioctl_max retention_session"
    by (simp add: retention_session_def)
  have ok: "retention_ok retention_session retention_fs"
    by (simp add: retention_ok_def ring_ok_def retention_session_def retention_fs_def)
  have dk: "disk_ok retention_session retention_fs"
    by (simp add: disk_ok_def retention_session_def retention_fs_def)
  note t = retention_keeps_most_recent [OF n ok, of retention_calls 0 "''log''" True 0 Map.empty]
  have f: "m_file retention_session = Some \<lparr>f_path = ''log.0'', f_data = []\<rparr>"
    "m_most_recent_ioctl_files retention_session = []"
    "m_filename retention_session = ''log.0''"
    "m_most_recent_ioctl_max retention_session = 2"
    by (simp_all add: retention_session_def)
  from t f have c: "\<exists>p1 w1. close_file retention_session retention_fs = Inr (p1, w1)
         \<and> m_most_recent_ioctl_files p1 = [''log.0'']"
    by auto
  obtain p1 w1 where r: "run retention_calls (retention_session, retention_fs) = Inr (p1, w1)"
    using retention_run by blast
  have cl: "closed_paths (journal w1) = [''log.0'', ''log.1'', ''log.2'', ''log.3'', ''log.4'']"
    and op: "distinct (opened_paths (journal w1))"
    using r unfolding retention_run by auto
  from t r f(4) cl
  have fs: "m_most_recent_ioctl_files p1 = [''log.3'', ''log.4'']"
    and rm: "removed_paths (journal w1) = [''log.0'', ''log.1'', ''log.2'']"
    by auto
  from t r dk op
  have "\<forall>path \<in> set (closed_paths (journal w1)).
                  (disk w1 path \<noteq> None) = (path \<in> set (m_most_recent_ioctl_files p1))"
    by blast
  then have d: "disk w1 ''log.2'' = None" "disk w1 ''log.3'' \<noteq> None" "disk w1 ''log.4'' \<noteq> None"
    unfolding cl fs by simp_all
  show ?thesis
    using n ok dk retention_ctor c r cl op fs rm d by blast
qed

section \<open>Session replacement at a frame boundary\<close>

lemma Session_ctor_no_retention:
  "Session_ctor 0 max_size prefix fopen_ok count w =
     Inr (fresh_session prefix max_size count fopen_ok, count + 1,
          w\<lparr>disk := (if fopen_ok
                       then (disk w)(prefix @ ''-'' @ decimal (unat (count + 1)) @ ''.0'' \<mapsto> [])
                       else disk w),
            journal := journal w
                       @ [Fopen (prefix @ ''-'' @ decimal (unat (count + 1)) @ ''.0'') fopen_ok]\<rparr>)"
proof -
  define p where "p =
     \<lparr>m_most_recent_ioctl_max = 0, m_max_filesize = max_size, m_count = 0,
      m_most_recent_ioctl_file_cnt = 0, m_most_recent_ioctl_files = [], m_block_stack = [],
      m_prefix = prefix @ ''-'' @ decimal (unat (count + 1)),
      m_filename = [], m_file = None\<rparr>"
  have c: "close_file p w = Inr (p, w)"
    by (rule close_file_None) (simp add: p_def)
  have sf: "stack_fits (m_block_stack p)"
    by (simp add: p_def stack_fits_def)
  have n: "new_filename p = prefix @ ''-'' @ decimal (unat (count + 1)) @ ''.0''"
    by (simp add: new_filename_def p_def decimal_digit digit_char_def)
  have "Session_ctor 0 max_size prefix fopen_ok count w =
     (case start_new_file fopen_ok p w of Inl e \<Rightarrow> Inl e
      | Inr (p1, w1) \<Rightarrow> Inr (p1, count + 1, w1))"
    by (simp add: Session_ctor_def Let_def p_def)
  then show ?thesis
    unfolding start_new_file_Inr [OF c sf] n
    by (simp add: p_def fresh_session_def replay_events_def records_bytes_Nil)
qed

lemma after_swap_replaces:
  assumes "logger_app g" and "0 < numframes_per_file g"
    and "numframes_per_file g \<le> frame_count g" and "most_recent_ioctl_max g = 0"
    and "after_swap env fopen_ok g = Inr g1"
  shows "\<exists>w. app_end_session (logger_session g) (files g) = Inr w
     \<and> g1 = g\<lparr>trace := trace g @ [Post_call (api_count g)],
              frame_count := 0,
              logger_session :=
                Some (fresh_session (filename_prefix env) (max_filesize g) (Session_count g)
                        fopen_ok),
              Session_count := Session_count g + 1,
              files :=
                w\<lparr>disk := (if fopen_ok
                             then (disk w)(filename_prefix env @ ''-''
                                           @ decimal (unat (Session_count g + 1)) @ ''.0'' \<mapsto> [])
                             else disk w),
                  journal := journal w
                     @ [Fopen (filename_prefix env @ ''-''
                               @ decimal (unat (Session_count g + 1)) @ ''.0'') fopen_ok]\<rparr>\<rparr>"
proof -
  have f: "frame_should_start_new_session (app_post_call g)"
    using assms(1-4) by (simp add: frame_should_start_new_session_def app_post_call_def)
  obtain w where e: "app_end_session (logger_session g) (files g) = Inr w"
    using assms(1,5) f
    by (cases "app_end_session (logger_session g) (files g)")
       (auto simp add: after_swap_def Let_def app_post_call_def)
  show ?thesis
    using assms(1,4,5) f e
    by (auto simp add: after_swap_def Let_def app_post_call_def start_session_def
        Session_ctor_no_retention app_begin_session_def)
qed

lemma after_swap_keeps:
  assumes "logger_app g"
    and "\<not> (0 < numframes_per_file g \<and> numframes_per_file g \<le> frame_count g
            \<and> most_recent_ioctl_max g = 0)"
  shows "after_swap env fopen_ok g = Inr (g\<lparr>trace := trace g @ [Post_call (api_count g)]\<rparr>)"
  using assms
  by (auto simp add: after_swap_def Let_def app_post_call_def frame_should_start_new_session_def)


lemma app_end_session_observed:
  assumes "app_end_session (Some p) w = Inr w1" and "m_file p = Some fl"
  shows "\<exists>removed. journal w1 =
           journal w @ Fclose (f_path fl)
                         (f_data fl @ records_bytes (closing_events (m_block_stack p)))
                       # map Remove removed"
proof -
  from assms(1) obtain p1 where "close_file p w = Inr (p1, w1)"
    by (auto simp add: app_end_session_def close_fcn_def Session_dtor_def split: sum.splits)
  from close_file_observed [OF this assms(2)] show ?thesis by blast
qed

lemma glXSwapBuffers_Inr:
  assumes "logger_app g" and "glXSwapBuffers env fopen_ok g = Inr g1"
  shows "\<exists>g2 g3. after_swap env fopen_ok g2 = Inr g3
     \<and> g1 = g3\<lparr>frame_count := frame_count g3 + 1, api_count := api_count g3 + 1\<rparr>
     \<and> logger_app g2 \<and> logger_session g2 = logger_session g \<and> files g2 = files g
     \<and> numframes_per_file g2 = numframes_per_file g \<and> frame_count g2 = frame_count g
     \<and> most_recent_ioctl_max g2 = most_recent_ioctl_max g
     \<and> max_filesize g2 = max_filesize g \<and> Session_count g2 = Session_count g"
proof -
  define g0 where "g0 = (if glXSwapBuffers_fptr g = None
                then g\<lparr>glXSwapBuffers_fptr := gl_dlsym env ''glXSwapBuffers''\<rparr> else g)"
  define gp where "gp = app_pre_call ''glXSwapBuffers'' g0"
  have unf: "glXSwapBuffers env fopen_ok g =
     (case glXSwapBuffers_fptr gp of
           None \<Rightarrow> Inl Call_Through_Null_Pointer
         | Some fptr \<Rightarrow>
             (case after_swap env fopen_ok (call_fetched fptr gp) of
                Inl e \<Rightarrow> Inl e
              | Inr g3 \<Rightarrow>
                  Inr (g3\<lparr>frame_count := frame_count g3 + 1, api_count := api_count g3 + 1\<rparr>)))"
    unfolding gp_def g0_def by (simp add: glXSwapBuffers_def Let_def)
  from assms(2) unf obtain a where a: "glXSwapBuffers_fptr gp = Some a"
    by (cases "glXSwapBuffers_fptr gp") simp_all
  from assms(2) unf a obtain g3 where g3: "after_swap env fopen_ok (call_fetched a gp) = Inr g3"
    and g1: "g1 = g3\<lparr>frame_count := frame_count g3 + 1, api_count := api_count g3 + 1\<rparr>"
    by (cases "after_swap env fopen_ok (call_fetched a gp)") auto
  have "logger_app (call_fetched a gp) \<and> logger_session (call_fetched a gp) = logger_session g
     \<and> files (call_fetched a gp) = files g
     \<and> numframes_per_file (call_fetched a gp) = numframes_per_file g
     \<and> frame_count (call_fetched a gp) = frame_count g
     \<and> most_recent_ioctl_max (call_fetched a gp) = most_recent_ioctl_max g
     \<and> max_filesize (call_fetched a gp) = max_filesize g
     \<and> Session_count (call_fetched a gp) = Session_count g"
    using assms(1) by (simp add: call_fetched_def gp_def g0_def app_pre_call_def)
  then show ?thesis using g3 g1 by blast
qed

lemma eglSwapBuffers_Inr:
  assumes "logger_app g" and "eglSwapBuffers env fopen_ok g = Inr g1"
  shows "\<exists>g2 g3. after_swap env fopen_ok g2 = Inr g3
     \<and> g1 = g3\<lparr>frame_count := frame_count g3 + 1, api_count := api_count g3 + 1\<rparr>
     \<and> logger_app g2 \<and> logger_session g2 = logger_session g \<and> files g2 = files g
     \<and> numframes_per_file g2 = numframes_per_file g \<and> frame_count g2 = frame_count g
     \<and> most_recent_ioctl_max g2 = most_recent_ioctl_max g
     \<and> max_filesize g2 = max_filesize g \<and> Session_count g2 = Session_count g"
proof -
  define g0 where "g0 = (if eglSwapBuffers_fptr g = None
                then g\<lparr>eglSwapBuffers_fptr := egl_dlsym env ''eglSwapBuffers''\<rparr> else g)"
  define gp where "gp = app_pre_call ''eglSwapBuffers'' g0"
  have unf: "eglSwapBuffers env fopen_ok g =
     (case eglSwapBuffers_fptr gp of
           None \<Rightarrow> Inl Call_Through_Null_Pointer
         | Some fptr \<Rightarrow>
             (case after_swap env fopen_ok (call_fetched fptr gp) of
                Inl e \<Rightarrow> Inl e
              | Inr g3 \<Rightarrow>
                  Inr (g3\<lparr>frame_count := frame_count g3 + 1, api_count := api_count g3 + 1\<rparr>)))"
    unfolding gp_def g0_def by (simp add: eglSwapBuffers_def Let_def)
  from assms(2) unf obtain a where a: "eglSwapBuffers_fptr gp = Some a"
    by (cases "eglSwapBuffers_fptr gp") simp_all
  from assms(2) unf a obtain g3 where g3: "after_swap env fopen_ok (call_fetched a gp) = Inr g3"
    and g1: "g1 = g3\<lparr>frame_count := frame_count g3 + 1, api_count := api_count g3 + 1\<rparr>"
    by (cases "after_swap env fopen_ok (call_fetched a gp)") auto
  have "logger_app (call_fetched a gp) \<and> logger_session (call_fetched a gp) = logger_session g
     \<and> files (call_fetched a gp) = files g
     \<and> numframes_per_file (call_fetched a gp) = numframes_per_file g
     \<and> frame_count (call_fetched a gp) = frame_count g
     \<and> most_recent_ioctl_max (call_fetched a gp) = most_recent_ioctl_max g
     \<and> max_filesize (call_fetched a gp) = max_filesize g
     \<and> Session_count (call_fetched a gp) = Session_count g"
    using assms(1) by (simp add: call_fetched_def gp_def g0_def app_pre_call_def)
  then show ?thesis using g3 g1 by blast
qed

lemma swap_Inr:
  assumes "logger_app g" and "swap = glXSwapBuffers \<or> swap = eglSwapBuffers"
    and "swap env fopen_ok g = Inr g1"
  shows "\<exists>g2 g3. after_swap env fopen_ok g2 = Inr g3
     \<and> g1 = g3\<lparr>frame_count := frame_count g3 + 1, api_count := api_count g3 + 1\<rparr>
     \<and> logger_app g2 \<and> logger_session g2 = logger_session g \<and> files g2 = files g
     \<and> numframes_per_file g2 = numframes_per_file g \<and> frame_count g2 = frame_count g
     \<and> most_recent_ioctl_max g2 = most_recent_ioctl_max g
     \<and> max_filesize g2 = max_filesize g \<and> Session_count g2 = Session_count g"
  using assms glXSwapBuffers_Inr [of g env fopen_ok g1] eglSwapBuffers_Inr [of g env fopen_ok g1]
  by blast

lemma app_end_session_returns:
  assumes "case session of None \<Rightarrow> True | Some p \<Rightarrow> ring_ok p"
  shows "\<exists>w1. app_end_session session w = Inr w1"
proof (cases session)
  case None
  then show ?thesis by (simp add: app_end_session_def)
next
  case (Some p)
  then have "ring_ok p" using assms by simp
  from close_file_returns [OF this, of w] obtain p1 w1 where "close_file p w = Inr (p1, w1)"
    by blast
  then show ?thesis
    using Some by (simp add: app_end_session_def close_fcn_def Session_dtor_def)
qed

lemma after_swap_returns:
  assumes "case logger_session g of None \<Rightarrow> True | Some p \<Rightarrow> ring_ok p"
  shows "\<exists>g1. after_swap env fopen_ok g = Inr g1"
proof (cases "logger_app g \<and> frame_should_start_new_session (app_post_call g)")
  case False
  then show ?thesis by (auto simp add: after_swap_def Let_def)
next
  case True
  then have n: "most_recent_ioctl_max g = 0"
    by (auto simp add: frame_should_start_new_session_def app_post_call_def)
  from app_end_session_returns [OF assms, of "files g"] obtain w
    where e: "app_end_session (logger_session g) (files g) = Inr w"
    by blast
  show ?thesis
    using True n e
    by (simp add: after_swap_def Let_def app_post_call_def start_session_def
        Session_ctor_no_retention)
qed

lemma glXSwapBuffers_returns:
  assumes "glXSwapBuffers_fptr g \<noteq> None \<or> gl_dlsym env ''glXSwapBuffers'' \<noteq> None"
    and "case logger_session g of None \<Rightarrow> True | Some p \<Rightarrow> ring_ok p"
  shows "\<exists>g1. glXSwapBuffers env fopen_ok g = Inr g1"
proof -
  define g0 where "g0 = (if glXSwapBuffers_fptr g = None
                then g\<lparr>glXSwapBuffers_fptr := gl_dlsym env ''glXSwapBuffers''\<rparr> else g)"
  define gp where "gp = app_pre_call ''glXSwapBuffers'' g0"
  have unf: "glXSwapBuffers env fopen_ok g =
     (case glXSwapBuffers_fptr gp of
           None \<Rightarrow> Inl Call_Through_Null_Pointer
         | Some fptr \<Rightarrow>
             (case after_swap env fopen_ok (call_fetched fptr gp) of
                Inl e \<Rightarrow> Inl e
              | Inr g3 \<Rightarrow>
                  Inr (g3\<lparr>frame_count := frame_count g3 + 1, api_count := api_count g3 + 1\<rparr>)))"
    unfolding gp_def g0_def by (simp add: glXSwapBuffers_def Let_def)
  have "glXSwapBuffers_fptr gp =
          (if glXSwapBuffers_fptr g = None then gl_dlsym env ''glXSwapBuffers''
           else glXSwapBuffers_fptr g)"
    by (auto simp add: gp_def g0_def app_pre_call_def)
  then have "glXSwapBuffers_fptr gp \<noteq> None"
    using assms(1) by auto
  then obtain a where a: "glXSwapBuffers_fptr gp = Some a"
    by blast
  have "logger_session (call_fetched a gp) = logger_session g"
    by (simp add: call_fetched_def gp_def g0_def app_pre_call_def)
  with assms(2) have "case logger_session (call_fetched a gp) of
                        None \<Rightarrow> True | Some p \<Rightarrow> ring_ok p"
    by simp
  from after_swap_returns [OF this, of env fopen_ok] obtain g3
    where "after_swap env fopen_ok (call_fetched a gp) = Inr g3"
    by blast
  then show ?thesis by (simp add: unf a)
qed

lemma eglSwapBuffers_returns:
  assumes "eglSwapBuffers_fptr g \<noteq> None \<or> egl_dlsym env ''eglSwapBuffers'' \<noteq> None"
    and "case logger_session g of None \<Rightarrow> True | Some p \<Rightarrow> ring_ok p"
  shows "\<exists>g1. eglSwapBuffers env fopen_ok g = Inr g1"
proof -
  define g0 where "g0 = (if eglSwapBuffers_fptr g = None
                then g\<lparr>eglSwapBuffers_fptr := egl_dlsym env ''eglSwapBuffers''\<rparr> else g)"
  define gp where "gp = app_pre_call ''eglSwapBuffers'' g0"
  have unf: "eglSwapBuffers env fopen_ok g =
     (case eglSwapBuffers_fptr gp of
           None \<Rightarrow> Inl Call_Through_Null_Pointer
         | Some fptr \<Rightarrow>
             (case after_swap env fopen_ok (call_fetched fptr gp) of
                Inl e \<Rightarrow> Inl e
              | Inr g3 \<Rightarrow>
                  Inr (g3\<lparr>frame_count := frame_count g3 + 1, api_count := api_count g3 + 1\<rparr>)))"
    unfolding gp_def g0_def by (simp add: eglSwapBuffers_def Let_def)
  have "eglSwapBuffers_fptr gp =
          (if eglSwapBuffers_fptr g = None then egl_dlsym env ''eglSwapBuffers''
           else eglSwapBuffers_fptr g)"
    by (auto simp add: gp_def g0_def app_pre_call_def)
  then have "eglSwapBuffers_fptr gp \<noteq> None"
    using assms(1) by auto
  then obtain a where a: "eglSwapBuffers_fptr gp = Some a"
    by blast
  have "logger_session (call_fetched a gp) = logger_session g"
    by (simp add: call_fetched_def gp_def g0_def app_pre_call_def)
  with assms(2) have "case logger_session (call_fetched a gp) of
                        None \<Rightarrow> True | Some p \<Rightarrow> ring_ok p"
    by simp
  from after_swap_returns [OF this, of env fopen_ok] obtain g3
    where "after_swap env fopen_ok (call_fetched a gp) = Inr g3"
    by blast
  then show ?thesis by (simp add: unf a)
qed

lemma swap_Inr_effect:
  assumes "logger_app g" and "swap = glXSwapBuffers \<or> swap = eglSwapBuffers"
    and "swap env fopen_ok g = Inr g1"
  shows
  "(0 < numframes_per_file g \<and> numframes_per_file g \<le> frame_count g
      \<and> most_recent_ioctl_max g = 0 \<longrightarrow>
      (\<exists>w. app_end_session (logger_session g) (files g) = Inr w
          \<and> (\<forall>p file. logger_session g = Some p \<and> m_file p = Some file \<longrightarrow>
                (\<exists>removed. journal w =
                   journal (files g)
                   @ Fclose (f_path file)
                       (f_data file @ records_bytes (closing_events (m_block_stack p)))
                   # map Remove removed))
          \<and> journal (files g1) =
              journal w
              @ [Fopen (filename_prefix env @ ''-'' @ decimal (unat (Session_count g + 1))
                        @ ''.0'') fopen_ok])
      \<and> (\<exists>p1. logger_session g1 = Some p1
            \<and> p1 = fresh_session (filename_prefix env) (max_filesize g) (Session_count g) fopen_ok
            \<and> m_filename p1 = m_prefix p1 @ ''.'' @ decimal 0
            \<and> m_count p1 = 1
            \<and> m_block_stack p1 = [])
      \<and> Session_count g1 = Session_count g + 1
      \<and> frame_count g1 = 1)
   \<and> (most_recent_ioctl_max g \<noteq> 0 \<or> numframes_per_file g = 0
        \<or> frame_count g < numframes_per_file g \<longrightarrow>
        logger_session g1 = logger_session g \<and> files g1 = files g
        \<and> Session_count g1 = Session_count g
        \<and> frame_count g1 = frame_count g + 1)"
proof -
  from swap_Inr [OF assms] obtain g2 g3 where
    a: "after_swap env fopen_ok g2 = Inr g3"
    and g1: "g1 = g3\<lparr>frame_count := frame_count g3 + 1, api_count := api_count g3 + 1\<rparr>"
    and same: "logger_app g2" "logger_session g2 = logger_session g" "files g2 = files g"
      "numframes_per_file g2 = numframes_per_file g" "frame_count g2 = frame_count g"
      "most_recent_ioctl_max g2 = most_recent_ioctl_max g"
      "max_filesize g2 = max_filesize g" "Session_count g2 = Session_count g"
    by blast
  have first: "0 < numframes_per_file g \<and> numframes_per_file g \<le> frame_count g
      \<and> most_recent_ioctl_max g = 0 \<longrightarrow>
      (\<exists>w. app_end_session (logger_session g) (files g) = Inr w
          \<and> (\<forall>p file. logger_session g = Some p \<and> m_file p = Some file \<longrightarrow>
                (\<exists>removed. journal w =
                   journal (files g)
                   @ Fclose (f_path file)
                       (f_data file @ records_bytes (closing_events (m_block_stack p)))
                   # map Remove removed))
          \<and> journal (files g1) =
              journal w
              @ [Fopen (filename_prefix env @ ''-'' @ decimal (unat (Session_count g + 1))
                        @ ''.0'') fopen_ok])
      \<and> (\<exists>p1. logger_session g1 = Some p1
            \<and> p1 = fresh_session (filename_prefix env) (max_filesize g) (Session_count g) fopen_ok
            \<and> m_filename p1 = m_prefix p1 @ ''.'' @ decimal 0
            \<and> m_count p1 = 1
            \<and> m_block_stack p1 = [])
      \<and> Session_count g1 = Session_count g + 1
      \<and> frame_count g1 = 1"
  proof
    assume h: "0 < numframes_per_file g \<and> numframes_per_file g \<le> frame_count g
      \<and> most_recent_ioctl_max g = 0"
    from after_swap_replaces [OF same(1) _ _ _ a] h same
    obtain w where e: "app_end_session (logger_session g) (files g) = Inr w"
      and g3: "g3 = g2\<lparr>trace := trace g2 @ [Post_call (api_count g2)],
              frame_count := 0,
              logger_session :=
                Some (fresh_session (filename_prefix env) (max_filesize g) (Session_count g)
                        fopen_ok),
              Session_count := Session_count g + 1,
              files :=
                w\<lparr>disk := (if fopen_ok
                             then (disk w)(filename_prefix env @ ''-''
                                           @ decimal (unat (Session_count g + 1)) @ ''.0'' \<mapsto> [])
                             else disk w),
                  journal := journal w
                     @ [Fopen (filename_prefix env @ ''-''
                               @ decimal (unat (Session_count g + 1)) @ ''.0'') fopen_ok]\<rparr>\<rparr>"
      by auto
    have obs: "\<forall>p file. logger_session g = Some p \<and> m_file p = Some file \<longrightarrow>
                (\<exists>removed. journal w =
                   journal (files g)
                   @ Fclose (f_path file)
                       (f_data file @ records_bytes (closing_events (m_block_stack p)))
                   # map Remove removed)"
      using e app_end_session_observed by auto
    have fr: "m_filename (fresh_session (filename_prefix env) (max_filesize g) (Session_count g) fopen_ok)
          = m_prefix (fresh_session (filename_prefix env) (max_filesize g) (Session_count g) fopen_ok)
            @ ''.'' @ decimal 0"
      "m_count (fresh_session (filename_prefix env) (max_filesize g) (Session_count g) fopen_ok) = 1"
      "m_block_stack (fresh_session (filename_prefix env) (max_filesize g) (Session_count g) fopen_ok) = []"
      by (simp_all add: fresh_session_def decimal_digit digit_char_def)
    show "(\<exists>w. app_end_session (logger_session g) (files g) = Inr w
          \<and> (\<forall>p file. logger_session g = Some p \<and> m_file p = Some file \<longrightarrow>
                (\<exists>removed. journal w =
                   journal (files g)
                   @ Fclose (f_path file)
                       (f_data file @ records_bytes (closing_events (m_block_stack p)))
                   # map Remove removed))
          \<and> journal (files g1) =
              journal w
              @ [Fopen (filename_prefix env @ ''-'' @ decimal (unat (Session_count g + 1))
                        @ ''.0'') fopen_ok])
      \<and> (\<exists>p1. logger_session g1 = Some p1
            \<and> p1 = fresh_session (filename_prefix env) (max_filesize g) (Session_count g) fopen_ok
            \<and> m_filename p1 = m_prefix p1 @ ''.'' @ decimal 0
            \<and> m_count p1 = 1
            \<and> m_block_stack p1 = [])
      \<and> Session_count g1 = Session_count g + 1
      \<and> frame_count g1 = 1"
      using e obs fr by (auto simp add: g1 g3)
  qed
  have second: "most_recent_ioctl_max g \<noteq> 0 \<or> numframes_per_file g = 0
        \<or> frame_count g < numframes_per_file g \<longrightarrow>
        logger_session g1 = logger_session g \<and> files g1 = files g
        \<and> Session_count g1 = Session_count g
        \<and> frame_count g1 = frame_count g + 1"
  proof
    assume "most_recent_ioctl_max g \<noteq> 0 \<or> numframes_per_file g = 0
        \<or> frame_count g < numframes_per_file g"
    then have "\<not> (0 < numframes_per_file g2 \<and> numframes_per_file g2 \<le> frame_count g2
            \<and> most_recent_ioctl_max g2 = 0)"
      using same by (auto simp add: not_le)
    from after_swap_keeps [OF same(1) this, of env fopen_ok] a
    have "g3 = g2\<lparr>trace := trace g2 @ [Post_call (api_count g2)]\<rparr>"
      by simp
    then show "logger_session g1 = logger_session g \<and> files g1 = files g
        \<and> Session_count g1 = Session_count g
        \<and> frame_count g1 = frame_count g + 1"
      using same by (simp add: g1)
  qed
  show ?thesis using first second by blast
qed

lemma example_globals_end_session:
  "app_end_session (logger_session example_globals) (files example_globals) =
     Inr \<lparr>disk = [''log-1.0'' \<mapsto> records_bytes
                                    [(I965_BATCHBUFFER_LOGGER_MESSAGE_BLOCK_END, [], [])]],
          journal = [Fopen ''log-1.0'' True,
                     Fclose ''log-1.0''
                       (records_bytes [(I965_BATCHBUFFER_LOGGER_MESSAGE_BLOCK_END, [], [])])]\<rparr>"
proof -
  have c: "close_file example_session (files example_globals) =
     Inr (example_session\<lparr>m_file := None\<rparr>,
          std_fclose (example_file\<lparr>f_data := f_data example_file
             @ records_bytes (closing_events (m_block_stack example_session))\<rparr>)
            (files example_globals))"
    by (rule close_file_no_retention) (simp_all add: example_session_def)
  have l: "logger_session example_globals = Some example_session"
    by (simp add: example_globals_def)
  show ?thesis
    unfolding l app_end_session_def close_fcn_def Session_dtor_def option.case c
    by (simp add: example_globals_def example_session_def example_file_def std_fclose_def
        closing_events_def)
qed

text \<open>
  C7. A call of \<open>glXSwapBuffers\<close> or \<open>eglSwapBuffers\<close>, with the logger there, returns
  whenever its function pointer is fetched or resolves and the list of retained names of
  the current session agrees with its counter. Whenever the call returns: when the number
  of frames per file is above 0, the frame counter has reached it and retention is off,
  the current session is ended (its open file is closed) and the new current session is a
  fresh one, with the next prefix, whose first file has the sequence number 0 and whose
  counter stands at 1; the frame counter starts again. When retention is on, or the number
  is 0 or not reached, the session and the files stay as they are.
\<close>

theorem frame_threshold_replaces_session:
  assumes "logger_app g" and "swap = glXSwapBuffers \<or> swap = eglSwapBuffers"
  shows
  "(((swap = glXSwapBuffers
        \<and> (glXSwapBuffers_fptr g \<noteq> None \<or> gl_dlsym env ''glXSwapBuffers'' \<noteq> None))
      \<or> (swap = eglSwapBuffers
        \<and> (eglSwapBuffers_fptr g \<noteq> None \<or> egl_dlsym env ''eglSwapBuffers'' \<noteq> None)))
     \<and> (case logger_session g of None \<Rightarrow> True | Some p \<Rightarrow> ring_ok p)
     \<longrightarrow> (\<exists>g1. swap env fopen_ok g = Inr g1))
   \<and> (\<forall>g1. swap env fopen_ok g = Inr g1 \<longrightarrow>
         (0 < numframes_per_file g \<and> numframes_per_file g \<le> frame_count g
            \<and> most_recent_ioctl_max g = 0 \<longrightarrow>
            (\<exists>w. app_end_session (logger_session g) (files g) = Inr w
                \<and> (\<forall>p file. logger_session g = Some p \<and> m_file p = Some file \<longrightarrow>
                      (\<exists>removed. journal w =
                         journal (files g)
                         @ Fclose (f_path file)
                             (f_data file @ records_bytes (closing_events (m_block_stack p)))
                         # map Remove removed))
                \<and> journal (files g1) =
                    journal w
                    @ [Fopen (filename_prefix env @ ''-'' @ decimal (unat (Session_count g + 1))
                              @ ''.0'') fopen_ok])
            \<and> (\<exists>p1. logger_session g1 = Some p1
                  \<and> p1 = fresh_session (filename_prefix env) (max_filesize g) (Session_count g) fopen_ok
                  \<and> m_filename p1 = m_prefix p1 @ ''.'' @ decimal 0
                  \<and> m_count p1 = 1
                  \<and> m_block_stack p1 = [])
            \<and> Session_count g1 = Session_count g + 1
            \<and> frame_count g1 = 1)
         \<and> (most_recent_ioctl_max g \<noteq> 0 \<or> numframes_per_file g = 0
              \<or> frame_count g < numframes_per_file g \<longrightarrow>
              logger_session g1 = logger_session g \<and> files g1 = files g
              \<and> Session_count g1 = Session_count g
              \<and> frame_count g1 = frame_count g + 1))"
proof -
  have returns:
    "((swap = glXSwapBuffers
        \<and> (glXSwapBuffers_fptr g \<noteq> None \<or> gl_dlsym env ''glXSwapBuffers'' \<noteq> None))
      \<or> (swap = eglSwapBuffers
        \<and> (eglSwapBuffers_fptr g \<noteq> None \<or> egl_dlsym env ''eglSwapBuffers'' \<noteq> None)))
     \<and> (case logger_session g of None \<Rightarrow> True | Some p \<Rightarrow> ring_ok p)
     \<longrightarrow> (\<exists>g1. swap env fopen_ok g = Inr g1)"
  proof
    assume h: "((swap = glXSwapBuffers
          \<and> (glXSwapBuffers_fptr g \<noteq> None \<or> gl_dlsym env ''glXSwapBuffers'' \<noteq> None))
        \<or> (swap = eglSwapBuffers
          \<and> (eglSwapBuffers_fptr g \<noteq> None \<or> egl_dlsym env ''eglSwapBuffers'' \<noteq> None)))
       \<and> (case logger_session g of None \<Rightarrow> True | Some p \<Rightarrow> ring_ok p)"
    then have r: "case logger_session g of None \<Rightarrow> True | Some p \<Rightarrow> ring_ok p"
      by blast
    from h consider
        (glx) "swap = glXSwapBuffers"
          "glXSwapBuffers_fptr g \<noteq> None \<or> gl_dlsym env ''glXSwapBuffers'' \<noteq> None"
      | (egl) "swap = eglSwapBuffers"
          "eglSwapBuffers_fptr g \<noteq> None \<or> egl_dlsym env ''eglSwapBuffers'' \<noteq> None"
      by blast
    then show "\<exists>g1. swap env fopen_ok g = Inr g1"
    proof cases
      case glx
      from glXSwapBuffers_returns [OF glx(2) r, of fopen_ok] show ?thesis
        by (simp add: glx(1))
    next
      case egl
      from eglSwapBuffers_returns [OF egl(2) r, of fopen_ok] show ?thesis
        by (simp add: egl(1))
    qed
  qed
  have effect: "\<forall>g1. swap env fopen_ok g = Inr g1 \<longrightarrow>
      ((0 < numframes_per_file g \<and> numframes_per_file g \<le> frame_count g
            \<and> most_recent_ioctl_max g = 0 \<longrightarrow>
            (\<exists>w. app_end_session (logger_session g) (files g) = Inr w
                \<and> (\<forall>p file. logger_session g = Some p \<and> m_file p = Some file \<longrightarrow>
                      (\<exists>removed. journal w =
                         journal (files g)
                         @ Fclose (f_path file)
                             (f_data file @ records_bytes (closing_events (m_block_stack p)))
                         # map Remove removed))
                \<and> journal (files g1) =
                    journal w
                    @ [Fopen (filename_prefix env @ ''-'' @ decimal (unat (Session_count g + 1))
                              @ ''.0'') fopen_ok])
            \<and> (\<exists>p1. logger_session g1 = Some p1
                  \<and> p1 = fresh_session (filename_prefix env) (max_filesize g) (Session_count g) fopen_ok
                  \<and> m_filename p1 = m_prefix p1 @ ''.'' @ decimal 0
                  \<and> m_count p1 = 1
                  \<and> m_block_stack p1 = [])
            \<and> Session_count g1 = Session_count g + 1
            \<and> frame_count g1 = 1)
         \<and> (most_recent_ioctl_max g \<noteq> 0 \<or> numframes_per_file g = 0
              \<or> frame_count g < numframes_per_file g \<longrightarrow>
              logger_session g1 = logger_session g \<and> files g1 = files g
              \<and> Session_count g1 = Session_count g
              \<and> frame_count g1 = frame_count g + 1))"
  proof (intro allI impI)
    fix g1
    assume "swap env fopen_ok g = Inr g1"
    from swap_Inr_effect [OF assms this]
    show "(0 < numframes_per_file g \<and> numframes_per_file g \<le> frame_count g
            \<and> most_recent_ioctl_max g = 0 \<longrightarrow>
            (\<exists>w. app_end_session (logger_session g) (files g) = Inr w
                \<and> (\<forall>p file. logger_session g = Some p \<and> m_file p = Some file \<longrightarrow>
                      (\<exists>removed. journal w =
                         journal (files g)
                         @ Fclose (f_path file)
                             (f_data file @ records_bytes (closing_events (m_block_stack p)))
                         # map Remove removed))
                \<and> journal (files g1) =
                    journal w
                    @ [Fopen (filename_prefix env @ ''-'' @ decimal (unat (Session_count g + 1))
                              @ ''.0'') fopen_ok])
            \<and> (\<exists>p1. logger_session g1 = Some p1
                  \<and> p1 = fresh_session (filename_prefix env) (max_filesize g) (Session_count g) fopen_ok
                  \<and> m_filename p1 = m_prefix p1 @ ''.'' @ decimal 0
                  \<and> m_count p1 = 1
                  \<and> m_block_stack p1 = [])
            \<and> Session_count g1 = Session_count g + 1
            \<and> frame_count g1 = 1)
         \<and> (most_recent_ioctl_max g \<noteq> 0 \<or> numframes_per_file g = 0
              \<or> frame_count g < numframes_per_file g \<longrightarrow>
              logger_session g1 = logger_session g \<and> files g1 = files g
              \<and> Session_count g1 = Session_count g
              \<and> frame_count g1 = frame_count g + 1)"
      .
  qed
  show ?thesis
    by (rule conjI [OF returns effect])
qed

theorem frame_threshold_replaces_session_witness:
  "logger_app example_globals
   \<and> 0 < numframes_per_file example_globals
   \<and> numframes_per_file example_globals \<le> frame_count example_globals
   \<and> most_recent_ioctl_max example_globals = 0
   \<and> glXSwapBuffers_fptr example_globals = None
   \<and> gl_dlsym example_env ''glXSwapBuffers'' = Some (Foreign 1)
   \<and> eglSwapBuffers_fptr example_globals = None
   \<and> egl_dlsym example_env ''eglSwapBuffers'' = Some (Foreign 3)
   \<and> logger_session example_globals = Some example_session
   \<and> ring_ok example_session
   \<and> m_filename (fresh_session ''log'' 100 1 True) = ''log-2.0''
   \<and> m_count (fresh_session ''log'' 100 1 True) = 1
   \<and> (\<exists>g1. glXSwapBuffers example_env True example_globals = Inr g1
         \<and> logger_session g1 = Some (fresh_session ''log'' 100 1 True)
         \<and> Session_count g1 = 2
         \<and> frame_count g1 = 1
         \<and> journal (files g1) =
             [Fopen ''log-1.0'' True,
              Fclose ''log-1.0''
                (records_bytes [(I965_BATCHBUFFER_LOGGER_MESSAGE_BLOCK_END, [], [])]),
              Fopen ''log-2.0'' True])
   \<and> (\<exists>g1. eglSwapBuffers example_env True example_globals = Inr g1
         \<and> logger_session g1 = Some (fresh_session ''log'' 100 1 True)
         \<and> Session_count g1 = 2
         \<and> frame_count g1 = 1
         \<and> journal (files g1) =
             [Fopen ''log-1.0'' True,
              Fclose ''log-1.0''
                (records_bytes [(I965_BATCHBUFFER_LOGGER_MESSAGE_BLOCK_END, [], [])]),
              Fopen ''log-2.0'' True])
   \<and> (\<exists>g1. eglSwapBuffers example_env True (example_globals\<lparr>most_recent_ioctl_max := 2\<rparr>) = Inr g1
         \<and> logger_session g1 = Some example_session
         \<and> files g1 = files example_globals
         \<and> Session_count g1 = 1
         \<and> frame_count g1 = 3)"
proof -
  have l: "logger_app example_globals" "0 < numframes_per_file example_globals"
    "numframes_per_file example_globals \<le> frame_count example_globals"
    "most_recent_ioctl_max example_globals = 0"
    by (simp_all add: example_globals_def)
  have res: "glXSwapBuffers_fptr example_globals = None"
    "gl_dlsym example_env ''glXSwapBuffers'' = Some (Foreign 1)"
    "eglSwapBuffers_fptr example_globals = None"
    "egl_dlsym example_env ''eglSwapBuffers'' = Some (Foreign 3)"
    by (simp_all add: example_globals_def example_env_def)
  have v: "filename_prefix example_env = ''log''" "max_filesize example_globals = 100"
    "Session_count example_globals = 1" "frame_count example_globals = 2"
    "logger_session example_globals = Some example_session"
    by (simp_all add: example_globals_def example_env_def)
  have ring: "ring_ok example_session"
    by (simp add: ring_ok_def example_session_def)
  have d: "decimal 2 = ''2''"
    by (simp add: decimal_digit digit_char_def)
  have fn: "m_filename (fresh_session ''log'' 100 1 True) = ''log-2.0''"
    "m_count (fresh_session ''log'' 100 1 True) = 1"
    by (simp_all add: fresh_session_def d)
  have sw: "glXSwapBuffers = glXSwapBuffers \<or> glXSwapBuffers = eglSwapBuffers"
    by simp
  have sw2: "eglSwapBuffers = glXSwapBuffers \<or> eglSwapBuffers = eglSwapBuffers"
    by simp
  note glx = frame_threshold_replaces_session [OF l(1) sw, of example_env True]
  from glx res ring v(5) obtain g1
    where r1: "glXSwapBuffers example_env True example_globals = Inr g1"
    by auto
  from glx r1 l example_globals_end_session
  have first: "logger_session g1 = Some (fresh_session ''log'' 100 1 True)
         \<and> Session_count g1 = 2 \<and> frame_count g1 = 1
         \<and> journal (files g1) =
             [Fopen ''log-1.0'' True,
              Fclose ''log-1.0''
                (records_bytes [(I965_BATCHBUFFER_LOGGER_MESSAGE_BLOCK_END, [], [])]),
              Fopen ''log-2.0'' True]"
    by (auto simp add: v d)
  note egl = frame_threshold_replaces_session [OF l(1) sw2, of example_env True]
  from egl res ring v(5) obtain g2
    where r2: "eglSwapBuffers example_env True example_globals = Inr g2"
    by auto
  from egl r2 l example_globals_end_session
  have second: "logger_session g2 = Some (fresh_session ''log'' 100 1 True)
         \<and> Session_count g2 = 2 \<and> frame_count g2 = 1
         \<and> journal (files g2) =
             [Fopen ''log-1.0'' True,
              Fclose ''log-1.0''
                (records_bytes [(I965_BATCHBUFFER_LOGGER_MESSAGE_BLOCK_END, [], [])]),
              Fopen ''log-2.0'' True]"
    by (auto simp add: v d)
  have l3: "logger_app (example_globals\<lparr>most_recent_ioctl_max := 2\<rparr>)"
    "eglSwapBuffers_fptr (example_globals\<lparr>most_recent_ioctl_max := 2\<rparr>) = None"
    "logger_session (example_globals\<lparr>most_recent_ioctl_max := 2\<rparr>) = Some example_session"
    "most_recent_ioctl_max (example_globals\<lparr>most_recent_ioctl_max := 2\<rparr>) = 2"
    by (simp_all add: example_globals_def)
  note keep = frame_threshold_replaces_session [OF l3(1) sw2, of example_env True]
  from keep res(4) ring l3(3) obtain g3
    where r3: "eglSwapBuffers example_env True (example_globals\<lparr>most_recent_ioctl_max := 2\<rparr>)
                 = Inr g3"
    by auto
  from keep r3
  have third: "logger_session g3 = Some example_session \<and> files g3 = files example_globals
         \<and> Session_count g3 = 1 \<and> frame_count g3 = 3"
    by (simp add: v)
  show ?thesis
    using l res v(5) ring fn r1 first r2 second r3 third by blast
qed

end
